(* ===== verification/Prelude.thy ===== *)
theory Prelude
  imports Main "HOL-Library.Word"
begin

unbundle bit_operations_syntax

text \<open>
  Shared vocabulary of the development: the machine integer types of the C++ sources,
  the collections of rewrite rules the component theories use, and the generic facts
  on lists, lane vectors and words that several components need. A SIMD register is
  modelled by the list of its lanes (lane 0 first, i.e. the lowest-addressed element
  of the register in memory), so that an element-wise intrinsic is a \<open>map2\<close>.
\<close>

type_synonym u8 = "8 word"
type_synonym u16 = "16 word"
type_synonym u64 = "64 word"

named_theorems lane_simps "lane-wise reading of the vector operations"
named_theorems index_defs "definitions of the reachability index operations"
named_theorems simd_defs "definitions of the SIMD16u operations"

subsection \<open>Lists updated and read by index\<close>

lemma map_upt_nth_eq [simp]: "map (\<lambda>i. xs ! i) [0..<length xs] = xs"
  by (simp add: map_nth)

lemma map_upt_eqI:
  "length xs = n \<Longrightarrow> (\<And>i. i < n \<Longrightarrow> f i = xs ! i) \<Longrightarrow> map f [0..<n] = xs"
  by (rule nth_equalityI) simp_all

subsection \<open>Lane-wise operations\<close>

text \<open>An element-wise binary intrinsic on two registers of equal width.\<close>

lemma nth_map2_lane [lane_simps]:
  "i < length xs \<Longrightarrow> i < length ys \<Longrightarrow> map2 f xs ys ! i = f (xs ! i) (ys ! i)"
  by simp

text \<open>Index masking of a 16-element array, \<open>i & 15\<close>.\<close>

lemma and_15_eq_mod_16: "(i::nat) AND 15 = i mod 16"
proof -
  have "(15::nat) = mask 4"
    by (simp add: mask_eq_exp_minus_1)
  then have "i AND 15 = take_bit 4 i"
    by (simp add: take_bit_eq_mask)
  then show ?thesis
    by (simp add: take_bit_eq_mod)
qed

subsection \<open>Unsigned minimum and maximum of bytes\<close>

lemma u8_le_255 [simp]: "(p::u8) \<le> 255"
proof -
  have "unat p < 2 ^ 8"
    using unsigned_less [of p] by simp
  then show ?thesis
    by (simp add: word_le_nat_alt)
qed

lemma min_max_255 [simp]: "min x (max p (255::u8)) = x"
  by (simp add: max_def min_def)

lemma max_0_u8 [simp]: "max p (0::u8) = p"
  by (simp add: max_def)

subsection \<open>Unsigned readings of words\<close>

lemma unat_min_word: "unat (min a b) = min (unat a) (unat (b::'a::len word))"
  by (simp add: min_def word_le_nat_alt)

lemma unat_of_nat_u8: "unat (of_nat n :: u8) = n mod 256"
  by (simp add: unsigned_of_nat take_bit_eq_mod)

lemma u8_of_nat_le_iff: "(of_nat s \<le> (q::u8)) = (s mod 256 \<le> unat q)"
  by (simp add: word_le_nat_alt unat_of_nat_u8)

lemma u8_min_le_iff: "(min (of_nat s) p \<le> (q::u8)) = (s mod 256 \<le> unat q \<or> p \<le> q)"
  by (simp only: min_le_iff_disj u8_of_nat_le_iff)

lemma unat_of_nat_u64: "n < 2 ^ 64 \<Longrightarrow> unat (of_nat n :: u64) = n"
  by (simp add: unsigned_of_nat take_bit_eq_mod)

end
