(* ===== verification/SimdMask.thy ===== *)
theory SimdMask
  imports Prelude
begin

unbundle bit_operations_syntax

text \<open>
  The platform-agnostic 128-bit helpers of \<open>src/unnamed/part_000\<close> (lines 44--106): a
  register of sixteen unsigned byte lanes, broadcast, lane-wise unsigned maximum and
  minimum, and \<open>makeMask round\<close>, the register whose bytes \<open>0 .. round - 2\<close> are \<open>0xFF\<close> and
  whose other bytes are \<open>0\<close>. The ARM NEON path builds the mask with a loop
  (\<open>makeMask_neon\<close>), the x86 SSE2 path reads it from the constant table \<open>MAX_MASKS\<close>
  (\<open>makeMask_sse2\<close>). The table is declared as sixteen \<open>__m128i\<close> values initialised
  by 32 scalars; by brace elision each \<open>__m128i\<close> takes two consecutive scalars as its
  low and high 64-bit halves, which are stored little-endian.
\<close>

type_synonym simd128 = "u8 list"

datatype platform = Neon | Sse2

definition simd_set1_u8 :: "u8 \<Rightarrow> simd128" where
  "simd_set1_u8 val = replicate 16 val"

definition simd_max_u8 :: "simd128 \<Rightarrow> simd128 \<Rightarrow> simd128" where
  "simd_max_u8 a b = map2 max a b"

definition simd_min_u8 :: "simd128 \<Rightarrow> simd128 \<Rightarrow> simd128" where
  "simd_min_u8 a b = map2 min a b"

subsection \<open>NEON: the mask built by a loop\<close>

text \<open>
  \<open>for (int i = 0; i < static_cast<int>(round) - 1 && i < 16; ++i) buf[i] = 0xFF;\<close>
  over a zero-initialised buffer; the comparison is in \<open>int\<close>, so \<open>round = 0\<close> gives
  the bound \<open>-1\<close> and no iteration.
\<close>

function makeMask_loop :: "u8 \<Rightarrow> nat \<Rightarrow> u8 list \<Rightarrow> u8 list" where
  "makeMask_loop round i buf =
     (if int i < uint round - 1 \<and> i < 16 then makeMask_loop round (Suc i) (buf[i := 255])
      else buf)"
  by pat_completeness auto
termination
  by (relation "measure (\<lambda>(round, i, buf). 16 - i)") auto

declare makeMask_loop.simps [simp del]

definition makeMask_neon :: "u8 \<Rightarrow> simd128" where
  "makeMask_neon round = makeMask_loop round 0 (replicate 16 0)"

subsection \<open>SSE2: the mask read from a constant table\<close>

definition MAX_MASKS :: "u64 list" where
  "MAX_MASKS =
     [0x0000000000000000, 0x0000000000000000,
      0x00000000000000FF, 0x0000000000000000,
      0x000000000000FFFF, 0x0000000000000000,
      0x0000000000FFFFFF, 0x0000000000000000,
      0x00000000FFFFFFFF, 0x0000000000000000,
      0x000000FFFFFFFFFF, 0x0000000000000000,
      0x0000FFFFFFFFFFFF, 0x0000000000000000,
      0x00FFFFFFFFFFFFFF, 0x0000000000000000,
      -1, 0x0000000000000000,
      -1, 0x00000000000000FF,
      -1, 0x000000000000FFFF,
      -1, 0x0000000000FFFFFF,
      -1, 0x00000000FFFFFFFF,
      -1, 0x000000FFFFFFFFFF,
      -1, 0x0000FFFFFFFFFFFF,
      -1, 0x00FFFFFFFFFFFFFF]"

text \<open>The byte lanes of a 64-bit half, least significant byte first (little-endian).\<close>

definition bytes_le :: "u64 \<Rightarrow> u8 list" where
  "bytes_le w = map (\<lambda>i. ucast (drop_bit (8 * i) w)) [0..<8]"

definition m128_of_halves :: "u64 \<Rightarrow> u64 \<Rightarrow> simd128" where
  "m128_of_halves lo hi = bytes_le lo @ bytes_le hi"

text \<open>
  \<open>MAX_MASKS[round - 1]\<close>: the index is computed in \<open>int\<close>; outside \<open>0 ..< 16\<close> it reads
  outside the array, which is \<open>None\<close> here.
\<close>

definition makeMask_sse2 :: "u8 \<Rightarrow> simd128 option" where
  "makeMask_sse2 round =
     (let k = uint round - 1
      in if 0 \<le> k \<and> k < 16
         then Some (m128_of_halves (MAX_MASKS ! nat (2 * k)) (MAX_MASKS ! nat (2 * k + 1)))
         else None)"

text \<open>The mask of the platform the code is compiled for.\<close>

fun makeMask :: "platform \<Rightarrow> u8 \<Rightarrow> simd128 option" where
  "makeMask Neon round = Some (makeMask_neon round)"
| "makeMask Sse2 round = makeMask_sse2 round"

subsection \<open>Lanes of the masks\<close>

lemma length_makeMask_loop [simp]: "length (makeMask_loop round i buf) = length buf"
proof (induction round i buf rule: makeMask_loop.induct)
  case (1 round i buf)
  then show ?case
    by (subst makeMask_loop.simps) simp
qed

lemma nth_makeMask_loop:
  "j < length buf \<Longrightarrow>
   makeMask_loop round i buf ! j =
     (if i \<le> j \<and> int j < uint round - 1 \<and> j < 16 then 255 else buf ! j)"
proof (induction round i buf rule: makeMask_loop.induct)
  case (1 round i buf)
  show ?case
  proof (cases "int i < uint round - 1 \<and> i < 16")
    case True
    with "1.IH" "1.prems" show ?thesis
      by (subst makeMask_loop.simps) (auto simp: nth_list_update)
  next
    case False
    then show ?thesis
      by (subst makeMask_loop.simps) auto
  qed
qed

lemma length_makeMask_neon [simp]: "length (makeMask_neon round) = 16"
  by (simp add: makeMask_neon_def)

lemma nth_makeMask_neon [lane_simps]:
  "j < 16 \<Longrightarrow> makeMask_neon round ! j = (if int j < uint round - 1 then 255 else 0)"
  by (simp add: makeMask_neon_def nth_makeMask_loop)

text \<open>The table, read at every index it holds, gives the loop's mask.\<close>

lemma makeMask_table_rows:
  "list_all (\<lambda>k. makeMask_sse2 (of_nat k) = Some (makeMask_neon (of_nat k))) [1..<17]"
  by code_simp

lemma makeMask_sse2_eq_neon:
  assumes "0 < round" "round \<le> 16"
  shows "makeMask_sse2 round = Some (makeMask_neon round)"
proof -
  from assms have "unat round \<in> set [1..<17]"
    by (simp add: word_less_nat_alt word_le_nat_alt)
  moreover from makeMask_table_rows
  have "\<forall>k \<in> set [1..<17]. makeMask_sse2 (of_nat k) = Some (makeMask_neon (of_nat k))"
    by (simp only: list_all_iff)
  ultimately
  have "makeMask_sse2 (of_nat (unat round)) = Some (makeMask_neon (of_nat (unat round)))"
    by blast
  then show ?thesis
    by simp
qed

subsection \<open>Lanes of the broadcast, minimum and maximum\<close>

lemma length_simd_set1_u8 [simp]: "length (simd_set1_u8 v) = 16"
  by (simp add: simd_set1_u8_def)

lemma length_simd_min_u8 [simp]: "length (simd_min_u8 a b) = min (length a) (length b)"
  by (simp add: simd_min_u8_def)

lemma length_simd_max_u8 [simp]: "length (simd_max_u8 a b) = min (length a) (length b)"
  by (simp add: simd_max_u8_def)

lemma nth_simd_min_u8 [lane_simps]:
  "i < length a \<Longrightarrow> i < length b \<Longrightarrow> simd_min_u8 a b ! i = min (a ! i) (b ! i)"
  by (simp add: simd_min_u8_def)

lemma nth_filter_lane [lane_simps]:
  "j < 16 \<Longrightarrow>
   simd_max_u8 (simd_set1_u8 p) (makeMask_neon round) ! j =
     (if int j < uint round - 1 then 255 else p)"
  by (simp add: simd_max_u8_def simd_set1_u8_def nth_makeMask_neon)

lemma simd_min_u8_swap:
  "simd_min_u8 (simd_min_u8 a F) G = simd_min_u8 (simd_min_u8 a G) F"
  by (rule nth_equalityI) (simp_all add: simd_min_u8_def ac_simps)

subsection \<open>Properties of the masks\<close>

text \<open>
  C6. The two platform paths of \<open>makeMask\<close> agree: for every round the SSE2 table
  covers (\<open>1 \<le> round \<le> 16\<close>), reading \<open>MAX_MASKS[round - 1]\<close> as two little-endian
  64-bit halves gives the same sixteen bytes as the NEON loop.
\<close>

theorem makeMask_platforms_agree:
  assumes "0 < round" "round \<le> 16"
  shows "makeMask Sse2 round = makeMask Neon round"
  using makeMask_sse2_eq_neon [OF assms] by simp

theorem makeMask_platforms_agree_witness:
  "(0::u8) < 16 \<and> (16::u8) \<le> 16 \<and> makeMask Sse2 16 = makeMask Neon 16"
proof -
  have r: "(0::u8) < 16" "(16::u8) \<le> 16"
    by simp_all
  show ?thesis
    using r makeMask_platforms_agree [OF r] by blast
qed

text \<open>
  C7. The NEON mask has \<open>0xFF\<close> exactly in the bytes \<open>j\<close> with \<open>j + 1 < round\<close>, i.e.
  the lanes of the rounds before \<open>round\<close>, and \<open>0\<close> in all others.
\<close>

theorem makeMask_neon_lanes:
  assumes "j < 16"
  shows "makeMask_neon round ! j = (if j + 1 < unat round then 255 else 0)"
proof -
  have "(int j < uint round - 1) = (j + 1 < unat round)"
    unfolding uint_nat by arith
  with nth_makeMask_neon [OF assms] show ?thesis
    by simp
qed

theorem makeMask_neon_lanes_witness:
  "(2::nat) < 16 \<and> makeMask_neon 4 ! 2 = 255 \<and> (3::nat) < 16 \<and> makeMask_neon 4 ! 3 = 0"
proof -
  have j: "(2::nat) < 16" "(3::nat) < 16"
    by simp_all
  have "unat (4::u8) = 4"
    by simp
  then show ?thesis
    using j makeMask_neon_lanes [OF j(1), of 4] makeMask_neon_lanes [OF j(2), of 4] by simp
qed

end
