(* ===== verification/Timetable.thy ===== *)
theory Timetable
  imports Prelude
begin

text \<open>
  The timetable interface the reachability index reads (the class \<open>TripBased::Data\<close>
  included from \<open>DataStructures/TripBased/Data.h\<close>, which is not part of \<open>src/\<close>; it is
  modelled from the external-interface section of the specification). Trips are numbered
  \<open>0 ..< numberOfTrips\<close>; every trip belongs to a route, and the trips of a route form the
  contiguous range \<open>[firstTripOfRoute r, firstTripOfRoute (r + 1))\<close>. Trips of one route
  share the route's stop sequence, hence their stop count.
\<close>

record timetable =
  stopsOfTrip :: "nat list"
  routeOfTrip :: "nat list"
  firstTripOfRoute :: "nat list"

definition numberOfTrips :: "timetable \<Rightarrow> nat" where
  "numberOfTrips d = length (routeOfTrip d)"

definition isTrip :: "timetable \<Rightarrow> nat \<Rightarrow> bool" where
  "isTrip d t \<longleftrightarrow> t < numberOfTrips d"

definition numberOfStopsInTrip :: "timetable \<Rightarrow> nat \<Rightarrow> nat" where
  "numberOfStopsInTrip d t = stopsOfTrip d ! t"

text \<open>
  The end of the id range of the route of trip \<open>t\<close>, the expression
  \<open>data.firstTripOfRoute[data.routeOfTrip[trip] + 1]\<close> of the update loop.
\<close>

definition routeEnd :: "timetable \<Rightarrow> nat \<Rightarrow> nat" where
  "routeEnd d t = firstTripOfRoute d ! Suc (routeOfTrip d ! t)"

text \<open>
  Well-formedness of a timetable: the per-trip tables have one entry per trip, and for
  every trip its route's range lies within the trips, contains the trip, and holds only
  trips of the same route and the same stop count.
\<close>

definition wf_trip :: "timetable \<Rightarrow> nat \<Rightarrow> bool" where
  "wf_trip d t \<longleftrightarrow>
     Suc (routeOfTrip d ! t) < length (firstTripOfRoute d) \<and>
     firstTripOfRoute d ! (routeOfTrip d ! t) \<le> t \<and>
     t < routeEnd d t \<and> routeEnd d t \<le> numberOfTrips d \<and>
     (\<forall>t' \<in> {t..<routeEnd d t}.
        routeOfTrip d ! t' = routeOfTrip d ! t \<and> stopsOfTrip d ! t' = stopsOfTrip d ! t)"

definition wf_timetable :: "timetable \<Rightarrow> bool" where
  "wf_timetable d \<longleftrightarrow>
     length (stopsOfTrip d) = numberOfTrips d \<and> (\<forall>t < numberOfTrips d. wf_trip d t)"

text \<open>
  A timetable for concrete checks: the route of the specification's scenario (three
  trips of five stops, ids 0--2) followed by a second route of two trips of seven stops.
\<close>

definition example_timetable :: timetable where
  "example_timetable =
     \<lparr>stopsOfTrip = [5, 5, 5, 7, 7], routeOfTrip = [0, 0, 0, 1, 1], firstTripOfRoute = [0, 3, 5]\<rparr>"

subsection \<open>Consequences of well-formedness\<close>

lemma wf_trip_facts:
  assumes "wf_timetable d" "isTrip d t"
  shows "t < routeEnd d t" "routeEnd d t \<le> numberOfTrips d"
    and "\<forall>t' \<in> {t..<routeEnd d t}.
           routeOfTrip d ! t' = routeOfTrip d ! t \<and> stopsOfTrip d ! t' = stopsOfTrip d ! t"
proof -
  from assms have "wf_trip d t"
    unfolding wf_timetable_def isTrip_def by blast
  then show "t < routeEnd d t" and "routeEnd d t \<le> numberOfTrips d"
    and "\<forall>t' \<in> {t..<routeEnd d t}.
           routeOfTrip d ! t' = routeOfTrip d ! t \<and> stopsOfTrip d ! t' = stopsOfTrip d ! t"
    unfolding wf_trip_def by blast+
qed

lemma wf_same_route:
  assumes "wf_timetable d" "isTrip d t" "t \<le> t'" "t' < routeEnd d t"
  shows "routeEnd d t' = routeEnd d t"
    and "numberOfStopsInTrip d t' = numberOfStopsInTrip d t"
    and "isTrip d t'"
proof -
  have "t' \<in> {t..<routeEnd d t}"
    using assms(3,4) by simp
  with wf_trip_facts(3) [OF assms(1,2)]
  have "routeOfTrip d ! t' = routeOfTrip d ! t \<and> stopsOfTrip d ! t' = stopsOfTrip d ! t"
    by (rule bspec)
  then have "routeOfTrip d ! t' = routeOfTrip d ! t" and "stopsOfTrip d ! t' = stopsOfTrip d ! t"
    by blast+
  then show "routeEnd d t' = routeEnd d t"
    and "numberOfStopsInTrip d t' = numberOfStopsInTrip d t"
    by (simp_all add: routeEnd_def numberOfStopsInTrip_def)
  from wf_trip_facts(2) [OF assms(1,2)] assms(4) show "isTrip d t'"
    by (simp add: isTrip_def)
qed

end
