(* ===== verification/ReachedIndex.thy ===== *)
theory ReachedIndex
  imports SimdMask Timetable
begin

text \<open>
  The class \<open>ProfileReachedIndexSIMD\<close> of \<open>src/unnamed/part_000\<close> (lines 108--194). Its
  state is the timetable it reads, the per-trip template \<open>defaultLabels\<close> and the working
  vector \<open>labels\<close>; both vectors hold one 16-byte register per trip (the union
  \<open>ReachedElement\<close>), whose byte \<open>round - 1\<close> is the best stop position known reachable
  for that trip at that round. The assertions of \<open>alreadyReached\<close> and \<open>update\<close> are the
  errors \<open>NotATrip\<close>, \<open>RoundZero\<close> and \<open>RoundTooLarge\<close> (the debug build); an access outside
  the vectors, undefined behaviour in C++, is \<open>OutOfBounds\<close>.
\<close>

text \<open>
  \<open>ReachedElement\<close>: a 16-byte union of the register \<open>mValues\<close> and the byte array
  \<open>values\<close>, two views of the same bytes, so one list of sixteen bytes.
\<close>

type_synonym reached_element = simd128

text \<open>
  \<open>alignas(16)\<close> on a 16-byte union: size and alignment of \<open>ReachedElement\<close>, the
  parameters of the \<open>aligned_allocator\<close> of both vectors.
\<close>

definition sizeof_ReachedElement :: u64 where
  "sizeof_ReachedElement = 16"

definition alignof_ReachedElement :: u64 where
  "alignof_ReachedElement = 16"

record reached_index =
  data :: timetable
  defaultLabels :: "reached_element list"
  labels :: "reached_element list"

datatype reach_error = NotATrip | RoundZero | RoundTooLarge | OutOfBounds

text \<open>
  The constructor fills every byte of each trip's template with the trip's stop count,
  converted to \<open>u_int8_t\<close> (so taken modulo 256). The working vector is allocated with
  \<open>numberOfTrips\<close> elements whose default constructor leaves them uninitialised: its
  contents are the parameter \<open>uninit\<close>.
\<close>

definition ProfileReachedIndexSIMD :: "timetable \<Rightarrow> simd128 list \<Rightarrow> reached_index" where
  "ProfileReachedIndexSIMD d uninit =
     \<lparr>data = d,
      defaultLabels =
        map (\<lambda>trip. replicate 16 (of_nat (numberOfStopsInTrip d trip))) [0..<numberOfTrips d],
      labels = uninit\<rparr>"

definition clear :: "reached_index \<Rightarrow> reached_index" where
  "clear st = st\<lparr>labels := defaultLabels st\<rparr>"

text \<open>\<open>labels[trip].values[round - 1]\<close>, with the index computed in \<open>int\<close>.\<close>

definition getPosition :: "reached_index \<Rightarrow> nat \<Rightarrow> u8 \<Rightarrow> u8 option" where
  "getPosition st trip round =
     (let ls = labels st; i = uint round - 1
      in if trip < length ls \<and> 0 \<le> i \<and> nat i < length (ls ! trip)
         then Some (ls ! trip ! nat i) else None)"

definition alreadyReached :: "reached_index \<Rightarrow> nat \<Rightarrow> u8 \<Rightarrow> u8 \<Rightarrow> reach_error + bool" where
  "alreadyReached st trip position round =
     (if \<not> isTrip (data st) trip then Inl NotATrip
      else if \<not> 0 < round then Inl RoundZero
      else if \<not> round < 16 then Inl RoundTooLarge
      else case getPosition st trip round of
             None \<Rightarrow> Inl OutOfBounds
           | Some v \<Rightarrow> Inr (v \<le> position))"

text \<open>
  The scan of \<open>update\<close>: from trip \<open>tr\<close> on, while \<open>tr\<close> is below the end \<open>e\<close> of the
  route and the position stored for \<open>tr\<close> at \<open>round\<close> is worse than \<open>position\<close>, take the
  lane-wise minimum of the trip's register with \<open>FILTER\<close>.
\<close>

function update_loop ::
  "nat \<Rightarrow> u8 \<Rightarrow> u8 \<Rightarrow> simd128 \<Rightarrow> nat \<Rightarrow> reached_index \<Rightarrow> reach_error + reached_index" where
  "update_loop e round position FILTER tr st =
     (if tr < e then
        (case getPosition st tr round of
           None \<Rightarrow> Inl OutOfBounds
         | Some v \<Rightarrow>
             if position < v
             then update_loop e round position FILTER (Suc tr)
                    (st\<lparr>labels := (labels st)[tr := simd_min_u8 (labels st ! tr) FILTER]\<rparr>)
             else Inr st)
      else Inr st)"
  by pat_completeness auto
termination
  by (relation "measure (\<lambda>(e, round, position, FILTER, tr, st). e - tr)") auto

declare update_loop.simps [simp del]

definition update ::
  "platform \<Rightarrow> reached_index \<Rightarrow> nat \<Rightarrow> u8 \<Rightarrow> u8 \<Rightarrow> reach_error + reached_index" where
  "update pf st trip position round =
     (if \<not> isTrip (data st) trip then Inl NotATrip
      else if \<not> 0 < round then Inl RoundZero
      else if \<not> round < 16 then Inl RoundTooLarge
      else case makeMask pf round of
             None \<Rightarrow> Inl OutOfBounds
           | Some msk \<Rightarrow>
               let FILTER = simd_max_u8 (simd_set1_u8 position) msk
               in update_loop (routeEnd (data st) trip) round position FILTER trip st)"

text \<open>
  The unchecked accessor \<open>operator()\<close> returns a reference to the stored byte: reading
  it is \<open>getPosition\<close>, writing through it is \<open>setPosition\<close>, which neither
  propagates to later rounds nor to later trips.
\<close>

definition setPosition :: "reached_index \<Rightarrow> nat \<Rightarrow> u8 \<Rightarrow> u8 \<Rightarrow> reach_error + reached_index" where
  "setPosition st trip round v =
     (case getPosition st trip round of
        None \<Rightarrow> Inl OutOfBounds
      | Some _ \<Rightarrow>
          Inr (st\<lparr>labels := (labels st)[trip := (labels st ! trip)[nat (uint round - 1) := v]]\<rparr>))"

text \<open>The private helper \<open>getMask\<close> (never called by the class itself).\<close>

definition getMask :: "platform \<Rightarrow> u8 \<Rightarrow> reach_error + simd128" where
  "getMask pf round =
     (if \<not> 0 < round then Inl RoundZero
      else if \<not> round < 16 then Inl RoundTooLarge
      else case makeMask pf round of None \<Rightarrow> Inl OutOfBounds | Some m \<Rightarrow> Inr m)"

declare clear_def [index_defs] getPosition_def [index_defs] alreadyReached_def [index_defs]
  update_def [index_defs] setPosition_def [index_defs]

subsection \<open>Reference semantics and invariant\<close>

text \<open>
  The filter \<open>update\<close> builds: \<open>0xFF\<close> in the lanes of the rounds before \<open>round\<close>, the
  new position in the lane of \<open>round\<close> and every later one.
\<close>

abbreviation update_filter :: "u8 \<Rightarrow> u8 \<Rightarrow> simd128" where
  "update_filter position round \<equiv> simd_max_u8 (simd_set1_u8 position) (makeMask_neon round)"

text \<open>
  The specification's reading of an update: the lane-wise minimum with the filter applied
  to every trip of the id range \<open>[lo, hi)\<close>, with no early exit.
\<close>

definition apply_filter :: "simd128 \<Rightarrow> nat \<Rightarrow> nat \<Rightarrow> simd128 list \<Rightarrow> simd128 list" where
  "apply_filter F lo hi ls =
     map (\<lambda>t. if lo \<le> t \<and> t < hi then simd_min_u8 (ls ! t) F else ls ! t) [0..<length ls]"

text \<open>
  Every register has its sixteen lanes; within a trip a later round never holds a worse
  position than an earlier one; within a route a later trip never holds a worse position
  than an earlier one, at any round. The last two are what make the early exit of the
  scan sound.
\<close>

definition lanes16 :: "simd128 list \<Rightarrow> bool" where
  "lanes16 ls \<longleftrightarrow> (\<forall>t < length ls. length (ls ! t) = 16)"

definition round_monotone :: "simd128 list \<Rightarrow> bool" where
  "round_monotone ls \<longleftrightarrow> (\<forall>t < length ls. \<forall>i < 15. ls ! t ! Suc i \<le> ls ! t ! i)"

definition route_monotone :: "timetable \<Rightarrow> simd128 list \<Rightarrow> bool" where
  "route_monotone d ls \<longleftrightarrow>
     (\<forall>t < length ls. \<forall>t' \<in> {t..<routeEnd d t}. \<forall>i < 16. ls ! t' ! i \<le> ls ! t ! i)"

definition labels_inv :: "timetable \<Rightarrow> simd128 list \<Rightarrow> bool" where
  "labels_inv d ls \<longleftrightarrow>
     length ls = numberOfTrips d \<and> lanes16 ls \<and> round_monotone ls \<and> route_monotone d ls"

definition index_inv :: "reached_index \<Rightarrow> bool" where
  "index_inv st \<longleftrightarrow>
     wf_timetable (data st) \<and> labels_inv (data st) (defaultLabels st) \<and>
     labels_inv (data st) (labels st)"

text \<open>The index over the example timetable, right after its first \<open>clear()\<close>.\<close>

definition example_index :: reached_index where
  "example_index = clear (ProfileReachedIndexSIMD example_timetable [])"

subsection \<open>The scan and the full update\<close>

lemma length_apply_filter [simp]: "length (apply_filter F lo hi ls) = length ls"
  by (simp add: apply_filter_def)

lemma nth_apply_filter:
  "t < length ls \<Longrightarrow>
   apply_filter F lo hi ls ! t = (if lo \<le> t \<and> t < hi then simd_min_u8 (ls ! t) F else ls ! t)"
  by (simp add: apply_filter_def)

lemma apply_filter_empty [simp]: "apply_filter F lo lo ls = ls"
  by (rule nth_equalityI) (auto simp: nth_apply_filter)

lemma apply_filter_step:
  assumes "lo < hi" "lo < length ls"
  shows "apply_filter F (Suc lo) hi (ls[lo := simd_min_u8 (ls ! lo) F]) = apply_filter F lo hi ls"
  using assms by (intro nth_equalityI) (auto simp: nth_apply_filter nth_list_update)

lemma apply_filter_swap:
  "apply_filter F lo hi (apply_filter G lo' hi' ls) = apply_filter G lo' hi' (apply_filter F lo hi ls)"
  by (rule nth_equalityI) (auto simp: nth_apply_filter simd_min_u8_swap)

lemma lanes16_D: "lanes16 ls \<Longrightarrow> t < length ls \<Longrightarrow> length (ls ! t) = 16"
  by (simp add: lanes16_def)

lemma lanes16_update_min:
  "lanes16 ls \<Longrightarrow> length F = 16 \<Longrightarrow> lanes16 (ls[tr := simd_min_u8 (ls ! tr) F])"
  by (cases "tr < length ls") (auto simp: lanes16_def nth_list_update)

lemma round_index:
  assumes "0 < round" "round \<le> (16::u8)"
  shows "nat (uint round - 1) = unat round - 1" "0 \<le> uint round - 1" "unat round - 1 < 16"
proof -
  from assms have "0 < unat round" "unat round \<le> 16"
    by (simp_all add: word_less_nat_alt word_le_nat_alt)
  moreover have u: "uint round = int (unat round)"
    by (rule uint_nat)
  ultimately show "nat (uint round - 1) = unat round - 1" "0 \<le> uint round - 1" "unat round - 1 < 16"
    unfolding u by arith+
qed

lemma getPosition_Some:
  assumes "tr < length (labels st)" "lanes16 (labels st)" "0 < round" "round \<le> 16"
  shows "getPosition st tr round = Some (labels st ! tr ! (unat round - 1))"
  using assms round_index [OF assms(3,4)] lanes16_D [OF assms(2,1)]
  by (simp add: getPosition_def Let_def)

lemma update_loop_scan:
  assumes "e \<le> length (labels st)" "lanes16 (labels st)" "length F = 16"
    "0 < round" "round \<le> 16" "tr \<le> e"
  shows "\<exists>stop. tr \<le> stop \<and> stop \<le> e \<and>
     update_loop e round p F tr st = Inr (st\<lparr>labels := apply_filter F tr stop (labels st)\<rparr>) \<and>
     (\<forall>t \<in> {tr..<stop}. p < labels st ! t ! (unat round - 1)) \<and>
     (stop < e \<longrightarrow> labels st ! stop ! (unat round - 1) \<le> p)"
  using assms
proof (induction e round p F tr st rule: update_loop.induct)
  case (1 e round p F tr st)
  let ?k = "unat round - 1"
  let ?ls = "labels st"
  show ?case
  proof (cases "tr < e \<and> p < ?ls ! tr ! ?k")
    case True
    let ?st' = "st\<lparr>labels := ?ls[tr := simd_min_u8 (?ls ! tr) F]\<rparr>"
    have tr_len: "tr < length ?ls"
      using True "1.prems"(1) by simp
    have gp: "getPosition st tr round = Some (?ls ! tr ! ?k)"
      using getPosition_Some tr_len "1.prems" by blast
    have "lanes16 (labels ?st')"
      using lanes16_update_min "1.prems"(2,3) by simp
    then obtain stop where
      stop: "Suc tr \<le> stop" "stop \<le> e"
        "update_loop e round p F (Suc tr) ?st' = Inr (?st'\<lparr>labels := apply_filter F (Suc tr) stop (labels ?st')\<rparr>)"
        "\<forall>t \<in> {Suc tr..<stop}. p < labels ?st' ! t ! ?k"
        "stop < e \<longrightarrow> labels ?st' ! stop ! ?k \<le> p"
      using "1.IH" [OF conjunct1 [OF True] gp conjunct2 [OF True]] "1.prems" True
      by fastforce
    have "update_loop e round p F tr st = update_loop e round p F (Suc tr) ?st'"
      using True gp by (subst update_loop.simps) simp
    moreover have "apply_filter F (Suc tr) stop (labels ?st') = apply_filter F tr stop ?ls"
      using apply_filter_step stop(1) tr_len by simp
    moreover have "\<forall>t \<in> {tr..<stop}. p < ?ls ! t ! ?k"
    proof
      fix t
      assume t: "t \<in> {tr..<stop}"
      show "p < ?ls ! t ! ?k"
      proof (cases "t = tr")
        case True
        with \<open>tr < e \<and> p < ?ls ! tr ! ?k\<close> show ?thesis by simp
      next
        case False
        with t have "t \<in> {Suc tr..<stop}" by simp
        with stop(4) have "p < labels ?st' ! t ! ?k" by blast
        with False show ?thesis by simp
      qed
    qed
    moreover have "stop < e \<longrightarrow> ?ls ! stop ! ?k \<le> p"
      using stop(1,5) by simp
    ultimately show ?thesis
      using stop(1-3) by (intro exI [of _ stop]) simp
  next
    case False
    have "update_loop e round p F tr st = Inr st"
    proof (cases "tr < e")
      case True
      with "1.prems"(1) have "tr < length ?ls" by simp
      with "1.prems" have "getPosition st tr round = Some (?ls ! tr ! ?k)"
        using getPosition_Some by blast
      with False True show ?thesis
        by (subst update_loop.simps) simp
    next
      case False
      then show ?thesis
        by (subst update_loop.simps) simp
    qed
    moreover have "tr < e \<longrightarrow> ?ls ! tr ! ?k \<le> p"
      using False by auto
    ultimately show ?thesis
      using "1.prems"(6) by (intro exI [of _ tr]) simp
  qed
qed

lemma nth_update_filter:
  assumes "i < 16" "0 < round"
  shows "update_filter p round ! i = (if i < unat round - 1 then 255 else p)"
proof -
  have u: "uint round = int (unat round)"
    by (rule uint_nat)
  from assms(2) have "0 < unat round"
    by (simp add: word_less_nat_alt)
  then have "(int i < uint round - 1) = (i < unat round - 1)"
    unfolding u by arith
  with assms(1) show ?thesis
    by (simp add: nth_filter_lane)
qed

lemma length_update_filter [simp]: "length (update_filter p round) = 16"
  by simp

lemma round_mono_chain:
  assumes "round_monotone ls" "t < length ls" "i \<le> j" "j < 16"
  shows "ls ! t ! j \<le> ls ! t ! i"
  using assms(3,4)
proof (induction j)
  case 0
  then show ?case by simp
next
  case (Suc j)
  show ?case
  proof (cases "i = Suc j")
    case True
    then show ?thesis by simp
  next
    case False
    with Suc.prems have "ls ! t ! j \<le> ls ! t ! i"
      using Suc.IH by simp
    moreover from assms(1,2) Suc.prems(2) have "ls ! t ! Suc j \<le> ls ! t ! j"
      by (simp add: round_monotone_def)
    ultimately show ?thesis
      by simp
  qed
qed

lemma route_mono_D:
  assumes "route_monotone d ls" "t < length ls" "t \<le> t'" "t' < routeEnd d t" "i < 16"
  shows "ls ! t' ! i \<le> ls ! t ! i"
  using assms unfolding route_monotone_def by simp

text \<open>A register already at or below \<open>p\<close> at \<open>round\<close> is left unchanged by the filter.\<close>

lemma min_filter_absorbs:
  assumes "lanes16 ls" "round_monotone ls" "t < length ls" "0 < round" "round \<le> 16"
    "ls ! t ! (unat round - 1) \<le> p"
  shows "simd_min_u8 (ls ! t) (update_filter p round) = ls ! t"
proof (rule nth_equalityI)
  have len: "length (ls ! t) = 16"
    using lanes16_D assms(1,3) .
  then show "length (simd_min_u8 (ls ! t) (update_filter p round)) = length (ls ! t)"
    by simp
  fix i
  assume "i < length (simd_min_u8 (ls ! t) (update_filter p round))"
  with len have i: "i < 16" by simp
  show "simd_min_u8 (ls ! t) (update_filter p round) ! i = ls ! t ! i"
  proof (cases "i < unat round - 1")
    case True
    with i len assms(4) show ?thesis
      by (simp add: nth_simd_min_u8 nth_update_filter min_def)
  next
    case False
    with i assms(2,3) have "ls ! t ! i \<le> ls ! t ! (unat round - 1)"
      by (intro round_mono_chain) simp_all
    with assms(6) have "ls ! t ! i \<le> p"
      by simp
    with False i len assms(4) show ?thesis
      by (simp add: nth_simd_min_u8 nth_update_filter min_def)
  qed
qed

lemma apply_filter_absorb:
  assumes inv: "labels_inv d ls" and wf: "wf_timetable d" and trip: "isTrip d trip"
    and r: "0 < round" "round \<le> 16"
    and stop: "trip \<le> stop" "stop < routeEnd d trip" "ls ! stop ! (unat round - 1) \<le> p"
  shows "apply_filter (update_filter p round) trip stop ls =
         apply_filter (update_filter p round) trip (routeEnd d trip) ls"
proof (rule nth_equalityI)
  show "length (apply_filter (update_filter p round) trip stop ls) =
        length (apply_filter (update_filter p round) trip (routeEnd d trip) ls)"
    by simp
  fix t
  assume "t < length (apply_filter (update_filter p round) trip stop ls)"
  then have t: "t < length ls" by simp
  from inv have l16: "lanes16 ls" and rm: "round_monotone ls" and ro: "route_monotone d ls"
    and len: "length ls = numberOfTrips d"
    by (simp_all add: labels_inv_def)
  show "apply_filter (update_filter p round) trip stop ls ! t =
        apply_filter (update_filter p round) trip (routeEnd d trip) ls ! t"
  proof (cases "stop \<le> t \<and> t < routeEnd d trip")
    case True
    have stop_trip: "isTrip d stop" and stop_end: "routeEnd d stop = routeEnd d trip"
      using wf_same_route [OF wf trip stop(1,2)] by simp_all
    then have "stop < length ls"
      using len by (simp add: isTrip_def)
    moreover have "t < routeEnd d stop"
      using True stop_end by simp
    ultimately have "ls ! t ! (unat round - 1) \<le> ls ! stop ! (unat round - 1)"
      using route_mono_D [OF ro] True round_index(3) [OF r] by blast
    with stop(3) have "ls ! t ! (unat round - 1) \<le> p"
      by simp
    then have "simd_min_u8 (ls ! t) (update_filter p round) = ls ! t"
      using min_filter_absorbs l16 rm t r by blast
    with True t show ?thesis
      by (simp add: nth_apply_filter)
  next
    case False
    with t stop(1,2) show ?thesis
      by (auto simp: nth_apply_filter)
  qed
qed

lemma makeMask_valid_round:
  "0 < round \<Longrightarrow> round \<le> 16 \<Longrightarrow> makeMask pf round = Some (makeMask_neon round)"
  by (cases pf) (simp_all add: makeMask_sse2_eq_neon)

lemma update_Inr_args:
  assumes "update pf st trip p round = Inr st'"
  shows "isTrip (data st) trip" "0 < round" "round < 16"
  using assms by (auto simp: update_def split: if_splits)

lemma update_loop_full_scan:
  assumes inv: "index_inv st" and trip: "isTrip (data st) trip"
    and r: "0 < round" "round \<le> 16"
  shows "update_loop (routeEnd (data st) trip) round p (update_filter p round) trip st =
         Inr (st\<lparr>labels := apply_filter (update_filter p round) trip
                                 (routeEnd (data st) trip) (labels st)\<rparr>)"
proof -
  let ?d = "data st"
  let ?ls = "labels st"
  let ?E = "routeEnd ?d trip"
  let ?F = "update_filter p round"
  from inv have wf: "wf_timetable ?d" and li: "labels_inv ?d ?ls"
    by (simp_all add: index_inv_def)
  from li have len: "length ?ls = numberOfTrips ?d" and l16: "lanes16 ?ls"
    by (simp_all add: labels_inv_def)
  have E: "trip < ?E" "?E \<le> length ?ls"
    using wf_trip_facts(1,2) [OF wf trip] len by simp_all
  obtain stop where stop: "trip \<le> stop" "stop \<le> ?E"
    "update_loop ?E round p ?F trip st = Inr (st\<lparr>labels := apply_filter ?F trip stop ?ls\<rparr>)"
    "stop < ?E \<longrightarrow> ?ls ! stop ! (unat round - 1) \<le> p"
    using update_loop_scan [OF E(2) l16 length_update_filter [of p round] r(1) r(2)
        less_imp_le [OF E(1)], where p = p]
    by blast
  moreover have "apply_filter ?F trip stop ?ls = apply_filter ?F trip ?E ?ls"
  proof (cases "stop < ?E")
    case True
    with stop(4) have "?ls ! stop ! (unat round - 1) \<le> p"
      by simp
    from apply_filter_absorb [OF li wf trip r(1) r(2) stop(1) True this] show ?thesis .
  next
    case False
    with stop(2) show ?thesis
      by simp
  qed
  ultimately show ?thesis
    by simp
qed

lemma update_full_scan:
  assumes inv: "index_inv st" and trip: "isTrip (data st) trip"
    and r: "0 < round" "round < 16"
  shows "update pf st trip p round =
         Inr (st\<lparr>labels := apply_filter (update_filter p round) trip
                                 (routeEnd (data st) trip) (labels st)\<rparr>)"
proof -
  have r16: "round \<le> 16"
    using less_imp_le [OF r(2)] .
  have "update pf st trip p round =
        update_loop (routeEnd (data st) trip) round p (update_filter p round) trip st"
    using trip r makeMask_valid_round [OF r(1) r16] by (simp add: update_def)
  then show ?thesis
    using update_loop_full_scan [OF inv trip r(1) r16] by simp
qed

lemma update_filter_mono:
  assumes "i \<le> j" "j < 16" "0 < round"
  shows "update_filter p round ! j \<le> update_filter p round ! i"
  using assms by (simp add: nth_update_filter)

lemma labels_inv_apply_filter:
  assumes inv: "labels_inv d ls" and wf: "wf_timetable d" and trip: "isTrip d trip"
    and r: "0 < round" "round \<le> 16"
  shows "labels_inv d (apply_filter (update_filter p round) trip (routeEnd d trip) ls)"
    (is "labels_inv d ?ls'")
proof -
  let ?F = "update_filter p round"
  let ?E = "routeEnd d trip"
  from inv have len: "length ls = numberOfTrips d" and l16: "lanes16 ls"
    and rm: "round_monotone ls" and ro: "route_monotone d ls"
    by (simp_all add: labels_inv_def)
  have lane: "?ls' ! t ! i = (if trip \<le> t \<and> t < ?E then min (ls ! t ! i) (?F ! i) else ls ! t ! i)"
    if "t < length ls" "i < 16" for t i
    using that lanes16_D [OF l16 that(1)] by (simp add: nth_apply_filter nth_simd_min_u8)
  have "lanes16 ?ls'"
    using l16 by (simp add: lanes16_def nth_apply_filter)
  moreover have "round_monotone ?ls'"
    unfolding round_monotone_def
  proof (intro allI impI)
    fix t i
    assume t: "t < length ?ls'" and i: "i < (15::nat)"
    have a: "ls ! t ! Suc i \<le> ls ! t ! i"
      using rm t i by (simp add: round_monotone_def)
    have f: "?F ! Suc i \<le> ?F ! i"
      using update_filter_mono [OF _ _ r(1)] i by simp
    show "?ls' ! t ! Suc i \<le> ?ls' ! t ! i"
    proof (cases "trip \<le> t \<and> t < ?E")
      case True
      with t i lane [of t i] lane [of t "Suc i"]
      have e1: "?ls' ! t ! Suc i = min (ls ! t ! Suc i) (?F ! Suc i)"
        and e2: "?ls' ! t ! i = min (ls ! t ! i) (?F ! i)"
        by simp_all
      show ?thesis
        unfolding e1 e2 by (rule min.mono [OF a f])
    next
      case False
      with t i lane [of t i] lane [of t "Suc i"] a show ?thesis
        by simp
    qed
  qed
  moreover have "route_monotone d ?ls'"
    unfolding route_monotone_def
  proof (intro allI impI ballI)
    fix t t' i
    assume t: "t < length ?ls'" and t': "t' \<in> {t..<routeEnd d t}" and i: "i < (16::nat)"
    from t have tl: "t < length ls"
      by simp
    from t' have tt': "t \<le> t'" "t' < routeEnd d t"
      by simp_all
    have tt: "isTrip d t"
      using tl len unfolding isTrip_def by simp
    have t'_len: "t' < length ls"
      using wf_trip_facts(2) [OF wf tt] tt'(2) len by linarith
    have le: "ls ! t' ! i \<le> ls ! t ! i"
      using route_mono_D [OF ro tl tt' i] .
    note l1 = lane [OF tl i] and l2 = lane [OF t'_len i]
    show "?ls' ! t' ! i \<le> ?ls' ! t ! i"
    proof (cases "trip \<le> t \<and> t < ?E")
      case True
      then have "routeEnd d t = ?E"
        using wf_same_route(1) [OF wf trip] by blast
      with True tt' have "trip \<le> t' \<and> t' < ?E"
        by linarith
      moreover have "min (ls ! t' ! i) (?F ! i) \<le> min (ls ! t ! i) (?F ! i)"
        using le by (rule min.mono) (rule order_refl)
      ultimately show ?thesis
        unfolding l1 l2 using True by simp
    next
      case False
      have "min (ls ! t' ! i) (?F ! i) \<le> ls ! t ! i"
        using le by (rule min.coboundedI1)
      moreover have "?ls' ! t ! i = ls ! t ! i"
        unfolding l1 using False by (rule if_not_P)
      ultimately show ?thesis
        using le unfolding l2 by (cases "trip \<le> t' \<and> t' < ?E") simp_all
    qed
  qed
  ultimately show ?thesis
    using len by (simp add: labels_inv_def)
qed

lemma update_index_inv:
  assumes "index_inv st" "update pf st trip p round = Inr st'"
  shows "index_inv st'"
proof -
  note args = update_Inr_args [OF assms(2)]
  have "st' = st\<lparr>labels := apply_filter (update_filter p round) trip
                                 (routeEnd (data st) trip) (labels st)\<rparr>"
    using update_full_scan [OF assms(1) args, of pf p] assms(2) by simp
  moreover have "labels_inv (data st) (apply_filter (update_filter p round) trip
                                 (routeEnd (data st) trip) (labels st))"
    using assms(1) args less_imp_le [OF args(3)]
    by (intro labels_inv_apply_filter) (simp_all add: index_inv_def)
  ultimately show ?thesis
    using assms(1) by (simp add: index_inv_def)
qed

lemma full_scan_lane:
  assumes "lanes16 ls" "t < length ls" "i < 16" "0 < round"
  shows "apply_filter (update_filter p round) lo hi ls ! t ! i =
         (if lo \<le> t \<and> t < hi \<and> unat round - 1 \<le> i then min (ls ! t ! i) p else ls ! t ! i)"
  using assms lanes16_D [OF assms(1,2)]
  by (auto simp: nth_apply_filter nth_simd_min_u8 nth_update_filter)

lemma index_inv_labels:
  assumes "index_inv st"
  shows "wf_timetable (data st)" "length (labels st) = numberOfTrips (data st)"
    "lanes16 (labels st)" "labels_inv (data st) (labels st)"
  using assms by (simp_all add: index_inv_def labels_inv_def)

lemma getPosition_lane:
  assumes "index_inv st" "isTrip (data st) t" "0 < round" "round < 16"
  shows "getPosition st t round = Some (labels st ! t ! (unat round - 1))"
  using getPosition_Some index_inv_labels [OF assms(1)] assms(2-4)
  by (simp add: isTrip_def less_imp_le)

lemma update_valid_result:
  assumes "index_inv st" "update pf st trip p round = Inr st'"
  shows "isTrip (data st) trip" "0 < round" "round < 16"
    and "st' = st\<lparr>labels := apply_filter (update_filter p round) trip
                                 (routeEnd (data st) trip) (labels st)\<rparr>"
  using update_Inr_args [OF assms(2)] update_full_scan [OF assms(1) update_Inr_args [OF assms(2)], of pf p]
    assms(2) by simp_all

text \<open>
  C3. Forward propagation: after a successful \<open>update(trip, p, round)\<close> on an index
  satisfying the invariant, \<open>alreadyReached(trip, p, r')\<close> holds for every queryable
  round \<open>r' \<ge> round\<close>.
\<close>

theorem update_propagates_forward:
  assumes "index_inv st" "update pf st trip p round = Inr st'" "round \<le> r'" "r' < 16"
  shows "alreadyReached st' trip p r' = Inr True"
proof -
  note v = update_valid_result [OF assms(1,2)]
  have inv': "index_inv st'"
    using update_index_inv [OF assms(1,2)] .
  have r'0: "0 < r'"
    using v(2) assms(3) by simp
  have trip': "isTrip (data st') trip"
    using v(1,4) by simp
  have E: "trip < routeEnd (data st) trip"
    using wf_trip_facts(1) [OF index_inv_labels(1) [OF assms(1)] v(1)] .
  have k: "unat round - 1 \<le> unat r' - 1"
    using assms(3) by (simp add: word_le_nat_alt)
  have tl: "trip < length (labels st)"
    using v(1) index_inv_labels(2) [OF assms(1)] by (simp add: isTrip_def)
  have "labels st' ! trip ! (unat r' - 1) = min (labels st ! trip ! (unat r' - 1)) p"
    using full_scan_lane [OF index_inv_labels(3) [OF assms(1)] tl round_index(3) [OF r'0] v(2)]
      E k v(4) assms(4) by (simp add: less_imp_le)
  then show ?thesis
    using getPosition_lane [OF inv' trip' r'0 assms(4)] trip' r'0 assms(4)
    by (simp add: alreadyReached_def)
qed

lemma getPosition_None:
  assumes "lanes16 (labels st)" "\<not> (t < length (labels st) \<and> 0 < round \<and> round \<le> 16)"
  shows "getPosition st t round = None"
proof -
  have u: "uint round = int (unat round)"
    by (rule uint_nat)
  have a: "(0 < round) = (0 < unat round)" and b: "(round \<le> 16) = (unat round \<le> 16)"
    by (simp_all add: word_less_nat_alt word_le_nat_alt)
  have "\<not> (t < length (labels st) \<and> 0 \<le> int (unat round) - 1 \<and> nat (int (unat round) - 1) < 16)"
    using assms(2) unfolding a b by arith
  then show ?thesis
    using lanes16_D [OF assms(1), of t] unfolding getPosition_def Let_def u by auto
qed

text \<open>
  C4. Frame of \<open>update\<close>: a stored position that the update changes belongs to a trip
  of the range \<open>[trip, routeEnd)\<close> of the updated trip's route and to a round
  \<open>\<ge> round\<close>; earlier rounds and other routes are left exactly as they were.
\<close>

theorem update_frame:
  assumes "index_inv st" "update pf st trip p round = Inr st'"
    and "getPosition st' t r' \<noteq> getPosition st t r'"
  shows "trip \<le> t \<and> t < routeEnd (data st) trip \<and> round \<le> r'"
proof -
  note v = update_valid_result [OF assms(1,2)]
  let ?ls = "labels st"
  have len: "length (labels st') = length ?ls"
    using v(4) by simp
  show ?thesis
  proof (rule ccontr)
    assume out: "\<not> (trip \<le> t \<and> t < routeEnd (data st) trip \<and> round \<le> r')"
    have "getPosition st' t r' = getPosition st t r'"
    proof (cases "t < length ?ls \<and> 0 < r' \<and> r' \<le> 16")
      case True
      then have tl: "t < length ?ls" and r: "0 < r'" "r' \<le> 16" by simp_all
      have "\<not> (trip \<le> t \<and> t < routeEnd (data st) trip \<and> unat round - 1 \<le> unat r' - 1)"
        using out v(2) r(1) by (auto simp: word_le_nat_alt word_less_nat_alt)
      then have "apply_filter (update_filter p round) trip (routeEnd (data st) trip) ?ls ! t !
                   (unat r' - 1) = ?ls ! t ! (unat r' - 1)"
        unfolding full_scan_lane [OF index_inv_labels(3) [OF assms(1)] tl round_index(3) [OF r] v(2)]
        by (rule if_not_P)
      then have "labels st' ! t ! (unat r' - 1) = ?ls ! t ! (unat r' - 1)"
        using v(4) by simp
      moreover have "lanes16 (labels st')"
        using index_inv_labels(3) [OF update_index_inv [OF assms(1,2)]] .
      ultimately show ?thesis
        using getPosition_Some [OF tl index_inv_labels(3) [OF assms(1)] r]
          getPosition_Some [of t st' r'] tl len r by simp
    next
      case False
      then have "getPosition st t r' = None" "getPosition st' t r' = None"
        using getPosition_None [OF index_inv_labels(3) [OF assms(1)]]
          getPosition_None [OF index_inv_labels(3) [OF update_index_inv [OF assms(1,2)]]] len
        by simp_all
      then show ?thesis by simp
    qed
    with assms(3) show False by simp
  qed
qed

lemma update_labels_le:
  assumes "index_inv st" "update pf st trip p round = Inr st'"
    and "t < length (labels st)" "i < 16"
  shows "labels st' ! t ! i \<le> labels st ! t ! i"
proof -
  note v = update_valid_result [OF assms(1,2)]
  show ?thesis
    using full_scan_lane [OF index_inv_labels(3) [OF assms(1)] assms(3,4) v(2)] v(4)
    by simp
qed

text \<open>
  C5. Monotone relaxation: \<open>update\<close> never increases a stored position.
\<close>

theorem update_never_increases:
  assumes "index_inv st" "update pf st trip p round = Inr st'"
    and "t < length (labels st)" "i < 16"
  shows "labels st' ! t ! i \<le> labels st ! t ! i"
  using update_labels_le [OF assms] .

lemma word_round_cases:
  "(0 < round) = (round \<noteq> (0::u8))" "(\<not> round < 16) = ((16::u8) \<le> round)"
  by (simp_all add: word_neq_0_conv not_less)

lemma alreadyReached_result:
  assumes "index_inv st"
  shows "alreadyReached st trip p round =
    (if \<not> isTrip (data st) trip then Inl NotATrip
     else if round = 0 then Inl RoundZero
     else if 16 \<le> round then Inl RoundTooLarge
     else Inr (labels st ! trip ! (unat round - 1) \<le> p))"
proof (cases "isTrip (data st) trip \<and> 0 < round \<and> round < 16")
  case True
  moreover have "\<not> 16 \<le> round"
    using True by (simp add: not_le)
  ultimately show ?thesis
    using getPosition_lane [OF assms] by (simp add: alreadyReached_def word_round_cases(1))
next
  case False
  then show ?thesis
    by (auto simp: alreadyReached_def word_round_cases)
qed

subsection \<open>Properties of the reachability index\<close>

text \<open>
  C1. Early-exit equivalence: on a state satisfying the index invariant, \<open>update\<close>
  with valid arguments stores exactly what applying the lane-wise minimum with the
  filter to every trip from \<open>trip\<close> to the end of its route would store, wherever the
  scan actually stops, on either platform.
\<close>

theorem update_eq_full_scan:
  assumes "index_inv st" "isTrip (data st) trip" "0 < round" "round < 16"
  shows "update pf st trip p round =
         Inr (st\<lparr>labels := apply_filter (update_filter p round) trip
                                 (routeEnd (data st) trip) (labels st)\<rparr>)"
  using update_full_scan [OF assms] .

theorem update_eq_full_scan_witness:
  "index_inv example_index \<and> isTrip (data example_index) 0 \<and> (0::u8) < 1 \<and> (1::u8) < 16 \<and>
   update Sse2 example_index 0 2 1 =
   Inr (example_index\<lparr>labels := apply_filter (update_filter 2 1) 0
                                  (routeEnd (data example_index) 0) (labels example_index)\<rparr>)"
proof -
  have h: "index_inv example_index" and t: "isTrip (data example_index) 0"
    by code_simp+
  have r: "(0::u8) < 1" "(1::u8) < 16"
    by simp_all
  show ?thesis
    using h t r update_eq_full_scan [OF h t r, where pf = Sse2 and p = 2] by blast
qed

text \<open>
  C2. Every successful \<open>update\<close> keeps the index invariant: registers of sixteen lanes,
  positions non-increasing over the rounds of a trip and over the trips of a route.
\<close>

theorem update_preserves_index_inv:
  assumes "index_inv st" "update pf st trip p round = Inr st'"
  shows "index_inv st'"
  using update_index_inv [OF assms] .

text \<open>The state after recording position 2 at round 1 for trip 0 of the example.\<close>

theorem example_update_result:
  "update Neon example_index 0 2 1 =
   Inr (example_index\<lparr>labels := [replicate 16 2, replicate 16 2, replicate 16 2,
                                  replicate 16 7, replicate 16 7]\<rparr>)"
  by code_simp

theorem update_preserves_index_inv_witness:
  "index_inv example_index \<and>
   update Neon example_index 0 2 1 =
     Inr (example_index\<lparr>labels := [replicate 16 2, replicate 16 2, replicate 16 2,
                                    replicate 16 7, replicate 16 7]\<rparr>) \<and>
   index_inv (example_index\<lparr>labels := [replicate 16 2, replicate 16 2, replicate 16 2,
                                        replicate 16 7, replicate 16 7]\<rparr>)"
proof -
  have h: "index_inv example_index"
    by code_simp
  show ?thesis
    using h example_update_result update_preserves_index_inv [OF h example_update_result] by blast
qed

theorem update_propagates_forward_witness:
  "index_inv example_index \<and>
   update Neon example_index 0 2 1 =
     Inr (example_index\<lparr>labels := [replicate 16 2, replicate 16 2, replicate 16 2,
                                    replicate 16 7, replicate 16 7]\<rparr>) \<and>
   (1::u8) \<le> 5 \<and> (5::u8) < 16 \<and>
   alreadyReached (example_index\<lparr>labels := [replicate 16 2, replicate 16 2, replicate 16 2,
                                            replicate 16 7, replicate 16 7]\<rparr>) 0 2 5 = Inr True"
proof -
  have h: "index_inv example_index"
    by code_simp
  have r: "(1::u8) \<le> 5" "(5::u8) < 16"
    by simp_all
  show ?thesis
    using h example_update_result r update_propagates_forward [OF h example_update_result r]
    by blast
qed

theorem update_frame_witness:
  "index_inv example_index \<and>
   update Neon example_index 0 2 1 =
     Inr (example_index\<lparr>labels := [replicate 16 2, replicate 16 2, replicate 16 2,
                                    replicate 16 7, replicate 16 7]\<rparr>) \<and>
   getPosition (example_index\<lparr>labels := [replicate 16 2, replicate 16 2, replicate 16 2,
                                         replicate 16 7, replicate 16 7]\<rparr>) 1 1
     \<noteq> getPosition example_index 1 1 \<and>
   0 \<le> (1::nat) \<and> 1 < routeEnd (data example_index) 0 \<and> (1::u8) \<le> 1"
proof -
  have h: "index_inv example_index"
    by code_simp
  have c: "getPosition (example_index\<lparr>labels := [replicate 16 2, replicate 16 2, replicate 16 2,
                                         replicate 16 7, replicate 16 7]\<rparr>) 1 1
             \<noteq> getPosition example_index 1 1"
    by code_simp
  show ?thesis
    using h example_update_result c update_frame [OF h example_update_result c] by blast
qed

theorem update_never_increases_witness:
  "index_inv example_index \<and>
   update Neon example_index 0 2 1 =
     Inr (example_index\<lparr>labels := [replicate 16 2, replicate 16 2, replicate 16 2,
                                    replicate 16 7, replicate 16 7]\<rparr>) \<and>
   3 < length (labels example_index) \<and> (15::nat) < 16 \<and>
   [replicate 16 2, replicate 16 2, replicate 16 2, replicate 16 7, replicate 16 (7::u8)] ! 3 ! 15
     \<le> labels example_index ! 3 ! 15"
proof -
  have h: "index_inv example_index"
    by code_simp
  have l: "3 < length (labels example_index)"
    by code_simp
  have i: "(15::nat) < 16"
    by simp
  show ?thesis
    using h example_update_result l i update_never_increases [OF h example_update_result l i]
    by simp
qed

end
