(* ===== verification/IndexLifecycle.thy ===== *)
theory IndexLifecycle
  imports ReachedIndex
begin

text \<open>
  The lifecycle of a \<open>ProfileReachedIndexSIMD\<close> as the outer search uses it (spec,
  section 3): it is constructed for a timetable, cleared before each query, and then
  receives interleaved \<open>alreadyReached\<close> queries and \<open>update\<close> calls; \<open>clear()\<close>
  starts the next query. The operations form a datatype, one step runs one of them,
  and the states reachable from a cleared fresh index are an inductive set. Against it
  stands an abstract specification: a map from (trip, round) to the best position, as
  a natural number, with the specification's update and clear.
\<close>

datatype index_op = Clear | Update nat u8 u8 | Query nat u8 u8

fun index_step :: "platform \<Rightarrow> reached_index \<Rightarrow> index_op \<Rightarrow> reach_error + reached_index" where
  "index_step pf st Clear = Inr (clear st)"
| "index_step pf st (Update trip position round) = update pf st trip position round"
| "index_step pf st (Query trip position round) =
     (case alreadyReached st trip position round of Inl e \<Rightarrow> Inl e | Inr _ \<Rightarrow> Inr st)"

text \<open>A sequence of calls; the first failing call ends it, as a failed assertion would.\<close>

fun index_run :: "platform \<Rightarrow> reached_index \<Rightarrow> index_op list \<Rightarrow> reach_error + reached_index" where
  "index_run pf st [] = Inr st"
| "index_run pf st (op # ops) =
     (case index_step pf st op of Inl e \<Rightarrow> Inl e | Inr st' \<Rightarrow> index_run pf st' ops)"

inductive reachable :: "platform \<Rightarrow> reached_index \<Rightarrow> bool" for pf where
  construct: "wf_timetable d \<Longrightarrow> reachable pf (clear (ProfileReachedIndexSIMD d uninit))"
| step: "reachable pf st \<Longrightarrow> index_step pf st op = Inr st' \<Longrightarrow> reachable pf st'"

subsection \<open>Abstract specification\<close>

type_synonym abs_index = "nat \<Rightarrow> nat \<Rightarrow> nat"

text \<open>The stored positions read as natural numbers: trip \<open>t\<close>, round \<open>r\<close> in \<open>1..16\<close>.\<close>

definition abs_of :: "reached_index \<Rightarrow> abs_index" where
  "abs_of st t r = unat (labels st ! t ! (r - 1))"

text \<open>
  The specification's operations: after \<open>clear()\<close> every position is the trip's stop
  count; \<open>update(trip, p, round)\<close> lowers to \<open>p\<close> every position of the trips of
  \<open>[trip, end of route)\<close> at the rounds \<open>\<ge> round\<close>; a query changes nothing.
\<close>

definition abs_clear :: "timetable \<Rightarrow> abs_index" where
  "abs_clear d t r = numberOfStopsInTrip d t"

definition abs_update :: "timetable \<Rightarrow> abs_index \<Rightarrow> nat \<Rightarrow> nat \<Rightarrow> nat \<Rightarrow> abs_index" where
  "abs_update d A trip p round t r =
     (if trip \<le> t \<and> t < routeEnd d trip \<and> round \<le> r then min (A t r) p else A t r)"

fun abs_step :: "timetable \<Rightarrow> abs_index \<Rightarrow> index_op \<Rightarrow> abs_index" where
  "abs_step d A Clear = abs_clear d"
| "abs_step d A (Update trip p round) = abs_update d A trip (unat p) (unat round)"
| "abs_step d A (Query trip p round) = A"

text \<open>Two abstract indexes agree on the trips of \<open>d\<close> and the rounds \<open>1..16\<close>.\<close>

definition agree_on :: "timetable \<Rightarrow> abs_index \<Rightarrow> abs_index \<Rightarrow> bool" where
  "agree_on d A B \<longleftrightarrow> (\<forall>t < numberOfTrips d. \<forall>r \<in> {1..16}. A t r = B t r)"

text \<open>Every trip has fewer than 256 stops, so that its stop count fits in a byte.\<close>

definition stops_fit_byte :: "timetable \<Rightarrow> bool" where
  "stops_fit_byte d \<longleftrightarrow> (\<forall>t < numberOfTrips d. numberOfStopsInTrip d t < 256)"

text \<open>A timetable with a single trip of 256 stops.\<close>

definition long_trip_timetable :: timetable where
  "long_trip_timetable = \<lparr>stopsOfTrip = [256], routeOfTrip = [0], firstTripOfRoute = [0, 1]\<rparr>"

text \<open>
  The arguments an operation's assertions accept: a trip of the timetable and a round in
  \<open>1..15\<close> (\<open>clear()\<close> has no precondition).
\<close>

fun valid_op :: "timetable \<Rightarrow> index_op \<Rightarrow> bool" where
  "valid_op d Clear = True"
| "valid_op d (Update trip position round) = (isTrip d trip \<and> 0 < round \<and> round < 16)"
| "valid_op d (Query trip position round) = (isTrip d trip \<and> 0 < round \<and> round < 16)"

subsection \<open>Invariant of the reachable states\<close>

lemma defaultLabels_constructor:
  "defaultLabels (ProfileReachedIndexSIMD d uninit) =
   map (\<lambda>t. replicate 16 (of_nat (numberOfStopsInTrip d t))) [0..<numberOfTrips d]"
  by (simp add: ProfileReachedIndexSIMD_def)

lemma template_lane:
  "t < numberOfTrips d \<Longrightarrow> i < 16 \<Longrightarrow>
   defaultLabels (ProfileReachedIndexSIMD d uninit) ! t ! i = of_nat (numberOfStopsInTrip d t)"
  by (simp add: defaultLabels_constructor)

lemma template_inv:
  assumes wf: "wf_timetable d"
  shows "labels_inv d (defaultLabels (ProfileReachedIndexSIMD d uninit))"
    (is "labels_inv d ?D")
proof -
  have len: "length ?D = numberOfTrips d"
    by (simp add: defaultLabels_constructor)
  have "lanes16 ?D"
    by (simp add: lanes16_def defaultLabels_constructor)
  moreover have "round_monotone ?D"
    unfolding round_monotone_def
  proof (intro allI impI)
    fix t i
    assume "t < length ?D" "i < (15::nat)"
    then show "?D ! t ! Suc i \<le> ?D ! t ! i"
      using len template_lane [of t d "Suc i"] template_lane [of t d i] by simp
  qed
  moreover have "route_monotone d ?D"
    unfolding route_monotone_def
  proof (intro allI impI ballI)
    fix t t' i
    assume t: "t < length ?D" and t': "t' \<in> {t..<routeEnd d t}" and i: "i < (16::nat)"
    have tt: "isTrip d t"
      using t len by (simp add: isTrip_def)
    from t' have tt': "t \<le> t'" "t' < routeEnd d t"
      by simp_all
    have "numberOfStopsInTrip d t' = numberOfStopsInTrip d t" "isTrip d t'"
      using wf_same_route(2,3) [OF wf tt tt'] by simp_all
    then show "?D ! t' ! i \<le> ?D ! t ! i"
      using tt i template_lane [of t d i] template_lane [of t' d i] by (simp add: isTrip_def)
  qed
  ultimately show ?thesis
    using len by (simp add: labels_inv_def)
qed

lemma cleared_index_inv:
  "wf_timetable d \<Longrightarrow> index_inv (clear (ProfileReachedIndexSIMD d uninit))"
  using template_inv [of d uninit]
  by (simp add: index_inv_def clear_def ProfileReachedIndexSIMD_def)

lemma index_step_frame:
  assumes "index_inv st" "index_step pf st op = Inr st'"
  shows "index_inv st'" "data st' = data st" "defaultLabels st' = defaultLabels st"
proof -
  have "index_inv st' \<and> data st' = data st \<and> defaultLabels st' = defaultLabels st"
  proof (cases op)
    case Clear
    then show ?thesis
      using assms by (auto simp: clear_def index_inv_def)
  next
    case (Update trip p round)
    then have u: "update pf st trip p round = Inr st'"
      using assms(2) by simp
    show ?thesis
      using update_index_inv [OF assms(1) u] update_valid_result(4) [OF assms(1) u] by simp
  next
    case (Query trip p round)
    then show ?thesis
      using assms by (auto split: sum.splits)
  qed
  then show "index_inv st'" "data st' = data st" "defaultLabels st' = defaultLabels st"
    by simp_all
qed

lemma reachable_lifecycle_inv:
  assumes "reachable pf st"
  shows "index_inv st \<and> defaultLabels st = defaultLabels (ProfileReachedIndexSIMD (data st) [])"
  using assms
proof (induction rule: reachable.induct)
  case (construct d uninit)
  then show ?case
    using cleared_index_inv by (simp add: clear_def ProfileReachedIndexSIMD_def)
next
  case (step st op st')
  then show ?case
    using index_step_frame [of st pf op st'] by simp
qed

lemma reachable_template:
  assumes "reachable pf st" "t < numberOfTrips (data st)" "i < 16"
  shows "defaultLabels st ! t ! i = of_nat (numberOfStopsInTrip (data st) t)"
  using reachable_lifecycle_inv [OF assms(1)] template_lane [OF assms(2,3)] by simp

lemma refine_step:
  assumes reach: "reachable pf st" and fit: "stops_fit_byte (data st)"
    and stp: "index_step pf st op = Inr st'"
  shows "agree_on (data st) (abs_of st') (abs_step (data st) (abs_of st) op)"
  unfolding agree_on_def
proof (intro allI impI ballI)
  fix t r
  assume t: "t < numberOfTrips (data st)" and r: "r \<in> {1..16::nat}"
  have inv: "index_inv st"
    using reachable_lifecycle_inv [OF reach] by simp
  have tl: "t < length (labels st)"
    using t index_inv_labels(2) [OF inv] by simp
  have ri: "r - 1 < 16"
    using r by auto
  show "abs_of st' t r = abs_step (data st) (abs_of st) op t r"
  proof (cases op)
    case Clear
    then have "st' = clear st"
      using stp by simp
    moreover have "numberOfStopsInTrip (data st) t < 256"
      using fit t by (simp add: stops_fit_byte_def)
    ultimately show ?thesis
      using Clear reachable_template [OF reach t ri]
      by (simp add: abs_of_def abs_clear_def clear_def unat_of_nat_u8)
  next
    case (Update trip p round)
    then have u: "update pf st trip p round = Inr st'"
      using stp by simp
    note v = update_valid_result [OF inv u]
    have k: "(unat round - 1 \<le> r - 1) = (unat round \<le> r)"
      using r v(2) by (auto simp: word_less_nat_alt)
    have "labels st' ! t ! (r - 1) =
          (if trip \<le> t \<and> t < routeEnd (data st) trip \<and> unat round - 1 \<le> r - 1
           then min (labels st ! t ! (r - 1)) p else labels st ! t ! (r - 1))"
      using full_scan_lane [OF index_inv_labels(3) [OF inv] tl ri v(2)] v(4) by simp
    then show ?thesis
      using Update k by (simp add: abs_of_def abs_update_def unat_min_word)
  next
    case (Query trip p round)
    then have "st' = st"
      using stp by (simp split: sum.splits)
    then show ?thesis
      using Query by simp
  qed
qed

lemma cleared_alreadyReached:
  assumes "wf_timetable d" "isTrip d t" "0 < round" "round < 16"
  shows "alreadyReached (clear (ProfileReachedIndexSIMD d uninit)) t p round =
         Inr (numberOfStopsInTrip d t mod 256 \<le> unat p)"
proof -
  have inv: "index_inv (clear (ProfileReachedIndexSIMD d uninit))"
    using cleared_index_inv [OF assms(1)] .
  have lane: "labels (clear (ProfileReachedIndexSIMD d uninit)) ! t ! (unat round - 1) =
              of_nat (numberOfStopsInTrip d t)"
    using template_lane [of t d "unat round - 1" uninit] assms(2) round_index(3) [OF assms(3)]
      less_imp_le [OF assms(4)] by (simp add: clear_def isTrip_def)
  have "\<not> 16 \<le> round"
    using assms(4) by (simp add: not_le)
  then show ?thesis
    using alreadyReached_result [OF inv, of t p round] assms(2,3) lane
    by (simp add: clear_def ProfileReachedIndexSIMD_def word_le_nat_alt unat_of_nat_u8
        word_round_cases(1))
qed

lemma cleared_data [simp]: "data (clear (ProfileReachedIndexSIMD d uninit)) = d"
  by (simp add: clear_def ProfileReachedIndexSIMD_def)

lemma cleared_lane:
  assumes "isTrip d t" "i < 16"
  shows "labels (clear (ProfileReachedIndexSIMD d uninit)) ! t ! i = of_nat (numberOfStopsInTrip d t)"
  using template_lane [of t d i uninit] assms by (simp add: clear_def isTrip_def)

lemma run_labels_le:
  assumes "reachable pf st" "Clear \<notin> set ops" "index_run pf st ops = Inr st'"
    "t < length (labels st)" "i < 16"
  shows "labels st' ! t ! i \<le> labels st ! t ! i"
  using assms
proof (induction ops arbitrary: st)
  case Nil
  then show ?case by simp
next
  case (Cons op ops)
  obtain s1 where s1: "index_step pf st op = Inr s1" "index_run pf s1 ops = Inr st'"
    using Cons.prems(3) by (auto split: sum.splits)
  have inv: "index_inv st"
    using reachable_lifecycle_inv [OF Cons.prems(1)] by simp
  have r1: "reachable pf s1"
    using reachable.step [OF Cons.prems(1) s1(1)] .
  have inv1: "index_inv s1"
    using index_step_frame(1) [OF inv s1(1)] .
  have len: "length (labels s1) = length (labels st)"
    using index_inv_labels(2) [OF inv] index_inv_labels(2) [OF inv1]
      index_step_frame(2) [OF inv s1(1)] by simp
  have "labels st' ! t ! i \<le> labels s1 ! t ! i"
    using Cons.IH [OF r1 _ s1(2)] Cons.prems(2,4,5) len by simp
  moreover have "labels s1 ! t ! i \<le> labels st ! t ! i"
  proof (cases op)
    case Clear
    with Cons.prems(2) show ?thesis by simp
  next
    case (Update trip p round)
    then show ?thesis
      using update_labels_le [OF inv _ Cons.prems(4,5)] s1(1) by simp
  next
    case (Query trip p round)
    then show ?thesis
      using s1(1) by (simp split: sum.splits)
  qed
  ultimately show ?case
    by simp
qed

lemma clear_forgets:
  assumes "reachable pf st"
  shows "clear st = clear (ProfileReachedIndexSIMD (data st) uninit)"
  using reachable_lifecycle_inv [OF assms]
  by (cases st) (simp add: clear_def ProfileReachedIndexSIMD_def)


lemma step_progress:
  assumes "index_inv st" "valid_op (data st) op"
  shows "\<exists>st'. index_step pf st op = Inr st'"
proof (cases op)
  case (Update trip p round)
  then show ?thesis
    using assms update_full_scan [OF assms(1), of trip round pf p] by auto
next
  case (Query trip p round)
  then show ?thesis
    using assms alreadyReached_result [OF assms(1), of trip p round]
    by (auto simp: word_neq_0_conv not_le)
qed simp

lemma example_index_reachable: "reachable pf example_index"
proof -
  have "wf_timetable example_timetable"
    by code_simp
  then show ?thesis
    unfolding example_index_def by (rule reachable.construct)
qed

subsection \<open>Properties of the lifecycle\<close>

lemma update_twice:
  assumes "index_inv st" "isTrip (data st) t1" "0 < r1" "r1 < 16"
    "isTrip (data st) t2" "0 < r2" "r2 < 16"
  shows "index_run pf st [Update t1 p1 r1, Update t2 p2 r2] =
         Inr (st\<lparr>labels := apply_filter (update_filter p2 r2) t2 (routeEnd (data st) t2)
                  (apply_filter (update_filter p1 r1) t1 (routeEnd (data st) t1) (labels st))\<rparr>)"
proof -
  let ?s1 = "st\<lparr>labels := apply_filter (update_filter p1 r1) t1 (routeEnd (data st) t1) (labels st)\<rparr>"
  have u1: "update pf st t1 p1 r1 = Inr ?s1"
    using update_full_scan [OF assms(1-4)] .
  have i1: "index_inv ?s1"
    using update_index_inv [OF assms(1) u1] .
  have u2: "update pf ?s1 t2 p2 r2 =
            Inr (?s1\<lparr>labels := apply_filter (update_filter p2 r2) t2 (routeEnd (data st) t2) (labels ?s1)\<rparr>)"
    using update_full_scan [OF i1 _ assms(6,7)] assms(5) by simp
  show ?thesis
    using u1 u2 by simp
qed

text \<open>
  C9. Every state reachable from a cleared fresh index by \<open>clear\<close>, \<open>update\<close> and
  \<open>alreadyReached\<close> calls satisfies the index invariant (rule induction over the
  reachable states).
\<close>

theorem reachable_index_inv:
  assumes "reachable pf st"
  shows "index_inv st"
  using reachable_lifecycle_inv [OF assms] by simp

theorem reachable_index_inv_witness:
  "reachable Sse2 example_index \<and> index_inv example_index"
  using example_index_reachable reachable_index_inv [OF example_index_reachable] by blast

text \<open>
  C10. Refinement: on a reachable index whose trips have fewer than 256 stops, every
  successful call changes the stored positions exactly as the abstract specification's
  operation changes the abstract index (\<open>clear\<close> to the stop counts, \<open>update\<close> to the
  minimum with \<open>p\<close> on \<open>[trip, routeEnd) \<times> [round, 16]\<close>, queries to nothing).
\<close>

theorem index_step_refines:
  assumes "reachable pf st" "stops_fit_byte (data st)" "index_step pf st op = Inr st'"
  shows "agree_on (data st) (abs_of st') (abs_step (data st) (abs_of st) op)"
  using refine_step [OF assms] .

theorem index_step_refines_witness:
  "reachable Neon example_index \<and> stops_fit_byte (data example_index) \<and>
   index_step Neon example_index (Update 0 2 1) =
     Inr (example_index\<lparr>labels := [replicate 16 2, replicate 16 2, replicate 16 2,
                                    replicate 16 7, replicate 16 7]\<rparr>) \<and>
   agree_on (data example_index)
     (abs_of (example_index\<lparr>labels := [replicate 16 2, replicate 16 2, replicate 16 2,
                                       replicate 16 7, replicate 16 7]\<rparr>))
     (abs_step (data example_index) (abs_of example_index) (Update 0 2 1))"
proof -
  have f: "stops_fit_byte (data example_index)"
    by code_simp
  have u: "index_step Neon example_index (Update 0 2 1) =
     Inr (example_index\<lparr>labels := [replicate 16 2, replicate 16 2, replicate 16 2,
                                    replicate 16 7, replicate 16 7]\<rparr>)"
    by code_simp
  show ?thesis
    using example_index_reachable f u index_step_refines [OF example_index_reachable f u] by blast
qed

text \<open>
  C11. Right after \<open>clear()\<close> a query at a valid trip and round answers whether the
  trip's stop count, as the byte the template stores (modulo 256), is at most the
  queried position. The sentinel therefore wraps: for a trip of 256 stops the template
  byte is 0, and position 0 reads as already reached although nothing was recorded.
\<close>

theorem clear_alreadyReached:
  assumes "wf_timetable d" "isTrip d t" "0 < round" "round < 16"
  shows "alreadyReached (clear (ProfileReachedIndexSIMD d uninit)) t p round =
         Inr (numberOfStopsInTrip d t mod 256 \<le> unat p)"
  using cleared_alreadyReached [OF assms] .

theorem clear_alreadyReached_witness:
  "wf_timetable long_trip_timetable \<and> isTrip long_trip_timetable 0 \<and> (0::u8) < 1 \<and> (1::u8) < 16 \<and>
   numberOfStopsInTrip long_trip_timetable 0 = 256 \<and>
   alreadyReached (clear (ProfileReachedIndexSIMD long_trip_timetable [])) 0 0 1 = Inr True"
proof -
  have h: "wf_timetable long_trip_timetable" "isTrip long_trip_timetable 0"
    by code_simp+
  have r: "(0::u8) < 1" "(1::u8) < 16"
    by simp_all
  have n: "numberOfStopsInTrip long_trip_timetable 0 = 256"
    by code_simp
  then show ?thesis
    using h r clear_alreadyReached [OF h r, of "[]" 0] by simp
qed

text \<open>
  C13. Monotonicity across a query: along any sequence of \<open>update\<close> and
  \<open>alreadyReached\<close> calls without \<open>clear\<close>, no stored position ever increases.
\<close>

theorem run_never_increases:
  assumes "reachable pf st" "Clear \<notin> set ops" "index_run pf st ops = Inr st'"
    "t < length (labels st)" "i < 16"
  shows "labels st' ! t ! i \<le> labels st ! t ! i"
  using run_labels_le [OF assms] .

theorem run_never_increases_witness:
  "reachable Neon example_index \<and> Clear \<notin> set [Update 3 6 2, Query 4 6 1, Update 0 2 1] \<and>
   index_run Neon example_index [Update 3 6 2, Query 4 6 1, Update 0 2 1] =
     Inr (example_index\<lparr>labels := [replicate 16 2, replicate 16 2, replicate 16 2,
                                    7 # replicate 15 6, 7 # replicate 15 6]\<rparr>) \<and>
   3 < length (labels example_index) \<and> (0::nat) < 16 \<and>
   (7 # replicate 15 (6::u8)) ! 0 \<le> labels example_index ! 3 ! 0"
proof -
  have c: "Clear \<notin> set [Update 3 6 2, Query 4 6 1, Update 0 2 1]"
    by simp
  have r: "index_run Neon example_index [Update 3 6 2, Query 4 6 1, Update 0 2 1] =
     Inr (example_index\<lparr>labels := [replicate 16 2, replicate 16 2, replicate 16 2,
                                    7 # replicate 15 6, 7 # replicate 15 6]\<rparr>)"
    by code_simp
  have l: "3 < length (labels example_index)"
    by code_simp
  have i: "(0::nat) < 16"
    by simp
  show ?thesis
    using example_index_reachable c r l i
      run_never_increases [OF example_index_reachable c r l i] by simp
qed

text \<open>
  C14. \<open>clear()\<close> forgets the whole history: on a reachable index it gives the same
  state as clearing a freshly constructed index for the same timetable, whatever the
  uninitialised contents, and clearing twice is clearing once.
\<close>

theorem clear_resets:
  assumes "reachable pf st"
  shows "clear st = clear (ProfileReachedIndexSIMD (data st) uninit) \<and> clear (clear st) = clear st"
  using clear_forgets [OF assms] by (simp add: clear_def)

theorem clear_resets_witness:
  "reachable Neon example_index \<and>
   clear example_index = clear (ProfileReachedIndexSIMD (data example_index) [[1]]) \<and>
   clear (clear example_index) = clear example_index"
  using example_index_reachable clear_resets [OF example_index_reachable, of "[[1]]"] by blast

text \<open>
  C32. Interleaving: two valid updates on an index satisfying the invariant both
  succeed and commute, in any pair of trips, positions and rounds; the final labels do
  not depend on the order the search relaxes them in.
\<close>

theorem updates_commute:
  assumes "index_inv st" "isTrip (data st) t1" "0 < r1" "r1 < 16"
    "isTrip (data st) t2" "0 < r2" "r2 < 16"
  shows "(\<exists>st'. index_run pf st [Update t1 p1 r1, Update t2 p2 r2] = Inr st') \<and>
         index_run pf st [Update t1 p1 r1, Update t2 p2 r2] =
         index_run pf st [Update t2 p2 r2, Update t1 p1 r1]"
  using update_twice [OF assms, of pf p1 p2] update_twice [OF assms(1,5-7,2-4), of pf p2 p1]
  by (simp add: apply_filter_swap)

theorem updates_commute_witness:
  "index_run Neon example_index [Update 0 2 1, Update 3 6 2] =
   index_run Neon example_index [Update 3 6 2, Update 0 2 1]"
proof -
  have h: "index_inv example_index" "isTrip (data example_index) 0" "isTrip (data example_index) 3"
    by code_simp+
  have r: "(0::u8) < 1" "(1::u8) < 16" "(0::u8) < 2" "(2::u8) < 16"
    by simp_all
  show ?thesis
    using updates_commute [OF h(1,2) r(1,2) h(3) r(3,4), of Neon 2 6] by blast
qed

text \<open>
  C33. Progress: from every reachable state, any sequence of operations whose arguments
  pass the assertions runs to completion (no assertion fires and no access leaves the
  vectors), and ends in a reachable state over the same timetable.
\<close>

theorem index_progress:
  "reachable pf st \<Longrightarrow> list_all (valid_op (data st)) ops \<Longrightarrow>
   \<exists>st'. index_run pf st ops = Inr st' \<and> reachable pf st' \<and> data st' = data st"
proof (induction ops arbitrary: st)
  case Nil
  then show ?case
    by simp
next
  case (Cons op ops)
  have inv: "index_inv st"
    using reachable_lifecycle_inv [OF Cons.prems(1)] by blast
  obtain st1 where s1: "index_step pf st op = Inr st1"
    using step_progress [OF inv, of op pf] Cons.prems(2) by auto
  have r1: "reachable pf st1" and d1: "data st1 = data st"
    using reachable.step [OF Cons.prems(1) s1] index_step_frame(2) [OF inv s1] by blast+
  obtain st' where "index_run pf st1 ops = Inr st' \<and> reachable pf st' \<and> data st' = data st1"
    using Cons.IH [OF r1] Cons.prems(2) d1 by auto
  then show ?case
    using s1 d1 by auto
qed

theorem index_progress_witness:
  "\<exists>st'. index_run Sse2 example_index [Update 0 2 1, Query 3 7 15, Clear, Update 4 1 3] = Inr st' \<and>
         reachable Sse2 st' \<and> data st' = example_timetable"
proof -
  have v: "list_all (valid_op (data example_index)) [Update 0 2 1, Query 3 7 15, Clear, Update 4 1 3]"
    by code_simp
  have "data example_index = example_timetable"
    by code_simp
  then show ?thesis
    using index_progress [OF example_index_reachable v] by simp
qed

end
