(* ===== verification/ScanLoop.thy ===== *)
theory ScanLoop
  imports ReachedIndex "HOL-Library.While_Combinator"
begin

text \<open>
  The \<open>for\<close> loop of \<open>update\<close> (\<open>src/unnamed/part_000\<close>, lines 158--164) written as the
  loop it is, with \<^const>\<open>while_option\<close> of the library: the state is the loop variable
  \<open>tr\<close> with the index, or the error of an access outside the vectors. The condition is
  \<open>tr < end && getPosition(tr, round) > position\<close>, the body
  \<open>labels[tr].mValues = simd_min_u8(labels[tr].mValues, FILTER); ++tr\<close>. The recursive
  \<^const>\<open>update_loop\<close> that \<^const>\<open>update\<close> uses is proved equal to it, and the loop is
  proved to terminate on every input.
\<close>

type_synonym scan_state = "reach_error + (nat \<times> reached_index)"

definition scan_cond :: "nat \<Rightarrow> u8 \<Rightarrow> u8 \<Rightarrow> scan_state \<Rightarrow> bool" where
  "scan_cond e round position s =
     (case s of
        Inl _ \<Rightarrow> False
      | Inr (tr, st) \<Rightarrow>
          tr < e \<and> (case getPosition st tr round of None \<Rightarrow> True | Some v \<Rightarrow> position < v))"

definition scan_body :: "u8 \<Rightarrow> simd128 \<Rightarrow> scan_state \<Rightarrow> scan_state" where
  "scan_body round FILTER s =
     (case s of
        Inl err \<Rightarrow> Inl err
      | Inr (tr, st) \<Rightarrow>
          (case getPosition st tr round of
             None \<Rightarrow> Inl OutOfBounds
           | Some _ \<Rightarrow> Inr (Suc tr, st\<lparr>labels := (labels st)[tr := simd_min_u8 (labels st ! tr) FILTER]\<rparr>)))"

definition scan_result :: "scan_state \<Rightarrow> reach_error + reached_index" where
  "scan_result s = (case s of Inl err \<Rightarrow> Inl err | Inr (_, st) \<Rightarrow> Inr st)"

definition update_for ::
  "nat \<Rightarrow> u8 \<Rightarrow> u8 \<Rightarrow> simd128 \<Rightarrow> nat \<Rightarrow> reached_index \<Rightarrow> (reach_error + reached_index) option" where
  "update_for e round position FILTER tr st =
     map_option scan_result
       (while_option (scan_cond e round position) (scan_body round FILTER) (Inr (tr, st)))"

subsection \<open>Termination and agreement with the recursive scan\<close>

definition scan_measure :: "nat \<Rightarrow> scan_state \<Rightarrow> nat" where
  "scan_measure e s = (case s of Inl _ \<Rightarrow> 0 | Inr (tr, _) \<Rightarrow> Suc (e - tr))"

lemma scan_body_decreases:
  "scan_cond e round position s \<Longrightarrow> scan_measure e (scan_body round FILTER s) < scan_measure e s"
  by (auto simp: scan_cond_def scan_body_def scan_measure_def split: sum.splits option.splits)

lemma scan_terminates:
  "\<exists>r. while_option (scan_cond e round position) (scan_body round FILTER) s = Some r"
  by (rule measure_while_option_Some [where P = "\<lambda>_. True" and f = "scan_measure e"])
    (simp_all add: scan_body_decreases)

lemma scan_stop_Inl:
  "while_option (scan_cond e round position) (scan_body round FILTER) (Inl err) = Some (Inl err)"
  by (subst while_option_unfold) (simp add: scan_cond_def)

lemma update_for_eq_loop:
  "update_for e round position FILTER tr st = Some (update_loop e round position FILTER tr st)"
proof (induction e round position FILTER tr st rule: update_loop.induct)
  case (1 e round position FILTER tr st)
  show ?case
  proof (cases "tr < e")
    case True
    show ?thesis
    proof (cases "getPosition st tr round")
      case None
      then show ?thesis
        using True scan_stop_Inl [of e round position FILTER OutOfBounds]
        by (subst update_loop.simps, unfold update_for_def, subst while_option_unfold)
           (simp add: scan_cond_def scan_body_def scan_result_def)
    next
      case (Some v)
      show ?thesis
      proof (cases "position < v")
        case True
        then show ?thesis
          using \<open>tr < e\<close> Some "1.IH" [OF \<open>tr < e\<close> Some True]
          by (subst update_loop.simps, unfold update_for_def, subst while_option_unfold)
             (simp add: scan_cond_def scan_body_def update_for_def)
      next
        case False
        then show ?thesis
          using \<open>tr < e\<close> Some
          by (subst update_loop.simps, unfold update_for_def, subst while_option_unfold)
             (simp add: scan_cond_def scan_result_def)
      qed
    qed
  next
    case False
    then show ?thesis
      by (subst update_loop.simps, unfold update_for_def, subst while_option_unfold)
         (simp add: scan_cond_def scan_result_def)
  qed
qed

subsection \<open>Properties of the loop\<close>

text \<open>
  C31. Termination: the \<open>for\<close> loop of \<open>update\<close>, run as the while loop it is, stops on
  every input (any index, route end, round, position and filter; each iteration either
  advances \<open>tr\<close> towards the route end or ends in the out-of-bounds error), and what it
  computes is exactly the recursive scan \<^const>\<open>update_loop\<close> that \<^const>\<open>update\<close> runs.
\<close>

theorem update_for_terminates:
  "(\<exists>r. while_option (scan_cond e round position) (scan_body round FILTER) (Inr (tr, st)) = Some r) \<and>
   update_for e round position FILTER tr st = Some (update_loop e round position FILTER tr st)"
  using scan_terminates update_for_eq_loop by blast

end
