(* ===== verification/ReleaseBuild.thy ===== *)
theory ReleaseBuild
  imports ReachedIndex
begin

text \<open>
  The reachability index in a release build (\<open>NDEBUG\<close>): the \<open>assert\<close>s of
  \<open>alreadyReached\<close> and \<open>update\<close> are compiled out, so nothing rejects an invalid trip or
  round before the vectors are indexed. What remains are the unchecked accesses
  \<open>data.routeOfTrip[trip]\<close>, \<open>data.firstTripOfRoute[...]\<close>, \<open>MAX_MASKS[round - 1]\<close> and
  \<open>labels[trip].values[round - 1]\<close>; an access outside its vector is undefined behaviour
  in C++ and is the error \<open>OutOfBounds\<close> here.
\<close>

definition routeEnd_checked :: "timetable \<Rightarrow> nat \<Rightarrow> nat option" where
  "routeEnd_checked d t =
     (if t < length (routeOfTrip d) \<and> Suc (routeOfTrip d ! t) < length (firstTripOfRoute d)
      then Some (routeEnd d t) else None)"

definition alreadyReached_release :: "reached_index \<Rightarrow> nat \<Rightarrow> u8 \<Rightarrow> u8 \<Rightarrow> reach_error + bool" where
  "alreadyReached_release st trip position round =
     (case getPosition st trip round of
        None \<Rightarrow> Inl OutOfBounds
      | Some v \<Rightarrow> Inr (v \<le> position))"

definition update_release ::
  "platform \<Rightarrow> reached_index \<Rightarrow> nat \<Rightarrow> u8 \<Rightarrow> u8 \<Rightarrow> reach_error + reached_index" where
  "update_release pf st trip position round =
     (case makeMask pf round of
        None \<Rightarrow> Inl OutOfBounds
      | Some msk \<Rightarrow>
          let FILTER = simd_max_u8 (simd_set1_u8 position) msk
          in case routeEnd_checked (data st) trip of
               None \<Rightarrow> Inl OutOfBounds
             | Some e \<Rightarrow> update_loop e round position FILTER trip st)"

subsection \<open>Accesses outside the vectors\<close>

lemma routeEnd_checked_wf:
  assumes "wf_timetable d"
  shows "routeEnd_checked d t = (if isTrip d t then Some (routeEnd d t) else None)"
proof (cases "isTrip d t")
  case True
  with assms have "wf_trip d t"
    unfolding wf_timetable_def isTrip_def by blast
  then have "Suc (routeOfTrip d ! t) < length (firstTripOfRoute d)"
    unfolding wf_trip_def by (elim conjE)
  with True show ?thesis
    by (simp add: routeEnd_checked_def isTrip_def numberOfTrips_def)
next
  case False
  then show ?thesis
    by (simp add: routeEnd_checked_def isTrip_def numberOfTrips_def)
qed

lemma update_loop_invalid_round:
  assumes "lanes16 (labels st)" "tr < e" "\<not> (0 < round \<and> round \<le> 16)"
  shows "update_loop e round p F tr st = Inl OutOfBounds"
  using assms getPosition_None [OF assms(1), of tr round]
  by (subst update_loop.simps) simp

lemma update_release_result:
  assumes inv: "index_inv st"
  shows "update_release pf st trip p round =
    (if isTrip (data st) trip \<and> 0 < round \<and> round \<le> 16
     then Inr (st\<lparr>labels := apply_filter (update_filter p round) trip
                                 (routeEnd (data st) trip) (labels st)\<rparr>)
     else Inl OutOfBounds)"
proof (cases "isTrip (data st) trip \<and> 0 < round \<and> round \<le> 16")
  case True
  then show ?thesis
    using makeMask_valid_round [of round pf] update_loop_full_scan [OF inv, of trip round p]
      routeEnd_checked_wf [OF index_inv_labels(1) [OF inv], of trip]
    by (simp add: update_release_def)
next
  case False
  note wf = index_inv_labels(1) [OF inv]
  show ?thesis
  proof (cases "makeMask pf round")
    case (Some msk)
    show ?thesis
    proof (cases "isTrip (data st) trip")
      case True
      with False have "\<not> (0 < round \<and> round \<le> 16)"
        by simp
      from update_loop_invalid_round [OF index_inv_labels(3) [OF inv]
          wf_trip_facts(1) [OF wf True] this]
      show ?thesis
        using Some True False routeEnd_checked_wf [OF wf, of trip]
        by (simp add: update_release_def)
    qed (use Some routeEnd_checked_wf [OF wf, of trip] in \<open>simp add: update_release_def\<close>)
  qed (simp add: update_release_def False)
qed

lemma alreadyReached_release_result:
  assumes inv: "index_inv st"
  shows "alreadyReached_release st trip p round =
    (if isTrip (data st) trip \<and> 0 < round \<and> round \<le> 16
     then Inr (labels st ! trip ! (unat round - 1) \<le> p)
     else Inl OutOfBounds)"
  using getPosition_Some [of trip st round] getPosition_None [OF index_inv_labels(3) [OF inv], of trip round]
    index_inv_labels(2,3) [OF inv]
  by (auto simp: alreadyReached_release_def isTrip_def)

subsection \<open>Properties of the release build\<close>

text \<open>
  C12. Release-build contract: with the assertions compiled out, on an index satisfying
  the invariant, \<open>update\<close> and \<open>alreadyReached\<close> are well defined exactly for a valid
  trip and \<open>1 \<le> round \<le> 16\<close>. Round 16, which the debug build rejects, stores and reads
  the sixteenth byte of each register like any other round; every other invalid trip or
  round reaches an access outside a vector, on either platform.
\<close>

theorem release_build_contract:
  assumes "index_inv st"
  shows "update_release pf st trip p round =
           (if isTrip (data st) trip \<and> 0 < round \<and> round \<le> 16
            then Inr (st\<lparr>labels := apply_filter (update_filter p round) trip
                                        (routeEnd (data st) trip) (labels st)\<rparr>)
            else Inl OutOfBounds) \<and>
         alreadyReached_release st trip p round =
           (if isTrip (data st) trip \<and> 0 < round \<and> round \<le> 16
            then Inr (labels st ! trip ! (unat round - 1) \<le> p)
            else Inl OutOfBounds)"
  using update_release_result [OF assms] alreadyReached_release_result [OF assms]
  by (rule conjI)

theorem release_build_contract_witness:
  "index_inv example_index \<and>
   alreadyReached_release example_index 3 7 16 = Inr True \<and>
   alreadyReached_release example_index 3 6 16 = Inr False \<and>
   update_release Neon example_index 3 2 16 =
     Inr (example_index\<lparr>labels := apply_filter (update_filter 2 16) 3 5 (labels example_index)\<rparr>) \<and>
   update_release Sse2 example_index 3 2 17 = Inl OutOfBounds \<and>
   update_release Neon example_index 3 2 0 = Inl OutOfBounds \<and>
   update_release Neon example_index 5 2 1 = Inl OutOfBounds"
proof -
  have h: "index_inv example_index"
    by code_simp
  have t: "isTrip (data example_index) 3" "\<not> isTrip (data example_index) 5"
    "routeEnd (data example_index) 3 = 5" "labels example_index ! 3 ! 15 = 7"
    by code_simp+
  have r: "(0::u8) < 16" "(16::u8) \<le> 16" "\<not> (17::u8) \<le> 16" "unat (16::u8) - 1 = 15"
    by simp_all
  show ?thesis
    using h t r release_build_contract [OF h] by simp
qed

end
