(* ===== verification/Simd16.thy ===== *)
theory Simd16
  imports Prelude
begin

unbundle bit_operations_syntax

text \<open>
  The 16-lane unsigned 16-bit vector \<open>SIMD16u\<close> of \<open>src/unnamed/part_000\<close> (lines
  233--401), in its two backends. The AVX2 backend holds one 256-bit register
  (\<open>Holder::reg\<close>), the NEON backend two 128-bit registers \<open>lo\<close> and \<open>hi\<close>; in both the
  union member \<open>arr\<close> shows the same bits as sixteen \<open>uint16_t\<close> lanes, lane \<open>i\<close> of
  \<open>arr\<close> being element \<open>i\<close> of the register (of \<open>lo\<close> for \<open>i < 8\<close>, of \<open>hi\<close> otherwise).
  A register is the list of its lanes. Memory for \<open>load\<close> and \<open>store\<close> is a buffer of
  \<open>uint16_t\<close> and an offset; reading or writing past its end is undefined behaviour in
  C++ and \<open>None\<close> here.

  Shift counts follow the instructions: the AVX2 shifts by a count held in a register
  set every lane to 0 when the count, read as unsigned, exceeds 15 (\<open>VPSLLW\<close>,
  \<open>VPSRLW\<close>); NEON's \<open>vshlq_u16\<close> shifts each lane by the signed value of the low byte
  of the matching lane of the shift vector, to the left when it is non-negative and to
  the right otherwise, and a shift by 16 or more gives 0.
\<close>

subsection \<open>Memory access\<close>

text \<open>Unaligned load and store of \<open>n\<close> lanes at a buffer offset (\<open>vld1q\<close>, \<open>vst1q\<close>,
  \<open>_mm256_loadu_si256\<close>, \<open>_mm256_storeu_si256\<close>).\<close>

definition load_lanes :: "u16 list \<Rightarrow> nat \<Rightarrow> nat \<Rightarrow> u16 list" where
  "load_lanes buf off n = take n (drop off buf)"

definition store_lanes :: "u16 list \<Rightarrow> nat \<Rightarrow> u16 list \<Rightarrow> u16 list" where
  "store_lanes buf off xs = take off buf @ xs @ drop (off + length xs) buf"

subsection \<open>AVX2 backend (lines 327--399)\<close>

record simd16u_avx =
  reg :: "u16 list"

text \<open>The explicit constructor \<open>SIMD16u(__m256i x)\<close>, which every operator returns through.\<close>

definition avx_of_reg :: "u16 list \<Rightarrow> simd16u_avx" where
  [simp]: "avx_of_reg x = \<lparr>reg = x\<rparr>"

definition avx_broadcast :: "u16 \<Rightarrow> simd16u_avx" where
  "avx_broadcast scalar = \<lparr>reg = replicate 16 scalar\<rparr>"

definition avx_load :: "u16 list \<Rightarrow> nat \<Rightarrow> simd16u_avx option" where
  "avx_load buf off =
     (if off + 16 \<le> length buf then Some (avx_of_reg (load_lanes buf off 16)) else None)"

definition avx_store :: "simd16u_avx \<Rightarrow> u16 list \<Rightarrow> nat \<Rightarrow> u16 list option" where
  "avx_store v buf off =
     (if off + 16 \<le> length buf then Some (store_lanes buf off (reg v)) else None)"

definition avx_get :: "simd16u_avx \<Rightarrow> nat \<Rightarrow> u16" where
  "avx_get v i = reg v ! (i AND 15)"

definition avx_set :: "simd16u_avx \<Rightarrow> nat \<Rightarrow> u16 \<Rightarrow> simd16u_avx" where
  "avx_set v i x = v\<lparr>reg := (reg v)[i AND 15 := x]\<rparr>"

definition avx_add :: "simd16u_avx \<Rightarrow> simd16u_avx \<Rightarrow> simd16u_avx" where
  "avx_add v w = avx_of_reg (map2 (+) (reg v) (reg w))"

definition avx_sub :: "simd16u_avx \<Rightarrow> simd16u_avx \<Rightarrow> simd16u_avx" where
  "avx_sub v w = avx_of_reg (map2 (-) (reg v) (reg w))"

definition avx_and :: "simd16u_avx \<Rightarrow> simd16u_avx \<Rightarrow> simd16u_avx" where
  "avx_and v w = avx_of_reg (map2 (\<lambda>a b. a AND b) (reg v) (reg w))"

definition avx_or :: "simd16u_avx \<Rightarrow> simd16u_avx \<Rightarrow> simd16u_avx" where
  "avx_or v w = avx_of_reg (map2 (\<lambda>a b. a OR b) (reg v) (reg w))"

definition avx_xor :: "simd16u_avx \<Rightarrow> simd16u_avx \<Rightarrow> simd16u_avx" where
  "avx_xor v w = avx_of_reg (map2 (\<lambda>a b. a XOR b) (reg v) (reg w))"

text \<open>\<open>_mm256_slli_epi16\<close>, \<open>_mm256_srli_epi16\<close> with the count \<open>bits\<close>.\<close>

definition avx_sll :: "simd16u_avx \<Rightarrow> int \<Rightarrow> simd16u_avx" where
  "avx_sll v bits =
     avx_of_reg (map (\<lambda>x. if 0 \<le> bits \<and> bits \<le> 15 then push_bit (nat bits) x else 0) (reg v))"

definition avx_srl :: "simd16u_avx \<Rightarrow> int \<Rightarrow> simd16u_avx" where
  "avx_srl v bits =
     avx_of_reg (map (\<lambda>x. if 0 \<le> bits \<and> bits \<le> 15 then drop_bit (nat bits) x else 0) (reg v))"

text \<open>\<open>_mm256_cmpeq_epi16\<close> and \<open>vceqq_u16\<close>: all ones in the lanes that are equal.\<close>

definition lane_eq_mask :: "u16 \<Rightarrow> u16 \<Rightarrow> u16" where
  "lane_eq_mask a b = (if a = b then 0xFFFF else 0)"

definition avx_cmpeq :: "simd16u_avx \<Rightarrow> simd16u_avx \<Rightarrow> simd16u_avx" where
  "avx_cmpeq v w = avx_of_reg (map2 lane_eq_mask (reg v) (reg w))"

text \<open>
  \<open>max\<close> and \<open>min\<close> store the lane-wise extremum into the receiver and return the
  register \<open>cmpeq(m, v)\<close> of the lanes where the receiver already held it.
\<close>

definition avx_max :: "simd16u_avx \<Rightarrow> simd16u_avx \<Rightarrow> simd16u_avx \<times> u16 list" where
  "avx_max v w =
     (let m = map2 max (reg v) (reg w); eq0 = map2 lane_eq_mask m (reg v)
      in (v\<lparr>reg := m\<rparr>, eq0))"

definition avx_min :: "simd16u_avx \<Rightarrow> simd16u_avx \<Rightarrow> simd16u_avx \<times> u16 list" where
  "avx_min v w =
     (let m = map2 min (reg v) (reg w); eq0 = map2 lane_eq_mask m (reg v)
      in (v\<lparr>reg := m\<rparr>, eq0))"

text \<open>
  \<open>_mm256_blendv_epi8(other.reg, v.reg, mask)\<close> selects byte by byte: the byte of
  \<open>v\<close> where the most significant bit of the mask's byte is set, the byte of
  \<open>other\<close> otherwise. In a 16-bit lane the low byte follows bit 7 of the mask lane, the
  high byte bit 15.
\<close>

definition blendv_lane :: "u16 \<Rightarrow> u16 \<Rightarrow> u16 \<Rightarrow> u16" where
  "blendv_lane a b m =
     (if bit m 15 then b AND 0xFF00 else a AND 0xFF00) OR (if bit m 7 then b AND 0xFF else a AND 0xFF)"

definition avx_blend :: "simd16u_avx \<Rightarrow> simd16u_avx \<Rightarrow> u16 list \<Rightarrow> simd16u_avx" where
  "avx_blend v other msk =
     v\<lparr>reg := map (\<lambda>i. blendv_lane (reg other ! i) (reg v ! i) (msk ! i)) [0..<16]\<rparr>"

subsection \<open>NEON backend (lines 233--322)\<close>

record simd16u_neon =
  lo :: "u16 list"
  hi :: "u16 list"

text \<open>The constructor \<open>SIMD16u(uint16x8_t lo, uint16x8_t hi)\<close> from two halves.\<close>

definition neon_of_halves :: "u16 list \<Rightarrow> u16 list \<Rightarrow> simd16u_neon" where
  [simp]: "neon_of_halves l h = \<lparr>lo = l, hi = h\<rparr>"

text \<open>The union member \<open>arr\<close>: the lanes of \<open>lo\<close> followed by those of \<open>hi\<close>.\<close>

definition neon_arr :: "simd16u_neon \<Rightarrow> u16 list" where
  "neon_arr v = lo v @ hi v"

definition neon_broadcast :: "u16 \<Rightarrow> simd16u_neon" where
  "neon_broadcast scalar = \<lparr>lo = replicate 8 scalar, hi = replicate 8 scalar\<rparr>"

definition neon_load :: "u16 list \<Rightarrow> nat \<Rightarrow> simd16u_neon option" where
  "neon_load buf off =
     (if off + 16 \<le> length buf
      then Some \<lparr>lo = load_lanes buf off 8, hi = load_lanes buf (off + 8) 8\<rparr> else None)"

definition neon_store :: "simd16u_neon \<Rightarrow> u16 list \<Rightarrow> nat \<Rightarrow> u16 list option" where
  "neon_store v buf off =
     (if off + 16 \<le> length buf
      then Some (store_lanes (store_lanes buf off (lo v)) (off + 8) (hi v)) else None)"

text \<open>\<open>v.arr[i & 15]\<close>: the lane of \<open>lo\<close> or of \<open>hi\<close> that the union places there.\<close>

definition neon_get :: "simd16u_neon \<Rightarrow> nat \<Rightarrow> u16" where
  "neon_get v i = (let k = i AND 15 in if k < 8 then lo v ! k else hi v ! (k - 8))"

definition neon_set :: "simd16u_neon \<Rightarrow> nat \<Rightarrow> u16 \<Rightarrow> simd16u_neon" where
  "neon_set v i x =
     (let k = i AND 15 in if k < 8 then v\<lparr>lo := (lo v)[k := x]\<rparr> else v\<lparr>hi := (hi v)[k - 8 := x]\<rparr>)"

text \<open>A lane-wise NEON intrinsic applied to both halves, as each operator does.\<close>

definition neon_lanewise :: "(u16 \<Rightarrow> u16 \<Rightarrow> u16) \<Rightarrow> simd16u_neon \<Rightarrow> simd16u_neon \<Rightarrow> simd16u_neon" where
  "neon_lanewise f v w = neon_of_halves (map2 f (lo v) (lo w)) (map2 f (hi v) (hi w))"

definition neon_add :: "simd16u_neon \<Rightarrow> simd16u_neon \<Rightarrow> simd16u_neon" where
  "neon_add v w = neon_lanewise (+) v w"

definition neon_sub :: "simd16u_neon \<Rightarrow> simd16u_neon \<Rightarrow> simd16u_neon" where
  "neon_sub v w = neon_lanewise (-) v w"

definition neon_and :: "simd16u_neon \<Rightarrow> simd16u_neon \<Rightarrow> simd16u_neon" where
  "neon_and v w = neon_lanewise (\<lambda>a b. a AND b) v w"

definition neon_or :: "simd16u_neon \<Rightarrow> simd16u_neon \<Rightarrow> simd16u_neon" where
  "neon_or v w = neon_lanewise (\<lambda>a b. a OR b) v w"

definition neon_xor :: "simd16u_neon \<Rightarrow> simd16u_neon \<Rightarrow> simd16u_neon" where
  "neon_xor v w = neon_lanewise (\<lambda>a b. a XOR b) v w"

text \<open>
  \<open>vshlq_u16(x, vdupq_n_s16(static_cast<int16_t>(s)))\<close> on one lane: the count is the
  signed low byte of the 16-bit value \<open>s\<close>.
\<close>

definition vshl_count :: "int \<Rightarrow> int" where
  "vshl_count s = sint (ucast (word_of_int s :: 16 word) :: 8 word)"

definition vshl_lane :: "int \<Rightarrow> u16 \<Rightarrow> u16" where
  "vshl_lane s x =
     (let c = vshl_count s in if 0 \<le> c then push_bit (nat c) x else drop_bit (nat (- c)) x)"

definition neon_sll :: "simd16u_neon \<Rightarrow> int \<Rightarrow> simd16u_neon" where
  "neon_sll v bits = neon_of_halves (map (vshl_lane bits) (lo v)) (map (vshl_lane bits) (hi v))"

definition neon_srl :: "simd16u_neon \<Rightarrow> int \<Rightarrow> simd16u_neon" where
  "neon_srl v bits = neon_of_halves (map (vshl_lane (- bits)) (lo v)) (map (vshl_lane (- bits)) (hi v))"

definition neon_cmpeq :: "simd16u_neon \<Rightarrow> simd16u_neon \<Rightarrow> simd16u_neon" where
  "neon_cmpeq v w = neon_lanewise lane_eq_mask v w"

definition neon_maxmask :: "simd16u_neon \<Rightarrow> simd16u_neon \<Rightarrow> simd16u_neon \<times> simd16u_neon" where
  "neon_maxmask v w =
     (let mlo = map2 max (lo v) (lo w); mhi = map2 max (hi v) (hi w);
          eq0lo = map2 lane_eq_mask mlo (lo v); eq0hi = map2 lane_eq_mask mhi (hi v)
      in (v\<lparr>lo := mlo, hi := mhi\<rparr>, neon_of_halves eq0lo eq0hi))"

definition neon_minmask :: "simd16u_neon \<Rightarrow> simd16u_neon \<Rightarrow> simd16u_neon \<times> simd16u_neon" where
  "neon_minmask v w =
     (let mlo = map2 min (lo v) (lo w); mhi = map2 min (hi v) (hi w);
          eq0lo = map2 lane_eq_mask mlo (lo v); eq0hi = map2 lane_eq_mask mhi (hi v)
      in (v\<lparr>lo := mlo, hi := mhi\<rparr>, neon_of_halves eq0lo eq0hi))"

text \<open>\<open>vbslq_u16(mask, v, other)\<close>: bit by bit, \<open>v\<close> where the mask bit is set.\<close>

definition bsl_lane :: "u16 \<Rightarrow> u16 \<Rightarrow> u16 \<Rightarrow> u16" where
  "bsl_lane m a b = (m AND a) OR (NOT m AND b)"

definition neon_blend :: "simd16u_neon \<Rightarrow> simd16u_neon \<Rightarrow> simd16u_neon \<Rightarrow> simd16u_neon" where
  "neon_blend v other msk =
     \<lparr>lo = map (\<lambda>i. bsl_lane (lo msk ! i) (lo v ! i) (lo other ! i)) [0..<8],
      hi = map (\<lambda>i. bsl_lane (hi msk ! i) (hi v ! i) (hi other ! i)) [0..<8]\<rparr>"

text \<open>Well-formed values: sixteen lanes, two halves of eight.\<close>

definition avx_wf :: "simd16u_avx \<Rightarrow> bool" where
  "avx_wf v \<longleftrightarrow> length (reg v) = 16"

definition neon_wf :: "simd16u_neon \<Rightarrow> bool" where
  "neon_wf v \<longleftrightarrow> length (lo v) = 8 \<and> length (hi v) = 8"

text \<open>The AVX2 register that a NEON pair of halves stands for.\<close>

definition neon_as_avx :: "simd16u_neon \<Rightarrow> simd16u_avx" where
  "neon_as_avx v = \<lparr>reg = neon_arr v\<rparr>"

declare avx_broadcast_def [simd_defs] avx_add_def [simd_defs] avx_sub_def [simd_defs]
  avx_and_def [simd_defs] avx_or_def [simd_defs] avx_xor_def [simd_defs] avx_cmpeq_def [simd_defs]
  neon_broadcast_def [simd_defs] neon_add_def [simd_defs] neon_sub_def [simd_defs]
  neon_and_def [simd_defs] neon_or_def [simd_defs] neon_xor_def [simd_defs]
  neon_cmpeq_def [simd_defs] neon_lanewise_def [simd_defs] neon_arr_def [simd_defs]
  neon_as_avx_def [simd_defs]

subsection \<open>Lanes\<close>

lemma neon_as_avx_lanewise:
  assumes "length (lo a) = length (lo b)"
  shows "neon_as_avx (neon_lanewise f a b) = \<lparr>reg = map2 f (reg (neon_as_avx a)) (reg (neon_as_avx b))\<rparr>"
  using assms by (simp add: neon_as_avx_def neon_lanewise_def neon_arr_def)

lemma reg_neon_as_avx [simp]: "reg (neon_as_avx v) = lo v @ hi v"
  by (simp add: neon_as_avx_def neon_arr_def)

lemma avx_wf_neon_as_avx: "neon_wf v \<Longrightarrow> avx_wf (neon_as_avx v)"
  by (simp add: neon_wf_def avx_wf_def)

lemma backend_lanewise_agree:
  assumes "neon_wf a" "neon_wf b"
  shows "neon_as_avx (neon_add a b) = avx_add (neon_as_avx a) (neon_as_avx b)"
    and "neon_as_avx (neon_sub a b) = avx_sub (neon_as_avx a) (neon_as_avx b)"
    and "neon_as_avx (neon_and a b) = avx_and (neon_as_avx a) (neon_as_avx b)"
    and "neon_as_avx (neon_or a b) = avx_or (neon_as_avx a) (neon_as_avx b)"
    and "neon_as_avx (neon_xor a b) = avx_xor (neon_as_avx a) (neon_as_avx b)"
    and "neon_as_avx (neon_cmpeq a b) = avx_cmpeq (neon_as_avx a) (neon_as_avx b)"
  using assms neon_as_avx_lanewise [of a b]
  by (simp_all add: neon_wf_def neon_add_def neon_sub_def neon_and_def neon_or_def neon_xor_def
      neon_cmpeq_def avx_add_def avx_sub_def avx_and_def avx_or_def avx_xor_def avx_cmpeq_def)

lemma backend_minmax_agree:
  assumes "neon_wf a" "neon_wf b"
  shows "map_prod neon_as_avx neon_arr (neon_minmask a b) = avx_min (neon_as_avx a) (neon_as_avx b)"
    and "map_prod neon_as_avx neon_arr (neon_maxmask a b) = avx_max (neon_as_avx a) (neon_as_avx b)"
  using assms
  by (simp_all add: neon_wf_def neon_minmask_def neon_maxmask_def avx_min_def avx_max_def
      neon_as_avx_def neon_arr_def Let_def)

lemma backend_access_agree:
  assumes "neon_wf a"
  shows "neon_as_avx (neon_broadcast s) = avx_broadcast s"
    and "neon_get a i = avx_get (neon_as_avx a) i"
    and "neon_wf a \<Longrightarrow> neon_as_avx (neon_set a i x) = avx_set (neon_as_avx a) i x"
    and "map_option neon_as_avx (neon_load buf off) = avx_load buf off"
    and "neon_store a buf off = avx_store (neon_as_avx a) buf off"
proof -
  have k: "i AND 15 < 16"
    by (simp add: and_15_eq_mod_16)
  show "neon_as_avx (neon_broadcast s) = avx_broadcast s"
    by (simp add: neon_as_avx_def neon_arr_def neon_broadcast_def avx_broadcast_def
        replicate_add [symmetric])
  show "neon_get a i = avx_get (neon_as_avx a) i"
    using assms k by (simp add: neon_get_def avx_get_def neon_wf_def nth_append Let_def)
  show "neon_as_avx (neon_set a i x) = avx_set (neon_as_avx a) i x"
    using assms k by (simp add: neon_set_def avx_set_def neon_wf_def list_update_append Let_def
        neon_as_avx_def neon_arr_def)
  have "take 16 (drop off buf) = take 8 (drop off buf) @ take 8 (drop (off + 8) buf)"
    using take_add [of 8 8 "drop off buf"] by (simp add: add.commute)
  then show "map_option neon_as_avx (neon_load buf off) = avx_load buf off"
    by (simp add: neon_load_def avx_load_def load_lanes_def neon_as_avx_def neon_arr_def)
  show "neon_store a buf off = avx_store (neon_as_avx a) buf off"
    using assms
    by (simp add: neon_store_def avx_store_def store_lanes_def neon_wf_def neon_as_avx_def
        neon_arr_def add.commute)
qed

subsection \<open>Memory round trips\<close>

lemma load_store_lanes:
  "off + length xs \<le> length buf \<Longrightarrow> load_lanes (store_lanes buf off xs) off (length xs) = xs"
  by (simp add: load_lanes_def store_lanes_def)

lemma store_load_lanes:
  "off + n \<le> length buf \<Longrightarrow> store_lanes buf off (load_lanes buf off n) = buf"
proof -
  assume a: "off + n \<le> length buf"
  have "take off buf @ take n (drop off buf) @ drop (off + n) buf = buf"
    by (metis append_take_drop_id add.commute drop_drop take_add)
  with a show ?thesis
    by (simp add: load_lanes_def store_lanes_def min_def)
qed

lemma avx_load_store:
  assumes "avx_wf v" "avx_store v buf off = Some buf'"
  shows "avx_load buf' off = Some v"
proof -
  from assms have b: "buf' = store_lanes buf off (reg v)" and len: "off + 16 \<le> length buf"
    by (auto simp: avx_store_def split: if_splits)
  with assms(1) have "load_lanes buf' off 16 = reg v"
    using load_store_lanes [of off "reg v" buf] by (simp add: avx_wf_def)
  moreover have "off + 16 \<le> length buf'"
    using b len assms(1) by (simp add: store_lanes_def avx_wf_def)
  ultimately show ?thesis
    by (simp add: avx_load_def)
qed

lemma avx_store_load:
  "avx_load buf off = Some v \<Longrightarrow> avx_store v buf off = Some buf"
  by (auto simp: avx_store_def avx_load_def store_load_lanes split: if_splits)

lemma neon_load_wf: "neon_load buf off = Some u \<Longrightarrow> neon_wf u"
  by (auto simp: neon_load_def neon_wf_def load_lanes_def split: if_splits)

lemma neon_as_avx_inj:
  "neon_wf u \<Longrightarrow> neon_wf u' \<Longrightarrow> neon_as_avx u = neon_as_avx u' \<Longrightarrow> u = u'"
  by (cases u, cases u') (simp add: neon_wf_def neon_as_avx_def neon_arr_def append_eq_append_conv)

lemma neon_store_load:
  assumes "neon_load buf off = Some u"
  shows "neon_store u buf off = Some buf"
proof -
  have "avx_load buf off = Some (neon_as_avx u)"
    using backend_access_agree(4) [OF neon_load_wf [OF assms], of buf off] assms by simp
  then show ?thesis
    using avx_store_load backend_access_agree(5) [OF neon_load_wf [OF assms]] by simp
qed

lemma neon_load_store:
  assumes "neon_wf u" "neon_store u buf off = Some buf'"
  shows "neon_load buf' off = Some u"
proof -
  have "avx_load buf' off = Some (neon_as_avx u)"
    using assms avx_load_store avx_wf_neon_as_avx backend_access_agree(5) [OF assms(1)] by simp
  then obtain u' where u': "neon_load buf' off = Some u'" "neon_as_avx u' = neon_as_avx u"
    using backend_access_agree(4) [OF assms(1), of buf' off] by auto
  then show ?thesis
    using neon_as_avx_inj [OF neon_load_wf [OF u'(1)] assms(1)] by simp
qed

subsection \<open>Masked minimum and maximum\<close>

lemma avx_min_lanes:
  assumes "avx_wf v" "avx_wf w" "avx_min v w = (v', m)" "i < 16"
  shows "reg v' ! i = min (reg v ! i) (reg w ! i)"
    and "m ! i = (if reg v ! i \<le> reg w ! i then 0xFFFF else 0)"
  using assms
  by (auto simp: avx_min_def avx_wf_def Let_def lane_eq_mask_def min_def)

lemma avx_max_lanes:
  assumes "avx_wf v" "avx_wf w" "avx_max v w = (v', m)" "i < 16"
  shows "reg v' ! i = max (reg v ! i) (reg w ! i)"
    and "m ! i = (if reg w ! i \<le> reg v ! i then 0xFFFF else 0)"
  using assms
  by (auto simp: avx_max_def avx_wf_def Let_def lane_eq_mask_def max_def)

subsection \<open>Blend\<close>



lemma u16_all_ones: "(0xFFFF :: u16) = - 1"
  by simp

lemma and_ff00_or_ff: "(b AND 0xFF00) OR (b AND 0xFF) = (b::u16)"
proof -
  have "(b AND 0xFF00) OR (b AND 0xFF) = b AND (0xFF00 OR 0xFF)"
    by (simp only: bit.conj_disj_distrib)
  also have "(0xFF00 OR 0xFF :: u16) = - 1"
    by simp
  finally show ?thesis
    by simp
qed

lemma blendv_lane_ones: "blendv_lane a b 0xFFFF = b"
  by (simp add: blendv_lane_def and_ff00_or_ff)

lemma blendv_lane_zero: "blendv_lane a b 0 = a"
  by (simp add: blendv_lane_def and_ff00_or_ff)

lemma bsl_lane_ones: "bsl_lane 0xFFFF a b = a"
  unfolding u16_all_ones by (simp add: bsl_lane_def)

lemma bsl_lane_zero: "bsl_lane 0 a b = b"
  by (simp add: bsl_lane_def)

lemma ff_mask: "(0xFF::u16) = mask 8"
  by (simp add: mask_eq_exp_minus_1)

lemma ff00_mask: "(0xFF00::u16) = NOT (mask 8)"
  by (simp add: mask_eq_exp_minus_1)

lemma bytewise_blends_agree:
  assumes "m \<in> {0, 0xFF, 0xFF00, 0xFFFF}"
  shows "blendv_lane b a m = bsl_lane m a b"
  using assms unfolding blendv_lane_def bsl_lane_def ff_mask ff00_mask u16_all_ones
  by (auto intro!: bit_word_eqI simp: bit_simps)

lemma blendv_fixed_bytewise:
  assumes "blendv_lane 0 0xFFFF m = m"
  shows "m \<in> {0, 0xFF, 0xFF00, 0xFFFF}"
  using assms by (cases "bit m 15"; cases "bit m 7") (auto simp: blendv_lane_def)

lemma neon_blend_arr:
  assumes "neon_wf v" "neon_wf w" "neon_wf M"
  shows "neon_arr (neon_blend v w M) =
         map (\<lambda>i. bsl_lane (neon_arr M ! i) (neon_arr v ! i) (neon_arr w ! i)) [0..<16]"
proof (rule nth_equalityI)
  show "length (neon_arr (neon_blend v w M)) =
        length (map (\<lambda>i. bsl_lane (neon_arr M ! i) (neon_arr v ! i) (neon_arr w ! i)) [0..<16])"
    by (simp add: neon_arr_def neon_blend_def)
next
  fix i
  assume "i < length (neon_arr (neon_blend v w M))"
  then have i: "i < 16"
    by (simp add: neon_arr_def neon_blend_def)
  have l: "length (lo v) = 8" "length (lo w) = 8" "length (lo M) = 8"
    using assms by (simp_all add: neon_wf_def)
  show "neon_arr (neon_blend v w M) ! i =
        map (\<lambda>i. bsl_lane (neon_arr M ! i) (neon_arr v ! i) (neon_arr w ! i)) [0..<16] ! i"
  proof (cases "i < 8")
    case True
    then show ?thesis
      using l by (simp add: neon_arr_def neon_blend_def nth_append)
  next
    case False
    then have "i - 8 < 8"
      using i by simp
    then show ?thesis
      using False i l by (simp add: neon_arr_def neon_blend_def nth_append)
  qed
qed

lemma blend_agree_bytewise:
  assumes "neon_wf a" "neon_wf b" "neon_wf M"
    and bw: "\<forall>m \<in> set (neon_arr M). m \<in> {0, 0xFF, 0xFF00, 0xFFFF}"
  shows "neon_as_avx (neon_blend a b M) = avx_blend (neon_as_avx a) (neon_as_avx b) (neon_arr M)"
proof -
  have "length (neon_arr M) = 16"
    using assms(3) by (simp add: neon_wf_def neon_arr_def)
  then have "neon_arr M ! i \<in> {0, 0xFF, 0xFF00, 0xFFFF}" if "i < 16" for i
    using bw that by (simp add: nth_mem)
  then show ?thesis
    using neon_blend_arr [OF assms(1-3)]
    by (simp add: neon_as_avx_def avx_blend_def bytewise_blends_agree)
qed

lemma blend_broadcast_lanes:
  assumes "neon_wf M" "i < 16"
    and "neon_as_avx (neon_blend (neon_broadcast 0xFFFF) (neon_broadcast 0) M) =
         avx_blend (neon_as_avx (neon_broadcast 0xFFFF)) (neon_as_avx (neon_broadcast 0)) (neon_arr M)"
  shows "neon_arr M ! i \<in> {0, 0xFF, 0xFF00, 0xFFFF}"
proof -
  have wf: "neon_wf (neon_broadcast x)" for x
    by (simp add: neon_wf_def neon_broadcast_def)
  have arr: "neon_arr (neon_broadcast x) ! i = x" for x
    using assms(2) by (simp add: neon_arr_def neon_broadcast_def nth_append)
  have sel: "bsl_lane m 0xFFFF 0 = m" for m :: u16
    by (simp add: bsl_lane_def u16_all_ones)
  have x: "reg (neon_as_avx (neon_blend (neon_broadcast 0xFFFF) (neon_broadcast 0) M)) ! i =
           neon_arr M ! i"
    using neon_blend_arr [OF wf wf assms(1)] assms(2) arr by (simp add: neon_as_avx_def sel)
  have y: "reg (avx_blend (neon_as_avx (neon_broadcast 0xFFFF)) (neon_as_avx (neon_broadcast 0))
                 (neon_arr M)) ! i = blendv_lane 0 0xFFFF (neon_arr M ! i)"
    using assms(2) arr by (simp add: avx_blend_def neon_as_avx_def)
  from x y assms(3) have "blendv_lane 0 0xFFFF (neon_arr M ! i) = neon_arr M ! i"
    by simp
  then show ?thesis
    by (rule blendv_fixed_bytewise)
qed

lemma avx_blend_ones:
  "avx_wf v \<Longrightarrow> avx_blend v w (replicate 16 0xFFFF) = v"
  by (cases v) (simp add: avx_blend_def avx_wf_def blendv_lane_ones map_upt_eqI)

lemma avx_blend_zeros:
  "avx_wf w \<Longrightarrow> avx_blend v w (replicate 16 0) = w"
  by (cases v, cases w) (simp add: avx_blend_def avx_wf_def blendv_lane_zero map_upt_eqI)

lemma neon_blend_ones:
  "neon_wf v \<Longrightarrow> neon_blend v w (neon_broadcast 0xFFFF) = v"
  by (cases v) (simp add: neon_blend_def neon_wf_def neon_broadcast_def bsl_lane_ones map_upt_eqI)

lemma neon_blend_zeros:
  "neon_wf w \<Longrightarrow> neon_blend v w (neon_broadcast 0) = w"
  by (cases w) (simp add: neon_blend_def neon_wf_def neon_broadcast_def bsl_lane_zero map_upt_eqI)


subsection \<open>Shifts\<close>

lemma vshl_count_table: "list_all (\<lambda>s. vshl_count s = s) [-128..127]"
  by code_simp

lemma vshl_count_id:
  assumes "-128 \<le> s" "s < 128"
  shows "vshl_count s = s"
proof -
  from assms have "s \<in> {-128..127}"
    by simp
  then have "s \<in> set [-128..127]"
    by (simp only: set_upto)
  moreover from vshl_count_table have "\<forall>s \<in> set [-128..127]. vshl_count s = s"
    by (simp only: list_all_iff)
  ultimately show ?thesis
    by blast
qed

lemma vshl_lane_left:
  assumes "0 \<le> s" "s < 128"
  shows "vshl_lane s x = (if s \<le> 15 then push_bit (nat s) x else 0)"
  using assms vshl_count_id [of s] push_bit_word_beyond [of "nat s" x]
  by (simp add: vshl_lane_def)

lemma vshl_lane_right:
  assumes "0 \<le> b" "b \<le> 128"
  shows "vshl_lane (- b) x = (if b \<le> 15 then drop_bit (nat b) x else 0)"
proof -
  have c: "vshl_count (- b) = - b"
    using assms by (intro vshl_count_id) simp_all
  show ?thesis
  proof (cases "b = 0")
    case True
    then show ?thesis
      using c by (simp add: vshl_lane_def)
  next
    case False
    then show ?thesis
      using c assms drop_bit_word_beyond [of "nat b" x] by (simp add: vshl_lane_def)
  qed
qed

lemma backend_shifts_agree:
  assumes "0 \<le> bits"
  shows "bits < 128 \<Longrightarrow> neon_as_avx (neon_sll a bits) = avx_sll (neon_as_avx a) bits"
    and "bits \<le> 128 \<Longrightarrow> neon_as_avx (neon_srl a bits) = avx_srl (neon_as_avx a) bits"
  using assms vshl_lane_left [of bits] vshl_lane_right [of bits]
  by (simp_all add: neon_sll_def neon_srl_def avx_sll_def avx_srl_def neon_as_avx_def neon_arr_def)

subsection \<open>Indexing and arithmetic\<close>

lemma avx_get_set:
  "avx_wf v \<Longrightarrow> avx_get (avx_set v i x) j = (if i mod 16 = j mod 16 then x else avx_get v j)"
  by (simp add: avx_get_def avx_set_def avx_wf_def and_15_eq_mod_16 nth_list_update)

subsection \<open>Well-formedness\<close>

subsection \<open>Properties of SIMD16u\<close>

text \<open>
  C15. Backend refinement: on well-formed values the NEON pair of halves, read through
  the union as sixteen lanes, computes what the AVX2 register computes for broadcast,
  \<open>operator[]\<close> (read and write), \<open>+\<close>, \<open>-\<close>, \<open>&\<close>, \<open>|\<close>, \<open>^\<close>, \<open>cmpeq\<close>, and the masked
  \<open>min\<close> and \<open>max\<close> (the new receiver and the returned mask).
\<close>

theorem backends_agree:
  assumes "neon_wf a" "neon_wf b"
  shows "neon_as_avx (neon_broadcast s) = avx_broadcast s \<and>
         neon_get a i = avx_get (neon_as_avx a) i \<and>
         neon_as_avx (neon_set a i x) = avx_set (neon_as_avx a) i x \<and>
         neon_as_avx (neon_add a b) = avx_add (neon_as_avx a) (neon_as_avx b) \<and>
         neon_as_avx (neon_sub a b) = avx_sub (neon_as_avx a) (neon_as_avx b) \<and>
         neon_as_avx (neon_and a b) = avx_and (neon_as_avx a) (neon_as_avx b) \<and>
         neon_as_avx (neon_or a b) = avx_or (neon_as_avx a) (neon_as_avx b) \<and>
         neon_as_avx (neon_xor a b) = avx_xor (neon_as_avx a) (neon_as_avx b) \<and>
         neon_as_avx (neon_cmpeq a b) = avx_cmpeq (neon_as_avx a) (neon_as_avx b) \<and>
         map_prod neon_as_avx neon_arr (neon_minmask a b) = avx_min (neon_as_avx a) (neon_as_avx b) \<and>
         map_prod neon_as_avx neon_arr (neon_maxmask a b) = avx_max (neon_as_avx a) (neon_as_avx b)"
  using backend_lanewise_agree [OF assms] backend_minmax_agree [OF assms]
    backend_access_agree(1,2,3) [OF assms(1)] assms(1) by blast

theorem backends_agree_witness:
  "neon_wf \<lparr>lo = [1, 2, 3, 4, 5, 6, 7, 8], hi = [9, 10, 11, 12, 13, 14, 15, 16]\<rparr> \<and>
   neon_wf \<lparr>lo = replicate 8 5, hi = replicate 8 65535\<rparr> \<and>
   map_prod neon_as_avx neon_arr
     (neon_minmask \<lparr>lo = [1, 2, 3, 4, 5, 6, 7, 8], hi = [9, 10, 11, 12, 13, 14, 15, 16]\<rparr>
                   \<lparr>lo = replicate 8 5, hi = replicate 8 65535\<rparr>) =
   avx_min \<lparr>reg = [1, 2, 3, 4, 5, 6, 7, 8, 9, 10, 11, 12, 13, 14, 15, 16]\<rparr>
           \<lparr>reg = replicate 8 5 @ replicate 8 65535\<rparr>"
proof -
  have a: "neon_wf \<lparr>lo = [1, 2, 3, 4, 5, 6, 7, 8], hi = [9, 10, 11, 12, 13, 14, 15, 16]\<rparr>"
    and b: "neon_wf \<lparr>lo = replicate 8 5, hi = replicate 8 65535\<rparr>"
    by (simp_all add: neon_wf_def)
  show ?thesis
    using a b backends_agree [OF a b] by (simp add: neon_as_avx_def neon_arr_def)
qed

text \<open>
  C16. Load/store round trip, on both backends: storing a vector just loaded from a
  place gives back the buffer unchanged, and loading from where a vector was stored gives
  back the vector.
\<close>

theorem load_store_roundtrip:
  "(avx_load buf off = Some v \<longrightarrow> avx_store v buf off = Some buf) \<and>
   (avx_wf v \<and> avx_store v buf off = Some buf' \<longrightarrow> avx_load buf' off = Some v) \<and>
   (neon_load buf off = Some u \<longrightarrow> neon_store u buf off = Some buf) \<and>
   (neon_wf u \<and> neon_store u buf off = Some buf' \<longrightarrow> neon_load buf' off = Some u)"
  using avx_store_load avx_load_store neon_store_load neon_load_store by blast

theorem load_store_roundtrip_witness:
  "avx_store \<lparr>reg = replicate 16 7\<rparr> (replicate 20 0) 2 = Some (replicate 2 0 @ replicate 16 7 @ replicate 2 0) \<and>
   avx_load (replicate 2 0 @ replicate 16 7 @ replicate 2 0) 2 = Some \<lparr>reg = replicate 16 7\<rparr> \<and>
   neon_store \<lparr>lo = replicate 8 7, hi = replicate 8 9\<rparr> (replicate 16 0) 0 = Some (replicate 8 7 @ replicate 8 9) \<and>
   neon_load (replicate 8 7 @ replicate 8 9) 0 = Some \<lparr>lo = replicate 8 7, hi = replicate 8 9\<rparr>"
proof -
  have s1: "avx_store \<lparr>reg = replicate 16 7\<rparr> (replicate 20 0) 2 = Some (replicate 2 0 @ replicate 16 7 @ replicate 2 0)"
    and s2: "neon_store \<lparr>lo = replicate 8 7, hi = replicate 8 9\<rparr> (replicate 16 0) 0 = Some (replicate 8 7 @ replicate 8 9)"
    by code_simp+
  have w: "avx_wf \<lparr>reg = replicate 16 (7::u16)\<rparr>" "neon_wf \<lparr>lo = replicate 8 (7::u16), hi = replicate 8 9\<rparr>"
    by (simp_all add: avx_wf_def neon_wf_def)
  show ?thesis
    using s1 s2 w load_store_roundtrip [where v = "\<lparr>reg = replicate 16 7\<rparr>" and u = "\<lparr>lo = replicate 8 7, hi = replicate 8 9\<rparr>"]
    by blast
qed

text \<open>
  C17. \<open>min\<close> and \<open>max\<close> put the lane-wise unsigned extremum in the receiver and return
  all ones exactly in the lanes where the receiver already held it.
\<close>

theorem minmax_mask_lanes:
  assumes "avx_wf v" "avx_wf w" "i < 16"
  shows "reg (fst (avx_min v w)) ! i = min (reg v ! i) (reg w ! i) \<and>
         snd (avx_min v w) ! i = (if reg v ! i \<le> reg w ! i then 0xFFFF else 0) \<and>
         reg (fst (avx_max v w)) ! i = max (reg v ! i) (reg w ! i) \<and>
         snd (avx_max v w) ! i = (if reg w ! i \<le> reg v ! i then 0xFFFF else 0)"
  using avx_min_lanes [OF assms(1,2) prod.collapse [symmetric] assms(3)]
    avx_max_lanes [OF assms(1,2) prod.collapse [symmetric] assms(3)] by blast

theorem minmax_mask_lanes_witness:
  "avx_wf \<lparr>reg = replicate 16 3\<rparr> \<and> avx_wf \<lparr>reg = map of_nat [0..<16]\<rparr> \<and> (5::nat) < 16 \<and>
   reg (fst (avx_min \<lparr>reg = replicate 16 3\<rparr> \<lparr>reg = map of_nat [0..<16]\<rparr>)) ! 5 = 3 \<and>
   snd (avx_min \<lparr>reg = replicate 16 3\<rparr> \<lparr>reg = map of_nat [0..<16]\<rparr>) ! 5 = 0xFFFF \<and>
   reg (fst (avx_max \<lparr>reg = replicate 16 3\<rparr> \<lparr>reg = map of_nat [0..<16]\<rparr>)) ! 5 = 5 \<and>
   snd (avx_max \<lparr>reg = replicate 16 3\<rparr> \<lparr>reg = map of_nat [0..<16]\<rparr>) ! 5 = 0"
proof -
  have h: "avx_wf \<lparr>reg = replicate 16 (3::u16)\<rparr>" "avx_wf \<lparr>reg = map of_nat [0..<16] :: u16 list\<rparr>" "(5::nat) < 16"
    by (simp_all add: avx_wf_def)
  have l: "reg \<lparr>reg = map of_nat [0..<16] :: u16 list\<rparr> ! 5 = 5"
    by simp
  show ?thesis
    using minmax_mask_lanes [OF h] h l by simp
qed

text \<open>
  \<open>blend(other, mask)\<close> keeps the receiver where the mask is all ones and takes
  \<open>other\<close> where it is all zeros, on both backends.
\<close>

lemma blend_select_laws:
  "(avx_wf v \<longrightarrow> avx_blend v w (replicate 16 0xFFFF) = v) \<and>
   (avx_wf w \<longrightarrow> avx_blend v w (replicate 16 0) = w) \<and>
   (neon_wf u \<longrightarrow> neon_blend u u' (neon_broadcast 0xFFFF) = u) \<and>
   (neon_wf u' \<longrightarrow> neon_blend u u' (neon_broadcast 0) = u')"
  using avx_blend_ones avx_blend_zeros neon_blend_ones neon_blend_zeros by blast



text \<open>
  Where the backends differ, on concrete inputs. On a mask lane that is not a lane mask: with mask lane
  \<open>0x0080\<close>, receiver \<open>0x1234\<close> and other \<open>0xABCD\<close>, AVX2 selects by the top bit of each
  byte and gives \<open>0xAB34\<close>, NEON selects bit by bit and gives \<open>0xAB4D\<close>. On shift counts
  outside \<open>0 .. 127\<close>: \<open>sll(255)\<close> is 0 on AVX2 but a right shift by one on NEON (the low
  byte of 255 is \<open>-1\<close>), and \<open>srl(-1)\<close> is 0 on AVX2 but a left shift by one on NEON.
\<close>

lemma backends_differ:
  "avx_blend \<lparr>reg = replicate 16 0x1234\<rparr> \<lparr>reg = replicate 16 0xABCD\<rparr> (replicate 16 0x0080) =
     \<lparr>reg = replicate 16 0xAB34\<rparr> \<and>
   neon_blend \<lparr>lo = replicate 8 0x1234, hi = replicate 8 0x1234\<rparr>
     \<lparr>lo = replicate 8 0xABCD, hi = replicate 8 0xABCD\<rparr> (neon_broadcast 0x0080) =
     \<lparr>lo = replicate 8 0xAB4D, hi = replicate 8 0xAB4D\<rparr> \<and>
   avx_sll \<lparr>reg = replicate 16 3\<rparr> 255 = \<lparr>reg = replicate 16 0\<rparr> \<and>
   neon_sll \<lparr>lo = replicate 8 3, hi = replicate 8 3\<rparr> 255 = \<lparr>lo = replicate 8 1, hi = replicate 8 1\<rparr> \<and>
   avx_srl \<lparr>reg = replicate 16 3\<rparr> (-1) = \<lparr>reg = replicate 16 0\<rparr> \<and>
   neon_srl \<lparr>lo = replicate 8 3, hi = replicate 8 3\<rparr> (-1) = \<lparr>lo = replicate 8 6, hi = replicate 8 6\<rparr>"
  by code_simp

text \<open>
  C19. When the two blends agree: for a NEON mask \<open>M\<close>, the NEON bit select and the
  AVX2 byte blend give the same vector for all operands exactly when every lane of \<open>M\<close>
  is uniform per byte (\<open>0x0000\<close>, \<open>0x00FF\<close>, \<open>0xFF00\<close> or \<open>0xFFFF\<close>); any other mask
  lane, such as \<open>0x0080\<close>, makes the backends differ.
\<close>

theorem blend_agree_iff_bytewise:
  assumes "neon_wf M"
  shows "(\<forall>a b. neon_wf a \<and> neon_wf b \<longrightarrow>
            neon_as_avx (neon_blend a b M) = avx_blend (neon_as_avx a) (neon_as_avx b) (neon_arr M)) \<longleftrightarrow>
         (\<forall>m \<in> set (neon_arr M). m \<in> {0, 0xFF, 0xFF00, 0xFFFF})"
proof
  assume all: "\<forall>a b. neon_wf a \<and> neon_wf b \<longrightarrow>
            neon_as_avx (neon_blend a b M) = avx_blend (neon_as_avx a) (neon_as_avx b) (neon_arr M)"
  have wf: "neon_wf (neon_broadcast x)" for x
    by (simp add: neon_wf_def neon_broadcast_def)
  have len: "length (neon_arr M) = 16"
    using assms by (simp add: neon_wf_def neon_arr_def)
  show "\<forall>m \<in> set (neon_arr M). m \<in> {0, 0xFF, 0xFF00, 0xFFFF}"
  proof
    fix m
    assume "m \<in> set (neon_arr M)"
    then obtain i where "i < 16" "m = neon_arr M ! i"
      using len by (auto simp: in_set_conv_nth)
    then show "m \<in> {0, 0xFF, 0xFF00, 0xFFFF}"
      using blend_broadcast_lanes [OF assms] all wf by blast
  qed
next
  assume "\<forall>m \<in> set (neon_arr M). m \<in> {0, 0xFF, 0xFF00, 0xFFFF}"
  then show "\<forall>a b. neon_wf a \<and> neon_wf b \<longrightarrow>
            neon_as_avx (neon_blend a b M) = avx_blend (neon_as_avx a) (neon_as_avx b) (neon_arr M)"
    using blend_agree_bytewise assms by blast
qed

theorem blend_agree_iff_bytewise_witness:
  "neon_wf (neon_broadcast 0xFF00) \<and>
   neon_as_avx (neon_blend \<lparr>lo = replicate 8 0x1234, hi = replicate 8 0x1234\<rparr>
                   \<lparr>lo = replicate 8 0xABCD, hi = replicate 8 0xABCD\<rparr> (neon_broadcast 0xFF00)) =
   avx_blend \<lparr>reg = replicate 16 0x1234\<rparr> \<lparr>reg = replicate 16 0xABCD\<rparr>
     (neon_arr (neon_broadcast 0xFF00))"
proof -
  have w: "neon_wf (neon_broadcast 0xFF00)"
    "neon_wf \<lparr>lo = replicate 8 (0x1234::u16), hi = replicate 8 0x1234\<rparr>"
    "neon_wf \<lparr>lo = replicate 8 (0xABCD::u16), hi = replicate 8 0xABCD\<rparr>"
    by (simp_all add: neon_wf_def neon_broadcast_def)
  have s: "set (neon_arr (neon_broadcast (0xFF00::u16))) = {0xFF00}"
    by (simp add: neon_arr_def neon_broadcast_def)
  have v: "neon_as_avx \<lparr>lo = replicate 8 (0x1234::u16), hi = replicate 8 0x1234\<rparr> =
           \<lparr>reg = replicate 16 0x1234\<rparr>"
    "neon_as_avx \<lparr>lo = replicate 8 (0xABCD::u16), hi = replicate 8 0xABCD\<rparr> =
           \<lparr>reg = replicate 16 0xABCD\<rparr>"
    by (simp_all add: neon_as_avx_def neon_arr_def replicate_add [symmetric])
  have "\<forall>a b. neon_wf a \<and> neon_wf b \<longrightarrow>
          neon_as_avx (neon_blend a b (neon_broadcast 0xFF00)) =
          avx_blend (neon_as_avx a) (neon_as_avx b) (neon_arr (neon_broadcast 0xFF00))"
    using blend_agree_iff_bytewise [OF w(1)] s by simp
  then show ?thesis
    using w v by (metis (no_types, lifting))
qed

text \<open>
  C20. For shift counts \<open>0 \<le> bits < 128\<close> the NEON shifts (\<open>vshlq_u16\<close> by
  \<open>bits\<close> or \<open>-bits\<close>) agree with the AVX2 shifts, counts of 16 or more included (both
  give zero).
\<close>

theorem shifts_agree:
  assumes "neon_wf a" "0 \<le> bits" "bits < 128"
  shows "neon_as_avx (neon_sll a bits) = avx_sll (neon_as_avx a) bits \<and>
         neon_as_avx (neon_srl a bits) = avx_srl (neon_as_avx a) bits"
  using backend_shifts_agree [OF assms(2)] assms(3) by simp

theorem shifts_agree_witness:
  "neon_as_avx (neon_sll \<lparr>lo = replicate 8 3, hi = replicate 8 5\<rparr> 20) =
     avx_sll \<lparr>reg = replicate 8 3 @ replicate 8 5\<rparr> 20 \<and>
   neon_as_avx (neon_srl \<lparr>lo = replicate 8 3, hi = replicate 8 5\<rparr> 1) =
     avx_srl \<lparr>reg = replicate 8 3 @ replicate 8 5\<rparr> 1"
proof -
  have w: "neon_wf \<lparr>lo = replicate 8 (3::u16), hi = replicate 8 5\<rparr>"
    by (simp add: neon_wf_def)
  show ?thesis
    using shifts_agree [OF w, of 20] shifts_agree [OF w, of 1] by (simp add: neon_as_avx_def neon_arr_def)
qed

text \<open>
  C21. \<open>operator[]\<close> masks the index with \<open>i & 15\<close>: writing lane \<open>i\<close> changes exactly the
  lane \<open>i mod 16\<close>, and reading lane \<open>j + 16\<close> reads lane \<open>j\<close>.
\<close>

theorem lane_access:
  assumes "neon_wf v"
  shows "neon_get (neon_set v i x) j = (if i mod 16 = j mod 16 then x else neon_get v j) \<and>
         neon_get v (j + 16) = neon_get v j"
proof -
  have w': "neon_wf (neon_set v i x)"
    using assms by (simp add: neon_set_def neon_wf_def Let_def)
  have "neon_get (neon_set v i x) j = avx_get (neon_as_avx (neon_set v i x)) j"
    using backend_access_agree(2) [OF w'] .
  also have "\<dots> = avx_get (avx_set (neon_as_avx v) i x) j"
    using backend_access_agree(3) [OF assms assms] by simp
  also have "\<dots> = (if i mod 16 = j mod 16 then x else neon_get v j)"
    using avx_get_set [OF avx_wf_neon_as_avx [OF assms]] backend_access_agree(2) [OF assms] by simp
  finally show ?thesis
    by (simp add: neon_get_def and_15_eq_mod_16)
qed

theorem lane_access_witness:
  "neon_get (neon_set \<lparr>lo = replicate 8 0, hi = replicate 8 0\<rparr> 21 9) 5 = 9 \<and>
   neon_get \<lparr>lo = replicate 8 0, hi = [1, 2, 3, 4, 5, 6, 7, 8]\<rparr> 27 = 4"
proof -
  have w: "neon_wf \<lparr>lo = replicate 8 (0::u16), hi = replicate 8 0\<rparr>"
    "neon_wf \<lparr>lo = replicate 8 (0::u16), hi = [1, 2, 3, 4, 5, 6, 7, 8]\<rparr>"
    by (simp_all add: neon_wf_def)
  have g: "neon_get \<lparr>lo = replicate 8 (0::u16), hi = [1, 2, 3, 4, 5, 6, 7, 8]\<rparr> 11 = 4"
    by code_simp
  show ?thesis
    using lane_access [OF w(1), of 21 9 5] lane_access [OF w(2), of 0 0 11] g by simp
qed

end
