(* ===== verification/PrintSIMD.thy ===== *)
theory PrintSIMD
  imports Simd16
begin

text \<open>
  \<open>printSIMD(name, x)\<close> of \<open>src/unnamed/part_000\<close> (lines 403--409), shared by both
  backends: it writes the name right-aligned in a field of ten characters
  (\<open>std::setw(10)\<close> with the default fill), \<open>": ["\<close>, the sixteen lanes of the union
  member \<open>arr\<close> in decimal separated by \<open>", "\<close>, and \<open>"]\<close> with a newline. The output
  stream is an explicit string that the call appends to; the lane view is \<open>reg x\<close> on
  AVX2 and \<open>neon_arr x\<close> on NEON. \<open>show_dec\<close> is the decimal formatting that
  \<open>operator<<\<close> applies to a \<open>uint16_t\<close> (promoted to \<open>int\<close>, non-negative).
  A reader \<open>read_printSIMD\<close> (digits, separators, the frame) recovers the lanes from
  the text; it belongs to the specification, not to the program.
\<close>

definition dec_digit :: "nat \<Rightarrow> char" where
  "dec_digit d = ''0123456789'' ! d"

fun show_dec :: "nat \<Rightarrow> string" where
  "show_dec n = (if n < 10 then [dec_digit n] else show_dec (n div 10) @ [dec_digit (n mod 10)])"

declare show_dec.simps [simp del]

definition setw :: "nat \<Rightarrow> string \<Rightarrow> string" where
  "setw w s = replicate (w - length s) (CHR '' '') @ s"

text \<open>The \<open>for (int i = 0; i < 16; ++i)\<close> loop, from lane \<open>i\<close> on.\<close>

function print_lanes :: "u16 list \<Rightarrow> nat \<Rightarrow> string" where
  "print_lanes arr i =
     (if i < 16 then show_dec (unat (arr ! i)) @ (if i < 15 then '', '' else '''') @ print_lanes arr (Suc i)
      else [])"
  by pat_completeness auto
termination
  by (relation "measure (\<lambda>(arr, i). 16 - i)") auto

declare print_lanes.simps [simp del]

definition printSIMD :: "string \<Rightarrow> string \<Rightarrow> u16 list \<Rightarrow> string" where
  "printSIMD out name arr = out @ setw 10 name @ '': ['' @ print_lanes arr 0 @ '']'' @ [CHR 0x0A]"

subsection \<open>Reading the output back\<close>

definition is_dec_digit :: "char \<Rightarrow> bool" where
  "is_dec_digit c \<longleftrightarrow> 48 \<le> (of_char c :: nat) \<and> (of_char c :: nat) \<le> 57"

fun read_digits :: "nat \<Rightarrow> string \<Rightarrow> nat \<times> string" where
  "read_digits acc [] = (acc, [])"
| "read_digits acc (c # cs) =
     (if is_dec_digit c then read_digits (10 * acc + (of_char c - 48)) cs else (acc, c # cs))"

definition read_dec :: "string \<Rightarrow> (nat \<times> string) option" where
  "read_dec s = (case s of [] \<Rightarrow> None | c # cs \<Rightarrow> if is_dec_digit c then Some (read_digits 0 s) else None)"

fun read_lanes :: "nat \<Rightarrow> string \<Rightarrow> (nat list \<times> string) option" where
  "read_lanes 0 s = Some ([], s)"
| "read_lanes (Suc n) s =
     (case read_dec s of
        None \<Rightarrow> None
      | Some (v, r) \<Rightarrow>
          if n = 0 then Some ([v], r)
          else if take 2 r = '', '' then map_option (\<lambda>(vs, r'). (v # vs, r')) (read_lanes n (drop 2 r))
          else None)"

definition read_printSIMD :: "string \<Rightarrow> string \<Rightarrow> u16 list option" where
  "read_printSIMD name s =
     (let header = setw 10 name @ '': [''
      in if take (length header) s = header
         then (case read_lanes 16 (drop (length header) s) of
                 Some (vs, r) \<Rightarrow> if r = '']'' @ [CHR 0x0A] then Some (map of_nat vs) else None
               | None \<Rightarrow> None)
         else None)"

subsection \<open>Digits and the round trip\<close>

lemma dec_digit_table: "list_all (\<lambda>d. (of_char (dec_digit d) :: nat) = 48 + d) [0..<10]"
  by (simp add: dec_digit_def upt_rec)

lemma of_char_dec_digit: "d < 10 \<Longrightarrow> (of_char (dec_digit d) :: nat) = 48 + d"
  using dec_digit_table by (simp add: list_all_iff)

lemma is_dec_digit_dec_digit: "d < 10 \<Longrightarrow> is_dec_digit (dec_digit d)"
  by (simp add: is_dec_digit_def of_char_dec_digit)

lemma show_dec_digits: "list_all is_dec_digit (show_dec n)"
proof (induction n rule: show_dec.induct)
  case (1 n)
  then show ?case
    by (subst show_dec.simps) (simp add: is_dec_digit_dec_digit)
qed

lemma show_dec_not_Nil: "show_dec n \<noteq> []"
  by (subst show_dec.simps) simp

lemma read_digits_append:
  "list_all is_dec_digit ds \<Longrightarrow>
   read_digits acc (ds @ rest) = read_digits (foldl (\<lambda>a c. 10 * a + (of_char c - 48)) acc ds) rest"
  by (induction ds arbitrary: acc) simp_all

lemma foldl_show_dec:
  "foldl (\<lambda>a c. 10 * a + (of_char c - 48)) acc (show_dec n) = acc * 10 ^ length (show_dec n) + n"
proof (induction n arbitrary: acc rule: show_dec.induct)
  case (1 n)
  show ?case
  proof (cases "n < 10")
    case True
    then show ?thesis
      by (subst (1 2) show_dec.simps) (simp add: of_char_dec_digit)
  next
    case False
    then have "show_dec n = show_dec (n div 10) @ [dec_digit (n mod 10)]"
      by (subst show_dec.simps) simp
    then show ?thesis
      using "1.IH" [OF False, of acc] by (simp add: of_char_dec_digit algebra_simps)
  qed
qed

lemma read_digits_stop:
  "rest = [] \<or> \<not> is_dec_digit (hd rest) \<Longrightarrow> read_digits acc rest = (acc, rest)"
  by (cases rest) auto

lemma read_dec_show_dec:
  assumes "rest = [] \<or> \<not> is_dec_digit (hd rest)"
  shows "read_dec (show_dec n @ rest) = Some (n, rest)"
proof -
  obtain c cs where c: "show_dec n = c # cs"
    using show_dec_not_Nil by (cases "show_dec n") auto
  have "is_dec_digit c"
    using show_dec_digits [of n] c by simp
  then show ?thesis
    using c read_digits_append [OF show_dec_digits [of n], where acc = 0 and rest = rest] foldl_show_dec [of 0 n]
      read_digits_stop [OF assms]
    by (simp add: read_dec_def)
qed

lemma read_lanes_print_lanes:
  assumes "rest = [] \<or> \<not> is_dec_digit (hd rest)"
  shows "i \<le> 16 \<Longrightarrow>
    read_lanes (16 - i) (print_lanes arr i @ rest) = Some (map (\<lambda>j. unat (arr ! j)) [i..<16], rest)"
proof (induction arr i rule: print_lanes.induct)
  case (1 arr i)
  show ?case
  proof (cases "i < 15")
    case True
    have n: "16 - i = Suc (16 - Suc i)"
      using True by simp
    have "read_dec (show_dec (unat (arr ! i)) @ ('', '' @ print_lanes arr (Suc i) @ rest)) =
          Some (unat (arr ! i), '', '' @ print_lanes arr (Suc i) @ rest)"
      by (rule read_dec_show_dec) (simp add: is_dec_digit_def)
    moreover have "[i..<16] = i # [Suc i..<16]"
      using True by (simp add: upt_rec)
    ultimately show ?thesis
      using True "1.IH" n by (subst print_lanes.simps) (simp add: Let_def)
  next
    case False
    show ?thesis
    proof (cases "i = 15")
      case True
      have "read_dec (show_dec (unat (arr ! 15)) @ rest) = Some (unat (arr ! 15), rest)"
        using read_dec_show_dec [OF assms] .
      moreover have "print_lanes arr 16 = []"
        by (subst print_lanes.simps) simp
      ultimately show ?thesis
        using True by (subst print_lanes.simps) (simp add: numeral_eq_Suc)
    next
      case False
      then have "i = 16"
        using \<open>\<not> i < 15\<close> "1.prems" by simp
      then show ?thesis
        by (subst print_lanes.simps) simp
    qed
  qed
qed

lemma read_printSIMD_printSIMD:
  assumes "length arr = 16"
  shows "read_printSIMD name (printSIMD [] name arr) = Some arr"
proof -
  have r: "read_lanes 16 (print_lanes arr 0 @ '']'' @ [CHR 0x0A]) =
           Some (map (\<lambda>j. unat (arr ! j)) [0..<16], '']'' @ [CHR 0x0A])"
    using read_lanes_print_lanes [of "'']'' @ [CHR 0x0A]" 0 arr] by (simp add: is_dec_digit_def)
  have "map of_nat (map (\<lambda>j. unat (arr ! j)) [0..<16]) = arr"
    using assms by (simp add: map_upt_eqI)
  then show ?thesis
    using r by (simp add: read_printSIMD_def printSIMD_def)
qed

subsection \<open>Properties of printSIMD\<close>

text \<open>
  C22. Print/read round trip: the text \<open>printSIMD\<close> writes for a well-formed vector,
  read back with the name it was printed with, gives exactly the sixteen lanes, on both
  backends; so the output determines the vector.
\<close>

theorem printSIMD_roundtrip:
  "(avx_wf x \<longrightarrow> read_printSIMD name (printSIMD [] name (reg x)) = Some (reg x)) \<and>
   (neon_wf y \<longrightarrow> read_printSIMD name (printSIMD [] name (neon_arr y)) = Some (neon_arr y))"
  using read_printSIMD_printSIMD by (simp add: avx_wf_def neon_wf_def neon_arr_def)

theorem printSIMD_roundtrip_witness:
  "printSIMD [] ''lanes_mask'' (neon_arr \<lparr>lo = replicate 8 65535, hi = replicate 8 0\<rparr>) =
     ''lanes_mask: [65535, 65535, 65535, 65535, 65535, 65535, 65535, 65535, 0, 0, 0, 0, 0, 0, 0, 0]'' @
     [CHR 0x0A] \<and>
   read_printSIMD ''lanes_mask''
     (printSIMD [] ''lanes_mask'' (neon_arr \<lparr>lo = replicate 8 65535, hi = replicate 8 0\<rparr>)) =
     Some (neon_arr \<lparr>lo = replicate 8 65535, hi = replicate 8 0\<rparr>)"
proof -
  have p: "printSIMD [] ''lanes_mask'' (neon_arr \<lparr>lo = replicate 8 65535, hi = replicate 8 0\<rparr>) =
     ''lanes_mask: [65535, 65535, 65535, 65535, 65535, 65535, 65535, 65535, 0, 0, 0, 0, 0, 0, 0, 0]'' @
     [CHR 0x0A]"
    by (simp add: printSIMD_def setw_def neon_arr_def print_lanes.simps show_dec.simps dec_digit_def
        nth_append)
  have w: "neon_wf \<lparr>lo = replicate 8 (65535::u16), hi = replicate 8 0\<rparr>"
    by (simp add: neon_wf_def)
  show ?thesis
    using p w printSIMD_roundtrip [where y = "\<lparr>lo = replicate 8 65535, hi = replicate 8 0\<rparr>" and
        name = "''lanes_mask''"]
    by blast
qed

end
