(* ===== verification/Allocator.thy ===== *)
theory Allocator
  imports SimdMask
begin

unbundle bit_operations_syntax

text \<open>
  \<open>aligned_allocator<T, Alignment>\<close> of \<open>src/ExternalLibs/aligned_allocator.h\<close>: the
  element size \<open>sizeof(T)\<close> is the parameter \<open>sz\<close>, the alignment the parameter \<open>A\<close>,
  both \<open>size_t\<close> values (\<open>u64\<close>). The platform allocator the code calls
  (\<open>std::aligned_alloc\<close> on ARM, \<open>_mm_malloc\<close> on x86, selected by the same
  \<open>platform\<close> as the vector helpers) is a parameter \<open>sys\<close> that, given the blocks
  allocated so far, an alignment and a byte size, returns an address or \<open>0\<close> (\<open>NULL\<close>);
  its contract is \<open>sys_contract\<close>. The blocks allocated so far are an association list
  from start address to the byte size requested; \<open>deallocate\<close> removes a block.
  \<open>std::length_error\<close> and \<open>std::bad_alloc\<close> are the values of \<open>alloc_error\<close>.
\<close>

datatype alloc_error = Length_error | Bad_alloc

type_synonym blocks = "(u64 \<times> u64) list"

type_synonym sys_alloc = "blocks \<Rightarrow> u64 \<Rightarrow> u64 \<Rightarrow> u64"

text \<open>\<open>max_size()\<close>: \<open>(size_t(0) - size_t(1)) / sizeof(T)\<close>.\<close>

definition max_size :: "u64 \<Rightarrow> u64" where
  "max_size sz = (0 - 1) div sz"

text \<open>\<open>(total + Alignment - 1) & ~(Alignment - 1)\<close>, in \<open>size_t\<close> arithmetic.\<close>

definition round_up :: "u64 \<Rightarrow> u64 \<Rightarrow> u64" where
  "round_up A total_bytes = (total_bytes + A - 1) AND NOT (A - 1)"

text \<open>
  The byte size handed to the platform: the rounded size on ARM
  (\<open>aligned_alloc(Alignment, aligned_total)\<close>), the unrounded one on x86
  (\<open>_mm_malloc(total, Alignment)\<close>, where \<open>(void)aligned_total\<close> discards the rounding).
\<close>

definition request_size :: "platform \<Rightarrow> u64 \<Rightarrow> u64 \<Rightarrow> u64" where
  "request_size pf A total_bytes =
     (case pf of Neon \<Rightarrow> round_up A total_bytes | Sse2 \<Rightarrow> total_bytes)"

text \<open>
  \<open>allocate(n)\<close>: \<open>NULL\<close> for \<open>n = 0\<close>, the overflow check against \<open>max_size()\<close>, the
  byte size \<open>n * sizeof(T)\<close> and the platform call with \<open>request_size\<close>; \<open>NULL\<close> from
  it is \<open>bad_alloc\<close>. A successful call records the new block.
\<close>

definition allocate ::
  "platform \<Rightarrow> sys_alloc \<Rightarrow> u64 \<Rightarrow> u64 \<Rightarrow> blocks \<Rightarrow> u64 \<Rightarrow> alloc_error + (u64 \<times> blocks)" where
  "allocate pf sys sz A bs n =
     (if n = 0 then Inr (0, bs)
      else if n > max_size sz then Inl Length_error
      else
        let size = request_size pf A (n * sz);
            pv = sys bs A size
        in if pv = 0 then Inl Bad_alloc else Inr (pv, (pv, size) # bs))"

text \<open>
  \<open>deallocate(p, n)\<close>: \<open>std::free(p)\<close> or \<open>_mm_free(p)\<close>. Freeing \<open>NULL\<close> does nothing;
  freeing an address that is not the start of a live block is undefined behaviour,
  \<open>None\<close> here.
\<close>

definition deallocate :: "blocks \<Rightarrow> u64 \<Rightarrow> blocks option" where
  "deallocate bs p =
     (if p = 0 then Some bs
      else if p \<in> fst ` set bs then Some (filter (\<lambda>(q, _). q \<noteq> p) bs)
      else None)"

text \<open>
  A sequence of calls on one allocator: \<open>Alloc n\<close> is \<open>allocate(n)\<close>, \<open>Free p\<close> is
  \<open>deallocate(p, n)\<close>. An error ends the run (the exception leaves the caller).
\<close>

datatype alloc_op = Alloc u64 | Free u64

fun alloc_run ::
  "platform \<Rightarrow> sys_alloc \<Rightarrow> u64 \<Rightarrow> u64 \<Rightarrow> blocks \<Rightarrow> alloc_op list \<Rightarrow> (alloc_error + blocks) option" where
  "alloc_run pf sys sz A bs [] = Some (Inr bs)"
| "alloc_run pf sys sz A bs (Alloc n # ops) =
     (case allocate pf sys sz A bs n of
        Inl e \<Rightarrow> Some (Inl e)
      | Inr (p, bs') \<Rightarrow> alloc_run pf sys sz A bs' ops)"
| "alloc_run pf sys sz A bs (Free p # ops) =
     (case deallocate bs p of
        None \<Rightarrow> None
      | Some bs' \<Rightarrow> alloc_run pf sys sz A bs' ops)"

subsection \<open>Objects in allocated storage and the stateless members\<close>

text \<open>
  The objects that \<open>construct\<close> and \<open>destroy\<close> manage: a store from the address of an
  object to its value. \<open>construct(p, t)\<close> is \<open>new (pv) T(t)\<close>: it needs \<open>sizeof(T)\<close>
  bytes of live storage at \<open>p\<close> (otherwise undefined behaviour, \<open>None\<close>);
  \<open>destroy(p)\<close> is \<open>p->~T()\<close> and ends the lifetime of the object at \<open>p\<close> (without an
  object there, undefined behaviour).
\<close>

type_synonym 'a objects = "u64 \<Rightarrow> 'a option"

definition in_block :: "blocks \<Rightarrow> u64 \<Rightarrow> u64 \<Rightarrow> bool" where
  "in_block bs sz p \<longleftrightarrow> list_ex (\<lambda>(q, s). unat q \<le> unat p \<and> unat p + unat sz \<le> unat q + unat s) bs"

definition construct :: "blocks \<Rightarrow> u64 \<Rightarrow> 'a objects \<Rightarrow> u64 \<Rightarrow> 'a \<Rightarrow> 'a objects option" where
  "construct bs sz objs p t = (if in_block bs sz p then Some (objs(p \<mapsto> t)) else None)"

definition destroy :: "'a objects \<Rightarrow> u64 \<Rightarrow> 'a objects option" where
  "destroy objs p = (case objs p of None \<Rightarrow> None | Some _ \<Rightarrow> Some (objs(p := None)))"

text \<open>\<open>address(r)\<close>: \<open>&r\<close>, a reference being the address of its object.\<close>

definition address :: "u64 \<Rightarrow> u64" where
  "address r = r"

text \<open>
  The allocator has no per-instance state (an instance is \<open>()\<close>): \<open>operator==\<close> is
  always true, \<open>operator!=\<close> its negation, and the overload of \<open>allocate\<close> with a hint
  ignores the hint.
\<close>

definition alloc_eq :: "unit \<Rightarrow> unit \<Rightarrow> bool" where
  "alloc_eq a b = True"

definition alloc_neq :: "unit \<Rightarrow> unit \<Rightarrow> bool" where
  "alloc_neq a b = (\<not> alloc_eq a b)"

definition allocate_hint ::
  "platform \<Rightarrow> sys_alloc \<Rightarrow> u64 \<Rightarrow> u64 \<Rightarrow> blocks \<Rightarrow> u64 \<Rightarrow> 'u \<Rightarrow> alloc_error + (u64 \<times> blocks)" where
  "allocate_hint pf sys sz A bs n hint = allocate pf sys sz A bs n"

subsection \<open>The platform allocator's contract\<close>

definition is_pow2 :: "u64 \<Rightarrow> bool" where
  "is_pow2 a \<longleftrightarrow> list_ex (\<lambda>k. a = 2 ^ k) [0..<64]"

text \<open>
  A block \<open>[p, p + s)\<close> that is new: not \<open>NULL\<close>, inside the address space, at an
  address no live block starts at, and disjoint from every live block.
\<close>

definition fresh_block :: "blocks \<Rightarrow> u64 \<Rightarrow> u64 \<Rightarrow> bool" where
  "fresh_block bs p s \<longleftrightarrow>
     p \<noteq> 0 \<and> unat p + unat s \<le> 2 ^ 64 \<and>
     list_all (\<lambda>(q, sq). q \<noteq> p \<and> (unat p + unat s \<le> unat q \<or> unat q + unat sq \<le> unat p)) bs"

text \<open>
  \<open>aligned_alloc(a, s)\<close> (C11): for a power-of-two \<open>a\<close> and a size that is a multiple of
  \<open>a\<close>, \<open>NULL\<close> or a fresh block aligned to \<open>a\<close>. \<open>_mm_malloc(s, a)\<close>: the same for any
  size.
\<close>

definition aligned_alloc_ok :: "sys_alloc \<Rightarrow> bool" where
  "aligned_alloc_ok sys \<longleftrightarrow>
     (\<forall>bs a s. is_pow2 a \<and> unat a dvd unat s \<and> sys bs a s \<noteq> 0 \<longrightarrow>
        unat a dvd unat (sys bs a s) \<and> fresh_block bs (sys bs a s) s)"

definition mm_malloc_ok :: "sys_alloc \<Rightarrow> bool" where
  "mm_malloc_ok sys \<longleftrightarrow>
     (\<forall>bs a s. is_pow2 a \<and> sys bs a s \<noteq> 0 \<longrightarrow>
        unat a dvd unat (sys bs a s) \<and> fresh_block bs (sys bs a s) s)"

fun sys_contract :: "platform \<Rightarrow> sys_alloc \<Rightarrow> bool" where
  "sys_contract Neon sys = aligned_alloc_ok sys"
| "sys_contract Sse2 sys = mm_malloc_ok sys"

text \<open>Live blocks start at distinct non-null addresses and do not overlap.\<close>

fun heap_inv :: "blocks \<Rightarrow> bool" where
  "heap_inv [] = True"
| "heap_inv ((p, s) # bs) = (fresh_block bs p s \<and> heap_inv bs)"

text \<open>
  A platform allocator used for concrete runs: it places the block at the first
  multiple of the alignment after every live block, a block taking at least one byte
  (starting at the alignment itself), or fails when that does not fit into the address
  space.
\<close>

fun heap_top :: "blocks \<Rightarrow> nat" where
  "heap_top [] = 0"
| "heap_top ((q, sq) # bs) = max (unat q + max (unat sq) 1) (heap_top bs)"

definition sys_bump :: sys_alloc where
  "sys_bump bs a s =
     (let e = max (heap_top bs) (unat a); p = (e + unat a - 1) div unat a * unat a
      in if a \<noteq> 0 \<and> p + unat s \<le> 2 ^ 64 then of_nat p else 0)"

subsection \<open>Rounding, size checks and the heap\<close>

lemma and_not_mask_sub: "(x::'a::len word) AND NOT (mask k) = x - take_bit k x"
proof -
  have d: "(x AND NOT (mask k)) + (x AND mask k) = (x AND NOT (mask k)) OR (x AND mask k)"
    by (rule disjunctive_add) (auto simp: bit_simps)
  have "(x AND NOT (mask k)) OR (x AND mask k) = x"
    by (simp add: bit.conj_disj_distrib [symmetric])
  with d show ?thesis
    by (simp add: take_bit_eq_mask algebra_simps eq_diff_eq)
qed

lemma unat_and_not_mask: "unat ((x::'a::len word) AND NOT (mask k)) = unat x - unat x mod 2 ^ k"
proof -
  have "take_bit k x \<le> x"
    by (simp add: take_bit_eq_mask word_and_le2)
  moreover have "unat (take_bit k x) = unat x mod 2 ^ k"
    by (simp only: unsigned_take_bit_eq) (simp add: take_bit_eq_mod)
  ultimately show ?thesis
    by (simp add: and_not_mask_sub unat_sub)
qed

lemma is_pow2_D: "is_pow2 a \<Longrightarrow> \<exists>k<64. a = 2 ^ k"
  by (auto simp: is_pow2_def list_ex_iff)

lemma is_pow2_exp: "k < 64 \<Longrightarrow> is_pow2 (2 ^ k)"
  by (auto simp: is_pow2_def list_ex_iff)

lemma unat_pow2_u64: "k < 64 \<Longrightarrow> unat (2 ^ k :: u64) = 2 ^ k"
proof -
  assume k: "k < 64"
  have "(2 ^ k :: u64) = of_nat (2 ^ k)"
    by simp
  moreover have "(2::nat) ^ k < 2 ^ 64"
    using k by (intro power_strict_increasing) simp_all
  ultimately show ?thesis
    by (simp only: unsigned_of_nat take_bit_eq_mod) simp
qed

lemma round_up_unat:
  assumes "k < 64"
  shows "unat (round_up (2 ^ k) t) = unat (t + 2 ^ k - 1) - unat (t + 2 ^ k - 1) mod 2 ^ k"
  using unat_and_not_mask [of "t + 2 ^ k - 1" k] by (simp add: round_up_def mask_eq_exp_minus_1)

lemma round_up_dvd:
  assumes "is_pow2 A"
  shows "unat A dvd unat (round_up A t)"
proof -
  obtain k where k: "k < 64" "A = 2 ^ k"
    using is_pow2_D [OF assms] by blast
  then show ?thesis
    using round_up_unat [OF k(1), of t] unat_pow2_u64 [OF k(1)]
    by (simp add: minus_mod_eq_mult_div)
qed

lemma sub_mod_bounds:
  "(0::nat) < a \<Longrightarrow> m < a \<Longrightarrow> t \<le> t + a - 1 - m \<and> t + a - 1 - m < t + a"
  by arith

lemma round_up_bounds:
  assumes "is_pow2 A" "unat t + unat A \<le> 2 ^ 64"
  shows "unat t \<le> unat (round_up A t) \<and> unat (round_up A t) < unat t + unat A"
proof -
  obtain k where k: "k < 64" "A = 2 ^ k"
    using is_pow2_D [OF assms(1)] by blast
  have a: "unat A = 2 ^ k" "(0::nat) < 2 ^ k"
    using k unat_pow2_u64 by simp_all
  then have "A \<noteq> 0"
    by auto
  then have a1: "unat (A - 1) = 2 ^ k - 1"
    using a by (simp add: unat_minus_one)
  have "unat t + unat (A - 1) < 2 ^ LENGTH(64)"
    using assms(2) a1 a by simp
  then have "unat (t + (A - 1)) = unat t + (2 ^ k - 1)"
    using a1 unat_add_lem [THEN iffD1] by metis
  moreover have "t + A - 1 = t + (A - 1)"
    by simp
  ultimately have m: "unat (t + A - 1) = unat t + 2 ^ k - 1"
    by (simp only:) simp
  have "(unat t + 2 ^ k - 1) mod 2 ^ k < 2 ^ k"
    using a by simp
  then show ?thesis
    using round_up_unat [OF k(1), of t, folded k(2)] m a sub_mod_bounds [OF a(2)] by simp
qed

lemma max_size_iff:
  assumes "0 < sz"
  shows "n \<le> max_size sz \<longleftrightarrow> unat n * unat sz < 2 ^ 64"
proof -
  have s: "0 < unat sz"
    using assms by (simp add: unat_gt_0)
  have "unat (max_size sz) = (2 ^ 64 - 1) div unat sz"
    by (simp add: max_size_def unat_div unsigned_minus_1_eq_mask mask_eq_exp_minus_1)
  then have "n \<le> max_size sz \<longleftrightarrow> unat n * unat sz \<le> 2 ^ 64 - 1"
    by (simp add: word_le_nat_alt less_eq_div_iff_mult_less_eq [OF s])
  then show ?thesis
    by (simp add: less_Suc_eq_le [symmetric])
qed

lemma unat_total_bytes:
  "unat n * unat sz < 2 ^ 64 \<Longrightarrow> unat (n * sz :: u64) = unat n * unat sz"
  by (simp add: unat_word_ariths)

lemma allocate_Inr:
  assumes "allocate pf sys sz A bs n = Inr (p, bs')"
  shows "(n = 0 \<and> p = 0 \<and> bs' = bs) \<or>
         (n \<noteq> 0 \<and> n \<le> max_size sz \<and> p \<noteq> 0 \<and> p = sys bs A (request_size pf A (n * sz)) \<and>
          bs' = (p, request_size pf A (n * sz)) # bs)"
  using assms by (auto simp: allocate_def Let_def not_less split: if_splits)

lemma sys_contract_D:
  assumes "sys_contract pf sys" "is_pow2 A" "sys bs A (request_size pf A t) \<noteq> 0"
  shows "unat A dvd unat (sys bs A (request_size pf A t)) \<and>
         fresh_block bs (sys bs A (request_size pf A t)) (request_size pf A t)"
proof (cases pf)
  case Neon
  then show ?thesis
    using assms round_up_dvd [OF assms(2), of t]
    by (simp add: aligned_alloc_ok_def request_size_def)
next
  case Sse2
  then show ?thesis
    using assms by (simp add: mm_malloc_ok_def request_size_def)
qed

lemma fresh_block_not_start: "fresh_block bs p s \<Longrightarrow> p \<notin> fst ` set bs"
  by (auto simp: fresh_block_def list_all_iff)

lemma fresh_block_filter: "fresh_block bs p s \<Longrightarrow> fresh_block (filter P bs) p s"
  by (auto simp: fresh_block_def list_all_iff)

lemma heap_inv_filter: "heap_inv bs \<Longrightarrow> heap_inv (filter P bs)"
  by (induction bs rule: heap_inv.induct) (auto simp: fresh_block_filter)

lemma heap_inv_allocate:
  assumes "sys_contract pf sys" "is_pow2 A" "heap_inv bs" "allocate pf sys sz A bs n = Inr (p, bs')"
  shows "heap_inv bs'"
  using allocate_Inr [OF assms(4)] sys_contract_D [OF assms(1,2)] assms(3) by auto

lemma heap_inv_deallocate:
  "heap_inv bs \<Longrightarrow> deallocate bs p = Some bs' \<Longrightarrow> heap_inv bs'"
  by (auto simp: deallocate_def heap_inv_filter split: if_splits)

lemma heap_top_bound: "(q, sq) \<in> set bs \<Longrightarrow> unat q + max (unat sq) 1 \<le> heap_top bs"
  by (induction bs rule: heap_top.induct) auto

lemma round_up_nat_ge: "(0::nat) < a \<Longrightarrow> e \<le> (e + a - 1) div a * a"
  using sub_mod_bounds [of a "(e + a - 1) mod a" e] by (simp add: minus_mod_eq_div_mult [symmetric])

lemma sys_bump_mm_malloc: "mm_malloc_ok sys_bump"
  unfolding mm_malloc_ok_def
proof (intro allI impI)
  fix bs a s
  assume "is_pow2 a \<and> sys_bump bs a s \<noteq> 0"
  then have nz: "sys_bump bs a s \<noteq> 0"
    by blast
  define e where "e = max (heap_top bs) (unat a)"
  define p where "p = (e + unat a - 1) div unat a * unat a"
  have c: "a \<noteq> 0" "p + unat s \<le> 2 ^ 64" and v: "sys_bump bs a s = of_nat p"
    using nz by (simp_all add: sys_bump_def e_def p_def Let_def split: if_splits)
  have "p \<noteq> 2 ^ 64"
    using nz v by auto
  then have "p < 2 ^ 64"
    using c(2) by simp
  then have u: "unat (sys_bump bs a s) = p"
    using v by (simp add: unsigned_of_nat take_bit_eq_mod)
  have a0: "0 < unat a"
    using c(1) by (simp add: unat_gt_0)
  have ep: "e \<le> p"
    unfolding p_def using round_up_nat_ge [OF a0] .
  have "list_all (\<lambda>(q, sq). q \<noteq> sys_bump bs a s \<and>
          (unat (sys_bump bs a s) + unat s \<le> unat q \<or> unat q + unat sq \<le> unat (sys_bump bs a s))) bs"
  proof (clarsimp simp: list_all_iff u)
    fix q sq
    assume "(q, sq) \<in> set bs"
    then have "unat q + max (unat sq) 1 \<le> p"
      using heap_top_bound ep e_def by fastforce
    then show "q \<noteq> sys_bump bs a s \<and> (p + unat s \<le> unat q \<or> unat q + unat sq \<le> p)"
      using u by auto
  qed
  then show "unat a dvd unat (sys_bump bs a s) \<and> fresh_block bs (sys_bump bs a s) s"
    using nz c(2) u by (simp add: fresh_block_def p_def)
qed

lemma sys_bump_contract: "sys_contract pf sys_bump"
  using sys_bump_mm_malloc by (cases pf) (auto simp: aligned_alloc_ok_def mm_malloc_ok_def)


lemma allocate_Inr_nonnull:
  assumes "allocate pf sys sz A bs n = Inr (p, bs')" "p \<noteq> 0"
  shows "0 < sz \<and> unat n * unat sz < 2 ^ 64 \<and> p = sys bs A (request_size pf A (n * sz)) \<and>
         bs' = (p, request_size pf A (n * sz)) # bs"
proof -
  from allocate_Inr [OF assms(1)] assms(2)
  have n: "n \<noteq> 0" "n \<le> max_size sz" and r: "p = sys bs A (request_size pf A (n * sz))"
      "bs' = (p, request_size pf A (n * sz)) # bs"
    by auto
  have "sz \<noteq> 0"
    using n by (auto simp: max_size_def)
  then have "0 < sz"
    by (simp add: word_neq_0_conv)
  then show ?thesis
    using n(2) r max_size_iff by blast
qed

lemma is_pow2_pos: "is_pow2 A \<Longrightarrow> 0 < unat A"
  using is_pow2_D unat_pow2_u64 by fastforce

lemma allocate_block_bounds:
  assumes "is_pow2 A" "allocate pf sys sz A bs n = Inr (p, bs')" "p \<noteq> 0"
    and "unat n * unat sz + unat A \<le> 2 ^ 64"
  shows "\<exists>s. bs' = (p, s) # bs \<and> unat n * unat sz \<le> unat s \<and> unat s < unat n * unat sz + unat A"
proof -
  have a: "unat n * unat sz < 2 ^ 64" "bs' = (p, request_size pf A (n * sz)) # bs"
    using allocate_Inr_nonnull [OF assms(2,3)] by auto
  have t: "unat (n * sz) = unat n * unat sz"
    using unat_total_bytes [OF a(1)] .
  have "unat n * unat sz \<le> unat (request_size pf A (n * sz)) \<and>
        unat (request_size pf A (n * sz)) < unat n * unat sz + unat A"
  proof (cases pf)
    case Neon
    then show ?thesis
      using round_up_bounds [OF assms(1), of "n * sz"] t assms(4) by (simp add: request_size_def)
  next
    case Sse2
    then show ?thesis
      using t is_pow2_pos [OF assms(1)] by (simp add: request_size_def)
  qed
  then show ?thesis
    using a(2) by blast
qed

lemma deallocate_fresh:
  assumes "sys_contract pf sys" "is_pow2 A" "allocate pf sys sz A bs n = Inr (p, bs')" "p \<noteq> 0"
  shows "deallocate bs' p = Some bs"
proof -
  from allocate_Inr [OF assms(3)] assms(4)
  have b: "bs' = (p, request_size pf A (n * sz)) # bs" "p = sys bs A (request_size pf A (n * sz))"
    by auto
  then have "p \<notin> fst ` set bs"
    using sys_contract_D [OF assms(1,2)] assms(4) fresh_block_not_start by metis
  then have "\<forall>x \<in> set bs. (\<lambda>(q, _). q \<noteq> p) x"
    by force
  then have "filter (\<lambda>(q, _). q \<noteq> p) bs = bs"
    by (rule filter_True)
  then show ?thesis
    using b assms(4) by (simp add: deallocate_def)
qed

lemma round_up_zero: "round_up A 0 = 0"
  by (simp add: round_up_def)

lemma round_up_wrap_zero:
  assumes "is_pow2 A" "2 ^ 64 < unat t + unat A"
  shows "round_up A t = 0"
proof -
  obtain k where k: "k < 64" "A = 2 ^ k"
    using is_pow2_D [OF assms(1)] by blast
  have a: "unat A = 2 ^ k" "(0::nat) < 2 ^ k"
    using k unat_pow2_u64 by simp_all
  then have "A \<noteq> 0"
    by auto
  then have a1: "unat (A - 1) = 2 ^ k - 1"
    using a by (simp add: unat_minus_one)
  have tl: "unat t < 2 ^ 64"
    using unsigned_less [of t] by simp
  have "unat (t + (A - 1)) = (unat t + (2 ^ k - 1)) mod 2 ^ 64"
    using a1 by (simp add: unat_word_ariths)
  also have "\<dots> = unat t + (2 ^ k - 1) - 2 ^ 64"
  proof -
    have pk: "(2::nat) ^ k < 2 ^ 64"
      using k(1) by (intro power_strict_increasing) simp_all
    have x: "2 ^ 64 \<le> unat t + (2 ^ k - 1)"
      using assms(2) a by arith
    have "unat t + (2 ^ k - 1) - 2 ^ 64 < 2 ^ 64"
      using tl pk by arith
    then show ?thesis
      using le_mod_geq [OF x] by simp
  qed
  finally have "unat (t + (A - 1)) = unat t + (2 ^ k - 1) - 2 ^ 64" .
  moreover have "t + A - 1 = t + (A - 1)"
    by simp
  ultimately have v: "unat (t + A - 1) = unat t + (2 ^ k - 1) - 2 ^ 64"
    by (simp only:)
  have "unat t + (2 ^ k - 1) - 2 ^ 64 < 2 ^ k"
    using tl a by arith
  then have "unat (round_up A t) = 0"
    using round_up_unat [OF k(1), of t, folded k(2)] v by simp
  then show ?thesis
    by (simp add: unat_eq_zero)
qed

lemma round_up_16_multiple:
  assumes "n \<le> max_size 16"
  shows "round_up 16 (n * 16) = n * 16 \<and> unat (n * 16) = unat n * 16"
proof -
  have "unat n * 16 < 2 ^ 64"
    using max_size_iff [of 16 n] assms by simp
  then have t: "unat (n * 16) = unat n * 16" and b: "unat n * 16 + 16 \<le> 2 ^ 64"
    using unat_total_bytes [of n 16] by simp_all
  have p: "is_pow2 16"
    using is_pow2_exp [of 4] by simp
  obtain j where j: "unat (round_up 16 (n * 16)) = 16 * j"
    using round_up_dvd [OF p, of "n * 16"] by auto
  have "unat n * 16 \<le> 16 * j \<and> 16 * j < unat n * 16 + 16"
    using round_up_bounds [OF p, of "n * 16"] t b j by simp
  then have "j = unat n"
    by linarith
  then have "unat (round_up 16 (n * 16)) = unat (n * 16)"
    using j t by simp
  then show ?thesis
    using t by (simp add: word_unat_eq_iff)
qed

lemma request_size_16:
  assumes "n \<le> max_size 16"
  shows "request_size pf 16 (n * 16) = n * 16"
  using round_up_16_multiple [OF assms] by (cases pf) (simp_all add: request_size_def)

subsection \<open>Properties of the allocator\<close>

text \<open>
  C23. The error paths of \<open>allocate(n)\<close>: \<open>length_error\<close> exactly when \<open>n \<noteq> 0\<close> and
  \<open>n * sizeof(T)\<close> does not fit into \<open>size_t\<close> (so the check against \<open>max_size()\<close> is exact),
  \<open>bad_alloc\<close> exactly when the size fits and the platform returns \<open>NULL\<close>, and a \<open>NULL\<close>
  result without error exactly for \<open>n = 0\<close>, which leaves the heap alone.
\<close>

theorem allocate_errors:
  assumes "0 < sz"
  shows "(allocate pf sys sz A bs n = Inl Length_error \<longleftrightarrow> n \<noteq> 0 \<and> 2 ^ 64 \<le> unat n * unat sz) \<and>
         (allocate pf sys sz A bs n = Inl Bad_alloc \<longleftrightarrow>
            n \<noteq> 0 \<and> unat n * unat sz < 2 ^ 64 \<and> sys bs A (request_size pf A (n * sz)) = 0) \<and>
         (allocate pf sys sz A bs n = Inr (0, bs') \<longleftrightarrow> n = 0 \<and> bs' = bs)"
  using max_size_iff [OF assms, of n]
  by (auto simp: allocate_def Let_def not_less not_le)

theorem allocate_errors_witness:
  "allocate Neon sys_bump 16 16 [] 0 = Inr (0, []) \<and>
   allocate Neon sys_bump 16 16 [] 0x1000000000000000 = Inl Length_error"
proof -
  have s: "(0::u64) < 16"
    by simp
  have b: "2 ^ 64 \<le> unat (0x1000000000000000 :: u64) * unat (16 :: u64)"
    by simp
  have e1: "allocate Neon sys_bump 16 16 [] 0 = Inr (0, [])"
    using allocate_errors [OF s, where pf = Neon and sys = sys_bump and A = 16 and bs = "[]" and
        n = 0 and bs' = "[]"] by blast
  have e2: "allocate Neon sys_bump 16 16 [] 0x1000000000000000 = Inl Length_error"
    using allocate_errors [OF s, where pf = Neon and sys = sys_bump and A = 16 and bs = "[]" and
        n = "0x1000000000000000"] b by simp
  show ?thesis
    using e1 e2 by blast
qed

text \<open>
  C24. Alignment: if the platform allocator keeps its contract (\<open>aligned_alloc\<close> on ARM,
  which the code feeds a size rounded to the alignment, \<open>_mm_malloc\<close> on x86) and the
  alignment is a power of two, every non-null pointer \<open>allocate\<close> returns is aligned and
  is the start of a new block disjoint from all live blocks.
\<close>

theorem allocate_aligned_fresh:
  assumes "sys_contract pf sys" "is_pow2 A" "allocate pf sys sz A bs n = Inr (p, bs')" "p \<noteq> 0"
  shows "unat A dvd unat p \<and> (\<exists>s. bs' = (p, s) # bs \<and> fresh_block bs p s)"
  using allocate_Inr [OF assms(3)] sys_contract_D [OF assms(1,2)] assms(4) by auto

theorem allocate_aligned_fresh_witness:
  "allocate Neon sys_bump 16 16 [(16, 32)] 3 = Inr (48, [(48, 48), (16, 32)]) \<and>
   unat (16::u64) dvd unat (48::u64) \<and> fresh_block [(16, 32)] 48 48"
proof -
  have a: "allocate Neon sys_bump 16 16 [(16, 32)] 3 = Inr (48, [(48, 48), (16, 32)])"
    by (simp add: allocate_def max_size_def request_size_def round_up_def sys_bump_def)
  have p: "is_pow2 16"
    using is_pow2_exp [of 4] by simp
  show ?thesis
    using a allocate_aligned_fresh [OF sys_bump_contract p a] by simp
qed

text \<open>
  C25. When \<open>n * sizeof(T)\<close> plus the alignment stays inside the address space, the
  block requested from the platform holds the \<open>n\<close> elements and exceeds them by less than
  the alignment.
\<close>

theorem allocate_block_covers:
  assumes "is_pow2 A" "allocate pf sys sz A bs n = Inr (p, bs')" "p \<noteq> 0"
    and "unat n * unat sz + unat A \<le> 2 ^ 64"
  shows "\<exists>s. bs' = (p, s) # bs \<and> unat n * unat sz \<le> unat s \<and> unat s < unat n * unat sz + unat A"
  using allocate_block_bounds [OF assms] .

theorem allocate_block_covers_witness:
  "allocate Sse2 sys_bump 2 32 [(16, 32)] 3 = Inr (64, [(64, 6), (16, 32)]) \<and>
   unat (3::u64) * unat (2::u64) \<le> unat (6::u64)"
proof -
  have a: "allocate Sse2 sys_bump 2 32 [(16, 32)] 3 = Inr (64, [(64, 6), (16, 32)])"
    by (simp add: allocate_def max_size_def request_size_def sys_bump_def)
  have p: "is_pow2 32"
    using is_pow2_exp [of 5] by simp
  have "unat (3::u64) * unat (2::u64) + unat (32::u64) \<le> 2 ^ 64"
    by simp
  then show ?thesis
    using a allocate_block_covers [OF p a] by simp
qed

text \<open>
  C26. \<open>(total + A - 1) & ~(A - 1)\<close> for a power-of-two \<open>A\<close> is a multiple of \<open>A\<close>, and
  without wrap-around it is the least multiple of \<open>A\<close> at or above \<open>total\<close>.
\<close>

theorem round_up_spec:
  assumes "is_pow2 A"
  shows "unat A dvd unat (round_up A t) \<and>
         (unat t + unat A \<le> 2 ^ 64 \<longrightarrow> unat t \<le> unat (round_up A t) \<and> unat (round_up A t) < unat t + unat A)"
  using round_up_dvd [OF assms] round_up_bounds [OF assms] by blast

theorem round_up_spec_witness: "round_up 16 40 = 48 \<and> unat (16::u64) dvd unat (48::u64)"
proof -
  have p: "is_pow2 16"
    using is_pow2_exp [of 4] by simp
  have "round_up 16 40 = 48"
    by (simp add: round_up_def)
  then show ?thesis
    using round_up_spec [OF p, of 40] by simp
qed

text \<open>
  C27. Exactly when the rounding wraps: for a power-of-two alignment \<open>A\<close>,
  \<open>(total + A - 1) & ~(A - 1)\<close> is 0 exactly when \<open>total\<close> is 0 or \<open>total + A\<close>
  exceeds \<open>2^64\<close>. The overflow check \<open>n > max_size()\<close> only bounds \<open>total = n * sizeof(T)\<close>,
  so for \<open>sizeof(T) = 1\<close>, \<open>A = 16\<close> and \<open>n = max_size()\<close> the rounded size is 0.
\<close>

theorem rounding_wraps:
  assumes "is_pow2 A"
  shows "round_up A t = 0 \<longleftrightarrow> t = 0 \<or> 2 ^ 64 < unat t + unat A"
proof
  assume z: "round_up A t = 0"
  show "t = 0 \<or> 2 ^ 64 < unat t + unat A"
  proof (rule ccontr)
    assume "\<not> (t = 0 \<or> 2 ^ 64 < unat t + unat A)"
    then have "0 < unat t" "unat t + unat A \<le> 2 ^ 64"
      by (simp_all add: unat_gt_0 not_less)
    then show False
      using round_up_bounds [OF assms] z by fastforce
  qed
next
  assume "t = 0 \<or> 2 ^ 64 < unat t + unat A"
  then show "round_up A t = 0"
    using round_up_zero round_up_wrap_zero [OF assms] by blast
qed

theorem rounding_wraps_witness:
  "is_pow2 16 \<and> max_size 1 \<noteq> 0 \<and> 2 ^ 64 < unat (max_size 1 * 1) + unat (16::u64) \<and>
   round_up 16 (max_size 1 * 1) = 0"
proof -
  have p: "is_pow2 16"
    using is_pow2_exp [of 4] by simp
  have m: "unat (max_size 1) = 2 ^ 64 - 1"
    by (simp add: max_size_def unsigned_minus_1_eq_mask mask_eq_exp_minus_1)
  then have "max_size 1 \<noteq> 0" "2 ^ 64 < unat (max_size 1 * 1) + unat (16::u64)"
    by auto
  then show ?thesis
    using p rounding_wraps [OF p, of "max_size 1 * 1"] by simp
qed

text \<open>
  C29. Any sequence of \<open>allocate\<close> and \<open>deallocate\<close> calls that completes keeps the
  live blocks at distinct non-null addresses and pairwise disjoint.
\<close>

theorem alloc_run_heap_inv:
  "sys_contract pf sys \<Longrightarrow> is_pow2 A \<Longrightarrow> heap_inv bs \<Longrightarrow>
   alloc_run pf sys sz A bs ops = Some (Inr bs') \<Longrightarrow> heap_inv bs'"
proof (induction pf sys sz A bs ops rule: alloc_run.induct)
  case (2 pf sys sz A bs n ops)
  then obtain p bs'' where a: "allocate pf sys sz A bs n = Inr (p, bs'')"
    and r: "alloc_run pf sys sz A bs'' ops = Some (Inr bs')"
    by (auto split: sum.splits)
  show ?case
    using "2.IH" [OF a refl "2.prems"(1,2) heap_inv_allocate [OF "2.prems"(1-3) a] r] .
qed (auto simp: heap_inv_deallocate split: option.splits)


theorem alloc_run_heap_inv_witness:
  "alloc_run Neon sys_bump 16 16 [] [Alloc 3, Alloc 2, Free 16, Alloc 1] = Some (Inr [(96, 16), (64, 32)]) \<and>
   heap_inv [(96, 16), (64, 32)]"
proof -
  have r: "alloc_run Neon sys_bump 16 16 [] [Alloc 3, Alloc 2, Free 16, Alloc 1] = Some (Inr [(96, 16), (64, 32)])"
    by (simp add: allocate_def deallocate_def max_size_def request_size_def round_up_def sys_bump_def)
  have p: "is_pow2 16"
    using is_pow2_exp [of 4] by simp
  have h: "heap_inv []"
    by simp
  show ?thesis
    using r alloc_run_heap_inv [OF sys_bump_contract p h r] by blast
qed

text \<open>
  C30. \<open>deallocate\<close> of the pointer just returned by \<open>allocate\<close> gives back exactly the
  previous live blocks: neighbouring allocations are left intact.
\<close>

theorem deallocate_allocate:
  assumes "sys_contract pf sys" "is_pow2 A" "allocate pf sys sz A bs n = Inr (p, bs')" "p \<noteq> 0"
  shows "deallocate bs' p = Some bs"
  using deallocate_fresh [OF assms] .

theorem deallocate_allocate_witness:
  "allocate Neon sys_bump 16 16 [(16, 32)] 3 = Inr (48, [(48, 48), (16, 32)]) \<and>
   deallocate [(48, 48), (16, 32)] 48 = Some [(16, 32)]"
proof -
  have a: "allocate Neon sys_bump 16 16 [(16, 32)] 3 = Inr (48, [(48, 48), (16, 32)])"
    by (simp add: allocate_def max_size_def request_size_def round_up_def sys_bump_def)
  have p: "is_pow2 16"
    using is_pow2_exp [of 4] by simp
  show ?thesis
    using a deallocate_allocate [OF sys_bump_contract p a] by simp
qed

text \<open>
  Only the ARM path rounds the request: on x86 \<open>(void)aligned_total\<close> discards it
  and \<open>_mm_malloc\<close> gets the unrounded size (6 bytes for alignment 32), on ARM the same
  call requests 32 bytes.
\<close>

theorem x86_request_unrounded:
  "allocate Sse2 sys_bump 2 32 [(16, 32)] 3 = Inr (64, [(64, 6), (16, 32)]) \<and>
   \<not> unat (32::u64) dvd unat (6::u64) \<and>
   allocate Neon sys_bump 2 32 [(16, 32)] 3 = Inr (64, [(64, 32), (16, 32)])"
  by (simp add: allocate_def max_size_def request_size_def round_up_def sys_bump_def)

end
