(* ===== verification/Spec2Isabelle.thy ===== *)
theory Spec2Isabelle
  imports IndexLifecycle ScanLoop ReleaseBuild Simd16 PrintSIMD Allocator
begin

text \<open>
  \<^bold>\<open>A verification library for the round-indexed reachability index of DynamicTREX.\<close>

  \<^bold>\<open>The program.\<close> \<open>src/unnamed/part_000\<close> holds two headers. Its lines 1--196 are the
  class \<open>TripBased::ProfileReachedIndexSIMD\<close>: for every trip of a timetable a 16-byte
  register (\<open>ReachedElement\<close>) whose byte \<open>round - 1\<close> is the best (lowest) stop position
  known reachable for the trip at that round; \<open>clear()\<close> resets all registers to a
  template filled with each trip's stop count, \<open>alreadyReached\<close> compares a stored byte,
  \<open>update\<close> builds a filter register from \<open>makeMask(round)\<close> and the new position and
  takes lane-wise minima trip after trip through the rest of the route, stopping at the
  first trip already as good. Lines 197--409 are the 16-lane \<open>u16\<close> vector \<open>SIMD16u\<close>
  with an AVX2 and a NEON backend. \<open>src/ExternalLibs/aligned_allocator.h\<close> is the
  allocator that gives the register vectors their 16-byte alignment. The timetable
  (\<open>TripBased::Data\<close>) is outside \<open>src/\<close>; its interface is modelled from the
  specification.

  \<^bold>\<open>Theories.\<close>
  \<^item> \<open>Prelude\<close>: machine integer types (\<open>u8\<close>, \<open>u16\<close>, \<open>u64\<close> as words), the rule
    collections \<open>lane_simps\<close>, \<open>index_defs\<close>, \<open>simd_defs\<close>, generic facts on lanes and bytes.
  \<^item> \<open>Timetable\<close> (spec-modelled): record \<open>timetable\<close>, \<open>numberOfTrips\<close>, \<open>isTrip\<close>,
    \<open>numberOfStopsInTrip\<close>, \<open>routeEnd\<close> (the expression
    \<open>firstTripOfRoute[routeOfTrip[trip] + 1]\<close>), well-formedness \<open>wf_timetable\<close>.
  \<^item> \<open>SimdMask\<close>: part_000 lines 44--106. A 128-bit register is a list of 16 bytes;
    \<open>simd_set1_u8\<close>, \<open>simd_max_u8\<close>, \<open>simd_min_u8\<close>; \<open>makeMask_neon\<close> (the ARM loop,
    \<open>makeMask_loop\<close>) and \<open>makeMask_sse2\<close> (the x86 table \<open>MAX_MASKS\<close> read as two
    little-endian 64-bit halves per entry); \<open>makeMask\<close> selects by \<open>platform\<close>.
    Properties: the two paths agree on rounds 1--16 (C6) and the lanes of the mask (C7).
  \<^item> \<open>ReachedIndex\<close>: part_000 lines 108--194. Record \<open>reached_index\<close> (\<open>data\<close>,
    \<open>defaultLabels\<close>, \<open>labels\<close>); \<open>ProfileReachedIndexSIMD\<close> (constructor), \<open>clear\<close>,
    \<open>getPosition\<close>, \<open>alreadyReached\<close>, \<open>update_loop\<close> (the \<open>for\<close> loop of \<open>update\<close>),
    \<open>update\<close>, \<open>setPosition\<close> (writing through \<open>operator()\<close>), \<open>getMask\<close>. Assertions
    are the errors of \<open>reach_error\<close> (the debug build; the release build is the theory
    \<open>ReleaseBuild\<close>), an access outside the vectors is \<open>OutOfBounds\<close>. The
    invariant \<open>index_inv\<close> asks for a well-formed timetable and, for both vectors, one
    16-lane register per trip, positions non-increasing over the rounds of a trip
    (\<open>round_monotone\<close>) and over the trips of a route (\<open>route_monotone\<close>). The reference
    semantics \<open>apply_filter\<close> applies the minimum to a whole id range without early exit.
    Properties: early exit equals the full scan (C1), the invariant is kept (C2), forward
    propagation (C3), frame (C4) and monotone relaxation (C5).
  \<^item> \<open>IndexLifecycle\<close>: the life of one index as the operations \<open>index_op\<close>
    (\<open>Clear\<close>, \<open>Update\<close>, \<open>Query\<close>) with the step function \<open>index_step\<close>, the run
    \<open>index_run\<close> and the inductive set \<open>reachable\<close> of states from the constructor
    followed by \<open>clear()\<close>. The abstract specification \<open>abs_step\<close> keeps, per trip and
    round, only the best position (a function \<open>nat \<Rightarrow> nat \<Rightarrow> nat\<close>), without
    registers, masks or the early exit. Properties: every reachable state satisfies the
    invariant (C9, rule induction), every step refines the abstract step (C10),
    \<open>clear()\<close> forgets everything (C14) and answers from the stop count modulo 256, so
    the sentinel wraps for trips of 256 or more stops (C11), runs never increase a
    position (C13), two updates commute (C32), and every run of operations with valid
    arguments completes (C33, progress).
  \<^item> \<open>ReleaseBuild\<close>: \<open>update\<close> and \<open>alreadyReached\<close> compiled with \<open>NDEBUG\<close>
    (\<open>update_release\<close>, \<open>alreadyReached_release\<close>): the assertions are gone and only the
    unchecked accesses remain, \<open>routeEnd_checked\<close> for the reads of \<open>routeOfTrip\<close> and
    \<open>firstTripOfRoute\<close>, \<open>makeMask\<close> for \<open>MAX_MASKS\<close>, \<open>getPosition\<close> for the
    register byte; an access outside a vector is \<open>OutOfBounds\<close>. Property: the complete
    release contract, where round 16 is defined and every other invalid input is an
    out-of-bounds access (C12).
  \<^item> \<open>Simd16\<close>: part_000 lines 233--399, \<open>SIMD16u\<close>. The AVX2 backend is the record
    \<open>simd16u_avx\<close> (one register of sixteen lanes), the NEON backend \<open>simd16u_neon\<close>
    (\<open>lo\<close> and \<open>hi\<close>, eight lanes each); the constructors \<open>SIMD16u(__m256i)\<close> and
    \<open>SIMD16u(lo, hi)\<close> are \<open>avx_of_reg\<close> and \<open>neon_of_halves\<close>, through which the
    operators return as in the source; every member function is a definition
    \<open>avx_*\<close> or \<open>neon_*\<close>, \<open>max\<close>/\<open>min\<close> and \<open>maxmask\<close>/\<open>minmask\<close> return the new
    receiver and the mask. \<open>neon_as_avx\<close> is the union view \<open>arr\<close> that relates the two.
    Properties: the NEON backend refines the AVX2 one (C15), load/store round trips (C16),
    the min/max masks (C17), blend on any lane mask (C18), the exact set of masks on
    which the two blends agree (C19, bytewise-uniform lanes), shifts agree for counts
    below 128 (C20), index wrap of \<open>operator[]\<close> (C21); the lemma \<open>backends_differ\<close>
    evaluates the inputs on which the backends differ.
  \<^item> \<open>PrintSIMD\<close>: part_000 lines 403--409. \<open>printSIMD\<close> appends to an explicit output
    string: the name through \<open>setw\<close>, the lanes of the union view \<open>arr\<close> in decimal
    (\<open>show_dec\<close>, the \<open>print_lanes\<close> loop with measure \<open>16 - i\<close>). A reader
    \<open>read_printSIMD\<close> of the specification inverts it: print/read round trip (C22).
  \<^item> \<open>Allocator\<close>: \<open>aligned_allocator.h\<close>. \<open>max_size\<close>, \<open>round_up\<close>
    (\<open>aligned_total\<close>), \<open>request_size\<close> (what the platform is asked for),
    \<open>allocate\<close>, \<open>deallocate\<close>, runs of calls \<open>alloc_run\<close>, \<open>construct\<close> and
    \<open>destroy\<close> over a store of objects by address, and the stateless members
    (\<open>alloc_eq\<close>, \<open>alloc_neq\<close>, \<open>allocate_hint\<close>, \<open>address\<close>). The platform
    allocator is a parameter with the contract \<open>sys_contract\<close>; the live blocks are an
    association list with the invariant \<open>heap_inv\<close>; \<open>sys_bump\<close> is a concrete allocator
    proved to meet the contract, used by the concrete checks. Properties: the error paths
    (C23), alignment and freshness (C24), the block covers the request (C25), the
    rounding (C26), exactly when the rounding wraps to 0, which the overflow check does
    not exclude (C27), invariant of runs (C29), deallocate after allocate (C30); the lemma
    \<open>x86_request_unrounded\<close> shows that x86 does not round.
  \<^item> \<open>ScanLoop\<close>: the \<open>for\<close> loop of \<open>update\<close> (part_000 lines 160--164) written
    with \<open>while_option\<close> of \<open>HOL-Library.While_Combinator\<close>: \<open>scan_cond\<close> (the loop
    condition), \<open>scan_body\<close> (the minimum and \<open>++tr\<close>), \<open>update_for\<close>. It terminates on
    every input and equals \<open>update_loop\<close> (C31, termination).
  \<^item> This theory: the specification's scenario for every timetable and input, the
    answer of every query after \<open>clear()\<close> and one \<open>update\<close> (C8), and the composition of the index
    with its allocator: the vectors of \<open>ReachedElement\<close> (\<open>sizeof_ReachedElement\<close>,
    \<open>alignof_ReachedElement\<close>) get exactly \<open>16 * numberOfTrips\<close> bytes, every element
    aligned to 16 inside the block (C28).

  \<^bold>\<open>Loops and termination.\<close> The mask loop runs at most 16 iterations (measure
  \<open>16 - i\<close>); the trip scan at most \<open>routeEnd - trip\<close> iterations (measure \<open>e - tr\<close>);
  runs of operations are structural recursion over the list of operations. All are total
  functions, so every theorem about a result is a theorem that the result exists. The
  \<open>for\<close> loop of \<open>update\<close> is also stated as the while loop it is; its termination is
  proved with the measure \<open>e - tr\<close> (C31).

  \<^bold>\<open>Machine integers.\<close> Stop positions and rounds are \<open>u8\<close> (\<open>uint8_t\<close>), lanes of
  \<open>SIMD16u\<close> are \<open>u16\<close>, the \<open>MAX_MASKS\<close> table and all sizes and addresses of the
  allocator are \<open>u64\<close>; arithmetic on them wraps as in C++, and the theorems that rely on
  the absence of wrap-around say so in their hypotheses.

  \<^bold>\<open>Not modelled.\<close> The default constructors of \<open>SIMD16u\<close> and \<open>ReachedElement\<close>,
  whose lanes are indeterminate (the lifecycle starts with \<open>clear()\<close>); the allocator's
  \<open>rebind\<close>, typedefs, empty constructors and destructor and its private assignment
  operator, which have no behaviour; the timetable beyond the interface the index reads
  (its code is outside \<open>src/\<close>); in release builds, what a compiler may make of
  undefined behaviour (\<open>ReleaseBuild\<close> stops every such access with \<open>OutOfBounds\<close>);
  the stream state of \<open>std::cout\<close> beyond the
  characters written (flags, failures).
\<close>

subsection \<open>Clear, one update, and every query after it\<close>

text \<open>
  C8. The specification's scenario for every timetable and every input: after
  \<open>clear()\<close> and a valid \<open>update(trip, p, round)\<close>, which always succeeds, a query
  \<open>alreadyReached(t, q, r)\<close> at a valid trip and round answers true exactly when the
  sentinel (the stop count of \<open>t\<close> modulo 256) is at most \<open>q\<close>, or \<open>t\<close> lies in the
  route extent \<open>[trip, routeEnd)\<close>, \<open>r \<ge> round\<close> and \<open>p \<le> q\<close>. Earlier rounds, earlier
  trips and other routes keep the sentinel; a stricter candidate \<open>q < p\<close> is not
  reached unless the sentinel already is.
\<close>

theorem clear_update_query:
  assumes wf: "wf_timetable d" and trip: "isTrip d trip" and r: "0 < round" "round < 16"
  shows "\<exists>st'. update pf (clear (ProfileReachedIndexSIMD d uninit)) trip p round = Inr st' \<and>
           (\<forall>t q r'. isTrip d t \<and> 0 < r' \<and> r' < 16 \<longrightarrow>
              alreadyReached st' t q r' =
                Inr (numberOfStopsInTrip d t mod 256 \<le> unat q \<or>
                     (trip \<le> t \<and> t < routeEnd d trip \<and> round \<le> r' \<and> p \<le> q)))"
proof -
  let ?st = "clear (ProfileReachedIndexSIMD d uninit)"
  let ?st' = "?st\<lparr>labels := apply_filter (update_filter p round) trip
                                 (routeEnd d trip) (labels ?st)\<rparr>"
  have inv: "index_inv ?st"
    using cleared_index_inv [OF wf] .
  have u: "update pf ?st trip p round = Inr ?st'"
    using update_full_scan [OF inv _ r, of trip pf p] trip by simp
  have inv': "index_inv ?st'"
    using update_index_inv [OF inv u] .
  have "alreadyReached ?st' t q r' =
          Inr (numberOfStopsInTrip d t mod 256 \<le> unat q \<or>
               (trip \<le> t \<and> t < routeEnd d trip \<and> round \<le> r' \<and> p \<le> q))"
    if t: "isTrip d t" and r': "0 < r'" "r' < 16" for t q r'
  proof -
    have tl: "t < length (labels ?st)"
      using t index_inv_labels(2) [OF inv] by (simp add: isTrip_def)
    have k: "(unat round - 1 \<le> unat r' - 1) = (round \<le> r')"
      using r(1) r'(1) by (auto simp: word_less_nat_alt word_le_nat_alt)
    have lane: "labels ?st' ! t ! (unat r' - 1) =
          (if trip \<le> t \<and> t < routeEnd d trip \<and> round \<le> r'
           then min (of_nat (numberOfStopsInTrip d t)) p else of_nat (numberOfStopsInTrip d t))"
      using full_scan_lane [OF index_inv_labels(3) [OF inv] tl round_index(3) [OF r'(1)] r(1)]
        cleared_lane [OF t round_index(3) [OF r'(1)]] k less_imp_le [OF r'(2)]
      by simp
    have "\<not> 16 \<le> r'"
      using r'(2) by (simp add: not_le)
    then have "alreadyReached ?st' t q r' = Inr (labels ?st' ! t ! (unat r' - 1) \<le> q)"
      using alreadyReached_result [OF inv', of t q r'] t r'(1) by (simp add: word_round_cases(1))
    then show ?thesis
      unfolding lane
      by (cases "trip \<le> t \<and> t < routeEnd d trip \<and> round \<le> r'")
        (auto simp: u8_min_le_iff u8_of_nat_le_iff)
  qed
  with u show ?thesis
    by blast
qed

theorem clear_update_query_witness:
  "\<exists>st'. update Neon (clear (ProfileReachedIndexSIMD example_timetable [])) 0 2 1 = Inr st' \<and>
     alreadyReached st' 0 2 1 = Inr True \<and> alreadyReached st' 0 2 5 = Inr True \<and>
     alreadyReached st' 0 1 1 = Inr False \<and> alreadyReached st' 2 2 1 = Inr True \<and>
     alreadyReached st' 3 2 1 = Inr False"
proof -
  have h: "wf_timetable example_timetable" "isTrip example_timetable 0"
    by code_simp+
  have r: "(0::u8) < 1" "(1::u8) < 16"
    by simp_all
  have d: "isTrip example_timetable 2" "isTrip example_timetable 3"
    "numberOfStopsInTrip example_timetable 0 = 5" "numberOfStopsInTrip example_timetable 2 = 5"
    "numberOfStopsInTrip example_timetable 3 = 7" "routeEnd example_timetable 0 = 3"
    by code_simp+
  obtain st' where u: "update Neon (clear (ProfileReachedIndexSIMD example_timetable [])) 0 2 1 = Inr st'"
    and q: "\<forall>t q r'. isTrip example_timetable t \<and> 0 < r' \<and> r' < 16 \<longrightarrow>
              alreadyReached st' t q r' =
                Inr (numberOfStopsInTrip example_timetable t mod 256 \<le> unat q \<or>
                     (0 \<le> t \<and> t < routeEnd example_timetable 0 \<and> 1 \<le> r' \<and> 2 \<le> q))"
    using clear_update_query [OF h r, where pf = Neon and p = 2 and uninit = "[]"] by blast
  have w: "(0::u8) < 5" "(5::u8) < 16" "(1::u8) \<le> 5" "\<not> (2::u8) \<le> 1"
    by (simp_all add: word_le_nat_alt)
  show ?thesis
    using u q [rule_format, of 0 1 2] q [rule_format, of 0 5 2] q [rule_format, of 0 1 1]
      q [rule_format, of 2 1 2] q [rule_format, of 3 1 2] h(2) d r w
    by auto
qed

subsection \<open>The index's storage from the aligned allocator\<close>

text \<open>
  C28. Composition of the index with its allocator: \<open>defaultLabels\<close> and \<open>labels\<close> are
  \<open>std::vector<ReachedElement, aligned_allocator<ReachedElement, alignof(ReachedElement)>>\<close>
  with one element per trip. When the allocator succeeds for \<open>numberOfTrips\<close> elements
  (under the platform's contract), the block holds exactly \<open>16 * numberOfTrips\<close> bytes
  (the rounding changes nothing), and the element of every trip \<open>t\<close> starts at
  \<open>p + 16 t\<close> without wrap-around, aligned to 16 bytes as the 128-bit loads and stores of
  \<open>update\<close> require, with its sixteen bytes inside the block.
\<close>

theorem labels_storage_aligned:
  assumes "sys_contract pf sys" "numberOfTrips d < 2 ^ 64"
    and "allocate pf sys sizeof_ReachedElement alignof_ReachedElement bs (of_nat (numberOfTrips d)) =
         Inr (p, bs')" "p \<noteq> 0"
  shows "bs' = (p, of_nat (numberOfTrips d) * sizeof_ReachedElement) # bs \<and>
         (\<forall>t < numberOfTrips d.
            unat (p + of_nat t * sizeof_ReachedElement) = unat p + 16 * t \<and>
            unat alignof_ReachedElement dvd unat (p + of_nat t * sizeof_ReachedElement) \<and>
            in_block bs' sizeof_ReachedElement (p + of_nat t * sizeof_ReachedElement))"
proof -
  define N where "N = numberOfTrips d"
  define n where "n = (of_nat N :: u64)"
  have a: "allocate pf sys 16 16 bs n = Inr (p, bs')"
    using assms(3) by (simp add: n_def N_def sizeof_ReachedElement_def alignof_ReachedElement_def)
  have un: "unat n = N"
    using assms(2) unat_of_nat_u64 by (simp add: n_def N_def)
  note nn = allocate_Inr_nonnull [OF a assms(4)]
  have ms: "n \<le> max_size 16"
    using nn max_size_iff [of 16 n] by simp
  have bs': "bs' = (p, n * 16) # bs" and p: "p = sys bs 16 (n * 16)"
    using nn request_size_16 [OF ms, of pf] by simp_all
  have p2: "is_pow2 16"
    using is_pow2_exp [of 4] by simp
  have "unat (16::u64) dvd unat p \<and> fresh_block bs p (n * 16)"
    using sys_contract_D [OF assms(1) p2, of bs "n * 16"] request_size_16 [OF ms, of pf] p assms(4)
    by simp
  then have dv: "16 dvd unat p" and top: "unat p + 16 * N \<le> 2 ^ 64"
    using unat_total_bytes [of n 16] nn un by (simp_all add: fresh_block_def mult.commute)
  have elem: "unat (p + of_nat t * 16) = unat p + 16 * t \<and> 16 dvd unat (p + of_nat t * 16) \<and>
              in_block bs' 16 (p + of_nat t * 16)" if t: "t < N" for t
  proof -
    have "16 * t < 2 ^ 64"
      using t top by linarith
    then have u16: "unat (of_nat t * 16 :: u64) = 16 * t"
      using unat_of_nat_u64 [of "16 * t"] by (simp add: mult.commute)
    have "unat p + unat (of_nat t * 16 :: u64) < 2 ^ LENGTH(64)"
      using t top u16 by simp
    then have ua: "unat (p + of_nat t * 16) = unat p + 16 * t"
      using u16 unat_add_lem [THEN iffD1] by metis
    moreover have "16 dvd unat p + 16 * t"
      using dv by simp
    moreover have "unat (n * 16) = 16 * N"
      using unat_total_bytes [of n 16] nn un by simp
    then have "in_block bs' 16 (p + of_nat t * 16)"
      using ua t bs' by (simp add: in_block_def)
    ultimately show ?thesis
      by simp
  qed
  have u16: "unat (16::u64) = 16"
    by simp
  show ?thesis
    unfolding sizeof_ReachedElement_def alignof_ReachedElement_def
  proof (intro conjI allI impI)
    show "bs' = (p, of_nat (numberOfTrips d) * 16) # bs"
      using bs' by (simp add: n_def N_def)
  next
    fix t
    assume "t < numberOfTrips d"
    then have "t < N"
      by (simp add: N_def)
    note e = elem [OF this]
    show "unat (p + of_nat t * 16) = unat p + 16 * t"
      using e by blast
    have "16 dvd unat (p + of_nat t * 16)"
      using e by blast
    then show "unat (16::u64) dvd unat (p + of_nat t * 16)"
      by (simp only: u16)
    show "in_block bs' 16 (p + of_nat t * 16)"
      using e by blast
  qed
qed

theorem labels_storage_aligned_witness:
  "allocate Neon sys_bump sizeof_ReachedElement alignof_ReachedElement []
     (of_nat (numberOfTrips example_timetable)) = Inr (16, [(16, 80)]) \<and>
   unat ((16::u64) + of_nat 4 * sizeof_ReachedElement) = 80 \<and>
   in_block [(16, 80)] sizeof_ReachedElement (16 + of_nat 4 * sizeof_ReachedElement)"
proof -
  have n: "numberOfTrips example_timetable = 5"
    by (simp add: numberOfTrips_def example_timetable_def)
  have a: "allocate Neon sys_bump sizeof_ReachedElement alignof_ReachedElement []
             (of_nat (numberOfTrips example_timetable)) = Inr (16, [(16, 80)])"
    by (simp add: n allocate_def max_size_def request_size_def round_up_def sys_bump_def
        sizeof_ReachedElement_def alignof_ReachedElement_def)
  have l: "numberOfTrips example_timetable < 2 ^ 64" "(16::u64) \<noteq> 0" "(4::nat) < numberOfTrips example_timetable"
    by (simp_all add: n)
  have "unat ((16::u64) + of_nat 4 * sizeof_ReachedElement) = unat (16::u64) + 16 * 4 \<and>
        in_block [(16, 80)] sizeof_ReachedElement (16 + of_nat 4 * sizeof_ReachedElement)"
    using conjunct2 [OF labels_storage_aligned [OF sys_bump_contract l(1) a l(2)], rule_format, OF l(3)]
    by (elim conjE) (intro conjI; assumption)
  then show ?thesis
    using a by simp
qed

end
